(* ===== verification/Prelude.thy ===== *)
theory Prelude
  imports Main "HOL-Library.Word" "HOL-Library.Char_ord" "HOL-Library.List_Lexorder"
    "HOL-Library.Sublist"
begin

text \<open>
  The prelude of the development: the collections the component theories share, the Go
  string operations of package strings that the client uses (a Go string is a byte sequence,
  here the list of its bytes as \<^typ>\<open>string\<close>), byte and hexadecimal helpers, 64-bit
  wrap-around, and the two codec contracts (a printer with a parser that inverts it) that the
  UTF-8, hexadecimal, JSON-string and reference theories interpret.
\<close>

named_theorems go_string \<open>equations of the Go string operations\<close>
named_theorems op_intro \<open>rules that build the contract of an operation from those of its parts\<close>
named_theorems frame \<open>what an operation leaves unchanged or only extends\<close>

section \<open>Bytes and integers\<close>

type_synonym byte = "8 word"

abbreviation byte_val :: "char \<Rightarrow> nat" where
  "byte_val c \<equiv> of_char c"

abbreviation dquote :: char where "dquote \<equiv> CHR 0x22"
abbreviation backslash :: char where "backslash \<equiv> CHR 0x5C"

text \<open>Go's \<open>int\<close> and \<open>int64\<close> are two's complement values of 64 bits.\<close>

definition int64_wrap :: "int \<Rightarrow> int" where
  "int64_wrap x = (x + 2 ^ 63) mod 2 ^ 64 - 2 ^ 63"

definition max_int64 :: int where
  "max_int64 = 9223372036854775807"

lemma int64_wrap_id [simp]: "- (2 ^ 63) \<le> x \<Longrightarrow> x < 2 ^ 63 \<Longrightarrow> int64_wrap x = x"
  by (simp add: int64_wrap_def)

lemma int64_wrap_overflow: "int64_wrap (max_int64 + 1) = - (2 ^ 63)"
  by (simp add: int64_wrap_def max_int64_def)

lemma byte_val_less [simp]: "byte_val c < 256"
  by (metis of_char_mod_256 mod_less_divisor zero_less_numeral)

section \<open>Go strings\<close>

text \<open>\<open>strings.HasPrefix\<close> is \<^const>\<open>prefix\<close>; the other operations follow.\<close>

definition trim_prefix :: "string \<Rightarrow> string \<Rightarrow> string" where
  "trim_prefix p s = (if prefix p s then drop (length p) s else s)"

fun index_of :: "string \<Rightarrow> string \<Rightarrow> nat option" where
  "index_of sub [] = (if sub = [] then Some 0 else None)"
| "index_of sub (c # s) =
     (if prefix sub (c # s) then Some 0 else map_option Suc (index_of sub s))"

definition contains_str :: "string \<Rightarrow> string \<Rightarrow> bool" where
  "contains_str s sub = (index_of sub s \<noteq> None)"

text \<open>\<open>strings.Split\<close> with a separator of one byte.\<close>

fun split_on :: "char \<Rightarrow> string \<Rightarrow> string list" where
  "split_on c [] = [[]]"
| "split_on c (x # xs) =
     (if x = c then [] # split_on c xs
      else (case split_on c xs of [] \<Rightarrow> [[x]] | p # ps \<Rightarrow> (x # p) # ps))"

fun join_with :: "char \<Rightarrow> string list \<Rightarrow> string" where
  "join_with c [] = []"
| "join_with c [p] = p"
| "join_with c (p # q # ps) = p @ c # join_with c (q # ps)"

text \<open>\<open>strings.TrimRight\<close> with a cutset of one byte.\<close>

definition trim_right :: "char \<Rightarrow> string \<Rightarrow> string" where
  "trim_right c s = rev (dropWhile (\<lambda>x. x = c) (rev s))"

text \<open>\<open>strings.LastIndex\<close> for a separator of one byte.\<close>

fun last_index :: "char \<Rightarrow> string \<Rightarrow> nat option" where
  "last_index c [] = None"
| "last_index c (x # xs) =
     (case last_index c xs of Some i \<Rightarrow> Some (Suc i)
      | None \<Rightarrow> if x = c then Some 0 else None)"

text \<open>\<open>strings.ToUpper\<close> on ASCII text (the only text the client applies it to).\<close>

definition upper_char :: "char \<Rightarrow> char" where
  "upper_char c = (if 97 \<le> byte_val c \<and> byte_val c \<le> 122 then char_of (byte_val c - 32) else c)"

definition to_upper :: "string \<Rightarrow> string" where
  "to_upper s = map upper_char s"

lemma trim_prefix_append [simp, go_string]: "trim_prefix p (p @ s) = s"
  by (simp add: trim_prefix_def)

lemma trim_prefix_prefix: "prefix p s \<Longrightarrow> p @ trim_prefix p s = s"
  by (auto simp: trim_prefix_def prefix_def)

lemma index_of_Some_split:
  "index_of sub s = Some i \<Longrightarrow> \<exists>rest. s = take i s @ sub @ rest \<and> i + length sub \<le> length s"
proof (induction s arbitrary: i)
  case Nil
  then show ?case by (auto split: if_splits)
next
  case (Cons c s)
  show ?case
  proof (cases "prefix sub (c # s)")
    case True
    with Cons.prems show ?thesis
      using prefix_length_le [OF True] by (auto simp: prefix_def)
  next
    case False
    with Cons.prems obtain j where j: "index_of sub s = Some j" "i = Suc j"
      by (auto simp: map_option_case split: option.splits)
    from Cons.IH [OF j(1)] j(2) show ?thesis by auto
  qed
qed

lemma index_of_first:
  "index_of sub s = Some i \<Longrightarrow> j < i \<Longrightarrow> \<not> prefix sub (drop j s)"
proof (induction s arbitrary: i j)
  case Nil
  then show ?case by (auto split: if_splits)
next
  case (Cons c s)
  then show ?case
    by (cases j) (auto simp: map_option_case split: if_splits option.splits)
qed

lemma index_of_None: "index_of sub s = None \<longleftrightarrow> \<not> sublist sub s"
  by (induction s) (auto simp: sublist_Cons_right)

lemma index_of_at:
  "(\<And>j. j < length a \<Longrightarrow> \<not> prefix sub (drop j (a @ sub @ b))) \<Longrightarrow>
     index_of sub (a @ sub @ b) = Some (length a)"
proof (induction a)
  case Nil
  have "prefix sub (sub @ b)" by simp
  then show ?case by (cases "sub @ b") simp_all
next
  case (Cons x a)
  have "\<not> prefix sub ((x # a) @ sub @ b)"
    using Cons.prems [of 0] by simp
  moreover have "index_of sub (a @ sub @ b) = Some (length a)"
  proof (rule Cons.IH)
    fix j assume "j < length a"
    then show "\<not> prefix sub (drop j (a @ sub @ b))"
      using Cons.prems [of "Suc j"] by simp
  qed
  ultimately show ?case by simp
qed

lemma split_on_not_Nil [simp]: "split_on c s \<noteq> []"
  by (cases s) (auto split: list.splits)

lemma split_on_free: "c \<notin> set s \<Longrightarrow> split_on c s = [s]"
  by (induction s) auto

lemma split_on_append: "c \<notin> set a \<Longrightarrow> split_on c (a @ c # b) = a # split_on c b"
  by (induction a) auto

lemma split_on_join:
  "ps \<noteq> [] \<Longrightarrow> \<forall>p \<in> set ps. c \<notin> set p \<Longrightarrow> split_on c (join_with c ps) = ps"
  by (induction c ps rule: join_with.induct) (auto simp: split_on_free split_on_append)

lemma join_split [simp, go_string]: "join_with c (split_on c s) = s"
proof (induction s)
  case (Cons x s)
  have join_Cons: "join_with c ((y # p) # ps) = y # join_with c (p # ps)" for y p ps
    by (cases ps) simp_all
  obtain p ps where "split_on c s = p # ps"
    by (cases "split_on c s") auto
  with Cons show ?case by (cases "x = c") (auto simp: join_Cons)
qed simp

lemma split_on_pieces: "p \<in> set (split_on c s) \<Longrightarrow> c \<notin> set p"
  by (induction s arbitrary: p) (auto split: if_splits list.splits)

lemma trim_right_not_end: "s = [] \<or> last s \<noteq> c \<Longrightarrow> trim_right c s = s"
  by (cases s rule: rev_cases) (auto simp: trim_right_def)

lemma trim_right_end: "trim_right c s = [] \<or> last (trim_right c s) \<noteq> c"
  unfolding trim_right_def
  by (metis (mono_tags, lifting) dropWhile_eq_Nil_conv hd_dropWhile last_rev rev_is_Nil_conv)

lemma trim_right_idem [simp, go_string]: "trim_right c (trim_right c s) = trim_right c s"
  using trim_right_end [of c s] by (intro trim_right_not_end)

lemma last_index_Some: "last_index c s = Some i \<Longrightarrow> i < length s \<and> s ! i = c"
  by (induction s arbitrary: i) (auto split: option.splits if_splits)

text \<open>Evaluation of \<open>char_of\<close> at a number.\<close>

lemmas char_eval = char_of_def bit_0

section \<open>Hexadecimal\<close>

definition hex_digit :: "nat \<Rightarrow> char" where
  "hex_digit n = (if n < 10 then char_of (48 + n) else char_of (55 + n))"

text \<open>The verb \<open>%02X\<close> on a byte.\<close>

definition hex_byte :: "nat \<Rightarrow> string" where
  "hex_byte n = [hex_digit (n div 16), hex_digit (n mod 16)]"

definition hex_val :: "char \<Rightarrow> nat option" where
  "hex_val c = (let n = byte_val c in
     if 48 \<le> n \<and> n \<le> 57 then Some (n - 48)
     else if 97 \<le> n \<and> n \<le> 102 then Some (n - 87)
     else if 65 \<le> n \<and> n \<le> 70 then Some (n - 55)
     else None)"

lemma hex_val_digit [simp, go_string]: "n < 16 \<Longrightarrow> hex_val (hex_digit n) = Some n"
  by (auto simp: hex_val_def hex_digit_def Let_def)

lemma hex_digit_inj: "m < 16 \<Longrightarrow> n < 16 \<Longrightarrow> hex_digit m = hex_digit n \<Longrightarrow> m = n"
  by (metis hex_val_digit option.inject)

lemma hex_val_bound: "hex_val c = Some n \<Longrightarrow> n < 16"
  by (auto simp: hex_val_def Let_def split: if_splits)

lemma hex_byte_inj: "m < 256 \<Longrightarrow> n < 256 \<Longrightarrow> hex_byte m = hex_byte n \<Longrightarrow> m = n"
proof -
  assume "m < 256" "n < 256" "hex_byte m = hex_byte n"
  then have "m div 16 = n div 16" "m mod 16 = n mod 16"
    by (auto simp: hex_byte_def dest: hex_digit_inj [rotated 2])
  then show "m = n" by (metis div_mult_mod_eq)
qed

section \<open>Codec contracts\<close>

text \<open>
  A printer and a parser that recovers every good value. The clients of such a pair rely on
  the printer being injective, which is proved here once.
\<close>

locale codec =
  fixes enc :: "'a \<Rightarrow> string"
    and dec :: "string \<Rightarrow> 'a option"
    and good :: "'a \<Rightarrow> bool"
  assumes dec_enc: "good x \<Longrightarrow> dec (enc x) = Some x"
begin

lemma enc_inj:
  assumes "good x" "good y" "enc x = enc y"
  shows "x = y"
proof -
  from assms have "Some x = Some y" by (metis dec_enc)
  then show ?thesis by simp
qed

lemma enc_inj_on: "inj_on enc {x. good x}"
  by (auto intro: inj_onI enc_inj)

end

text \<open>
  A printer whose output can be followed by anything: the parser gives the rest back. Then
  a printed value at the front of a text is determined by the text.
\<close>

locale prefix_codec =
  fixes penc :: "'a \<Rightarrow> string"
    and pdec :: "string \<Rightarrow> ('a \<times> string) option"
    and pgood :: "'a \<Rightarrow> bool"
  assumes pdec_penc: "pgood x \<Longrightarrow> pdec (penc x @ rest) = Some (x, rest)"
begin

lemma front_determined:
  assumes "pgood x" "pgood y" "penc x @ r = penc y @ r'"
  shows "x = y \<and> r = r'"
proof -
  from assms have "Some (x, r) = Some (y, r')" by (metis pdec_penc)
  then show ?thesis by simp
qed

lemma pdec_all: "pgood x \<Longrightarrow> pdec (penc x) = Some (x, [])"
  using pdec_penc [of x "[]"] by simp

end

sublocale prefix_codec \<subseteq> whole: codec penc "\<lambda>s. map_option fst (pdec s)" pgood
  by unfold_locales (simp add: pdec_all)

end
