(* ===== verification/Utf8.thy ===== *)
theory Utf8
  imports Prelude
begin

text \<open>
  Go's view of a string as UTF-8: the conversions \<open>[]rune(s)\<close> and \<open>string(runes)\<close>,
  and \<open>strings.TrimSpace\<close>. A byte that starts no valid encoding decodes to U+FFFD and is one
  byte wide; a rune that has no encoding is written as U+FFFD.
\<close>

section \<open>Decoding\<close>

type_synonym rune = nat

abbreviation rune_error :: rune where "rune_error \<equiv> 0xFFFD"

text \<open>
  Width of the encoding a lead byte announces, with the range of its second byte
  (the \<open>first\<close> and \<open>acceptRanges\<close> tables of unicode/utf8).
\<close>

definition lead_info :: "nat \<Rightarrow> (nat \<times> nat \<times> nat) option" where
  "lead_info b =
     (if b < 0xC2 then None
      else if b \<le> 0xDF then Some (2, 0x80, 0xBF)
      else if b = 0xE0 then Some (3, 0xA0, 0xBF)
      else if b = 0xED then Some (3, 0x80, 0x9F)
      else if b \<le> 0xEF then Some (3, 0x80, 0xBF)
      else if b = 0xF0 then Some (4, 0x90, 0xBF)
      else if b \<le> 0xF3 then Some (4, 0x80, 0xBF)
      else if b = 0xF4 then Some (4, 0x80, 0x8F)
      else None)"

definition is_cont :: "nat \<Rightarrow> bool" where
  "is_cont b \<longleftrightarrow> 0x80 \<le> b \<and> b \<le> 0xBF"

text \<open>\<open>utf8.DecodeRuneInString\<close>: the rune at the front and its width in bytes.\<close>

fun decode_multi :: "nat \<Rightarrow> nat \<times> nat \<times> nat \<Rightarrow> nat list \<Rightarrow> rune \<times> nat" where
  "decode_multi b0 (n, lo, hi) bs =
     (case bs of
        [] \<Rightarrow> (rune_error, 1)
      | b1 # r1 \<Rightarrow>
          if b1 < lo \<or> hi < b1 then (rune_error, 1)
          else if n = 2 then ((b0 mod 32) * 64 + b1 mod 64, 2)
          else (case r1 of
                  [] \<Rightarrow> (rune_error, 1)
                | b2 # r2 \<Rightarrow>
                    if \<not> is_cont b2 then (rune_error, 1)
                    else if n = 3 then ((b0 mod 16) * 4096 + (b1 mod 64) * 64 + b2 mod 64, 3)
                    else (case r2 of
                            [] \<Rightarrow> (rune_error, 1)
                          | b3 # _ \<Rightarrow>
                              if \<not> is_cont b3 then (rune_error, 1)
                              else ((b0 mod 8) * 262144 + (b1 mod 64) * 4096
                                      + (b2 mod 64) * 64 + b3 mod 64, 4))))"

fun decode_rune :: "string \<Rightarrow> rune \<times> nat" where
  "decode_rune [] = (rune_error, 0)"
| "decode_rune (c # cs) =
     (let b0 = byte_val c in
      if b0 < 0x80 then (b0, 1)
      else (case lead_info b0 of
              None \<Rightarrow> (rune_error, 1)
            | Some info \<Rightarrow> decode_multi b0 info (map of_char (take 3 cs))))"

lemma decode_multi_width: "1 \<le> snd (decode_multi b i bs)"
  by (cases i) (simp split: list.splits)

declare decode_multi.simps [simp del]

lemma decode_rune_width: "s \<noteq> [] \<Longrightarrow> 1 \<le> snd (decode_rune s)"
  by (cases s) (auto simp: Let_def decode_multi_width [simplified] split: option.split)

text \<open>The runes of a string, each with the bytes it was decoded from.\<close>

function rune_chunks :: "string \<Rightarrow> (rune \<times> string) list" where
  "rune_chunks [] = []"
| "rune_chunks (c # cs) =
     (let (r, n) = decode_rune (c # cs)
      in (r, take n (c # cs)) # rune_chunks (drop n (c # cs)))"
  by pat_completeness auto
termination
proof (relation "measure length", goal_cases)
  case 1
  show ?case by simp
next
  case (2 c cs x r n)
  then have "1 \<le> n"
    using decode_rune_width [of "c # cs"] by (metis list.distinct(1) snd_conv)
  then show ?case by simp
qed

declare rune_chunks.simps(2) [simp del]

definition runes_of :: "string \<Rightarrow> rune list" where
  "runes_of s = map fst (rune_chunks s)"

section \<open>Encoding\<close>

definition valid_rune :: "rune \<Rightarrow> bool" where
  "valid_rune r \<longleftrightarrow> r < 0xD800 \<or> (0xE000 \<le> r \<and> r \<le> 0x10FFFF)"

definition encode_valid :: "rune \<Rightarrow> nat list" where
  "encode_valid r =
     (if r < 0x80 then [r]
      else if r < 0x800 then [0xC0 + r div 64, 0x80 + r mod 64]
      else if r < 0x10000 then [0xE0 + r div 4096, 0x80 + (r div 64) mod 64, 0x80 + r mod 64]
      else [0xF0 + r div 262144, 0x80 + (r div 4096) mod 64, 0x80 + (r div 64) mod 64,
            0x80 + r mod 64])"

text \<open>\<open>utf8.AppendRune\<close>, the step of \<open>string(runes)\<close>.\<close>

definition encode_rune :: "rune \<Rightarrow> string" where
  "encode_rune r = map char_of (encode_valid (if valid_rune r then r else rune_error))"

definition encode_runes :: "rune list \<Rightarrow> string" where
  "encode_runes rs = concat (map encode_rune rs)"

text \<open>Valid UTF-8: every rune re-encodes to the bytes it was decoded from.\<close>

definition utf8_valid :: "string \<Rightarrow> bool" where
  "utf8_valid s = list_all (\<lambda>(r, bs). encode_rune r = bs) (rune_chunks s)"

section \<open>White space and trimming\<close>

text \<open>\<open>unicode.IsSpace\<close>.\<close>

definition is_space :: "rune \<Rightarrow> bool" where
  "is_space r \<longleftrightarrow> (9 \<le> r \<and> r \<le> 13) \<or> r = 0x20 \<or> r = 0x85 \<or> r = 0xA0 \<or> r = 0x1680
     \<or> (0x2000 \<le> r \<and> r \<le> 0x200A) \<or> r = 0x2028 \<or> r = 0x2029 \<or> r = 0x202F \<or> r = 0x205F
     \<or> r = 0x3000"

text \<open>\<open>strings.TrimSpace\<close>: the chunks at both ends whose rune is white space are dropped.\<close>

definition trim_chunks :: "(rune \<times> string) list \<Rightarrow> (rune \<times> string) list" where
  "trim_chunks cs =
     rev (dropWhile (\<lambda>(r, _). is_space r) (rev (dropWhile (\<lambda>(r, _). is_space r) cs)))"

definition trim_space :: "string \<Rightarrow> string" where
  "trim_space s = concat (map snd (trim_chunks (rune_chunks s)))"

section \<open>Properties of the conversions\<close>

lemma decode_rune_ascii [simp]: "byte_val c < 128 \<Longrightarrow> decode_rune (c # cs) = (byte_val c, 1)"
  by simp

lemma rune_chunks_ascii [simp]:
  "byte_val c < 128 \<Longrightarrow> rune_chunks (c # cs) = (byte_val c, [c]) # rune_chunks cs"
  by (simp add: rune_chunks.simps(2))

definition ascii :: "string \<Rightarrow> bool" where
  "ascii s = list_all (\<lambda>c. byte_val c < 128) s"

lemma ascii_simps [simp]:
  "ascii []" "ascii (c # s) \<longleftrightarrow> byte_val c < 128 \<and> ascii s" "ascii (a @ b) \<longleftrightarrow> ascii a \<and> ascii b"
  by (auto simp: ascii_def)

lemma rune_chunks_of_ascii: "ascii s \<Longrightarrow> rune_chunks s = map (\<lambda>c. (byte_val c, [c])) s"
  by (induction s) auto

lemma concat_chunks: "concat (map snd (rune_chunks s)) = s"
proof (induction s rule: rune_chunks.induct)
  case (2 c cs)
  then show ?case
    by (auto simp: rune_chunks.simps(2) Let_def split: prod.splits)
qed simp

lemma runes_of_Nil [simp]: "runes_of [] = []"
  by (simp add: runes_of_def)

lemma runes_of_ascii: "ascii s \<Longrightarrow> runes_of s = map of_char s"
  by (simp add: runes_of_def rune_chunks_of_ascii)

lemma encode_runes_simps [simp]:
  "encode_runes [] = []" "encode_runes (r # rs) = encode_rune r @ encode_runes rs"
  "encode_runes (rs @ qs) = encode_runes rs @ encode_runes qs"
  by (simp_all add: encode_runes_def)

lemma encode_rune_ascii [simp]: "r < 128 \<Longrightarrow> encode_rune r = [char_of r]"
  by (simp add: encode_rune_def encode_valid_def valid_rune_def)

lemma encode_runes_ascii: "ascii s \<Longrightarrow> encode_runes (map of_char s) = s"
  by (induction s) simp_all

lemma div_mod_join64: "(r::nat) div 64 * 64 + r mod 64 = r"
  by (rule div_mult_mod_eq)

lemma div_4096: "(r::nat) div 64 div 64 = r div 4096"
  by (simp add: div_mult2_eq [symmetric])

lemma div_262144: "(r::nat) div 4096 div 64 = r div 262144"
  by (simp add: div_mult2_eq [symmetric])

lemma join_3: "(r::nat) div 4096 * 4096 + (r div 64 mod 64) * 64 + r mod 64 = r"
  using div_mod_join64 [of r] div_mod_join64 [of "r div 64"] div_4096 [of r] by linarith

lemma join_4:
  "(r::nat) div 262144 * 262144 + (r div 4096 mod 64) * 4096 + (r div 64 mod 64) * 64 + r mod 64 = r"
  using join_3 [of r] div_mod_join64 [of "r div 4096"] div_262144 [of r] by linarith

text \<open>Decoding an encoded rune, one lemma per width.\<close>

lemma strip_marks [simp]:
  fixes m q :: nat
  shows "m < 64 \<Longrightarrow> (128 + m) mod 64 = m" "q < 32 \<Longrightarrow> (192 + q) mod 32 = q"
    "q < 16 \<Longrightarrow> (224 + q) mod 16 = q" "q < 8 \<Longrightarrow> (240 + q) mod 8 = q"
  using mod_mult_self3 [of 2 64 m] mod_mult_self3 [of 6 32 q] mod_mult_self3 [of 14 16 q]
    mod_mult_self3 [of 30 8 q]
  by simp_all

lemma is_cont_mark [simp]: "m < 64 \<Longrightarrow> is_cont (128 + m)"
  by (simp add: is_cont_def)

lemma decode_encode_2:
  assumes "0x80 \<le> r" "r < 0x800"
  shows "decode_rune (map char_of (encode_valid r) @ rest) = (r, 2)"
proof -
  define q m where "q = r div 64" and "m = r mod 64"
  have qm: "r = q * 64 + m" "m < 64" "2 \<le> q" "q < 32"
    using assms by (simp_all add: q_def m_def)
  have "lead_info (192 + q) = Some (2, 0x80, 0xBF)"
    using qm by (simp add: lead_info_def)
  with assms qm show ?thesis
    by (simp add: encode_valid_def decode_multi.simps q_def [symmetric] m_def [symmetric]
        take_Cons')
qed

lemma lead_info_3:
  assumes "q < 16"
  shows "lead_info (224 + q) =
    Some (3, if q = 0 then 0xA0 else 0x80, if q = 13 then 0x9F else 0xBF)"
  using assms by (auto simp: lead_info_def)

lemma lead_info_4:
  assumes "q < 5"
  shows "lead_info (240 + q) =
    Some (4, if q = 0 then 0x90 else 0x80, if q = 4 then 0x8F else 0xBF)"
  using assms by (auto simp: lead_info_def)

lemma decode_encode_3:
  assumes "0x800 \<le> r" "r < 0x10000" "valid_rune r"
  shows "decode_rune (map char_of (encode_valid r) @ rest) = (r, 3)"
proof -
  define q m n where "q = r div 4096" and "m = r div 64 mod 64" and "n = r mod 64"
  have r: "r = q * 4096 + m * 64 + n"
    unfolding q_def m_def n_def by (rule join_3 [symmetric])
  have b: "m < 64" "n < 64" "q < 16"
    using assms by (simp_all add: q_def m_def n_def)
  have low: "q = 0 \<Longrightarrow> 32 \<le> m" using r b assms(1) by simp
  have high: "q = 13 \<Longrightarrow> m < 32" using r b assms(3) by (simp add: valid_rune_def)
  have "224 + q < 256" using b by simp
  with assms b show ?thesis
    by (simp add: encode_valid_def decode_multi.simps q_def [symmetric] m_def [symmetric]
        n_def [symmetric] take_Cons' lead_info_3)
      (use low high r in auto)
qed

lemma decode_encode_4:
  assumes "0x10000 \<le> r" "valid_rune r"
  shows "decode_rune (map char_of (encode_valid r) @ rest) = (r, 4)"
proof -
  define q m n k where "q = r div 262144" and "m = r div 4096 mod 64"
    and "n = r div 64 mod 64" and "k = r mod 64"
  have r: "r = q * 262144 + m * 4096 + n * 64 + k"
    unfolding q_def m_def n_def k_def by (rule join_4 [symmetric])
  have b: "m < 64" "n < 64" "k < 64" "q < 5"
    using assms by (simp_all add: q_def m_def n_def k_def valid_rune_def)
  have low: "q = 0 \<Longrightarrow> 16 \<le> m" using r b assms(1) by simp
  have high: "q = 4 \<Longrightarrow> m < 16" using r b assms(1,2) by (simp add: valid_rune_def)
  have "240 + q < 256" "q < 8" using b by simp_all
  with assms b show ?thesis
    by (simp add: encode_valid_def decode_multi.simps q_def [symmetric] m_def [symmetric]
        n_def [symmetric] k_def [symmetric] take_Cons' lead_info_4)
      (use low high r in auto)
qed

lemma valid_rune_error [simp]: "valid_rune rune_error"
  by (simp add: valid_rune_def)

lemma decode_encode_rune:
  assumes "valid_rune r"
  shows "decode_rune (encode_rune r @ rest) = (r, length (encode_rune r))"
proof -
  consider "r < 0x80" | "0x80 \<le> r" "r < 0x800" | "0x800 \<le> r" "r < 0x10000" | "0x10000 \<le> r"
    by linarith
  then show ?thesis
  proof cases
    case 1 then show ?thesis by simp
  next
    case 2
    with assms decode_encode_2 [of r rest] show ?thesis
      by (simp add: encode_rune_def encode_valid_def)
  next
    case 3
    with assms decode_encode_3 [of r rest] show ?thesis
      by (simp add: encode_rune_def encode_valid_def)
  next
    case 4
    with assms decode_encode_4 [of r rest] show ?thesis
      by (simp add: encode_rune_def encode_valid_def)
  qed
qed

lemma encode_rune_not_Nil [simp]: "encode_rune r \<noteq> []"
  by (simp add: encode_rune_def encode_valid_def)

lemma rune_chunks_not_Nil:
  "s \<noteq> [] \<Longrightarrow> rune_chunks s =
     (let (r, n) = decode_rune s in (r, take n s) # rune_chunks (drop n s))"
  by (cases s) (simp_all add: rune_chunks.simps(2))

lemma rune_chunks_encode:
  "valid_rune r \<Longrightarrow> rune_chunks (encode_rune r @ s) = (r, encode_rune r) # rune_chunks s"
  by (subst rune_chunks_not_Nil) (simp_all add: decode_encode_rune)

lemma rune_chunks_encode_runes:
  "list_all valid_rune rs \<Longrightarrow>
     rune_chunks (encode_runes rs @ s) = map (\<lambda>r. (r, encode_rune r)) rs @ rune_chunks s"
  by (induction rs) (simp_all add: rune_chunks_encode)

text \<open>The two conversions are inverse on valid runes and on valid text.\<close>

interpretation utf8: codec encode_runes "\<lambda>s. Some (runes_of s)" "list_all valid_rune"
proof unfold_locales
  fix rs :: "rune list"
  assume "list_all valid_rune rs"
  from rune_chunks_encode_runes [OF this, of "[]"]
  show "Some (runes_of (encode_runes rs)) = Some rs"
    by (simp add: runes_of_def comp_def)
qed

lemma encode_runes_of: "utf8_valid s \<Longrightarrow> encode_runes (runes_of s) = s"
proof -
  assume v: "utf8_valid s"
  have "list_all (\<lambda>(r, bs). encode_rune r = bs) cs \<Longrightarrow>
      encode_runes (map fst cs) = concat (map snd cs)" for cs
    by (induction cs) auto
  from this [of "rune_chunks s"] v show ?thesis
    by (simp add: runes_of_def utf8_valid_def concat_chunks)
qed

lemma encode_rune_replaced: "\<not> valid_rune r \<Longrightarrow> encode_rune r = encode_rune rune_error"
  by (simp add: encode_rune_def)

text \<open>An encoded rune decodes to a valid rune, so the runes of valid text are valid.\<close>

lemma decode_encoded_valid:
  "decode_rune (encode_rune r @ rest) = (r, n) \<Longrightarrow> valid_rune r"
  using decode_encode_rune [of rune_error rest]
  by (cases "valid_rune r") (auto simp: encode_rune_replaced)

lemma valid_runes_of: "utf8_valid s \<Longrightarrow> list_all valid_rune (runes_of s)"
proof (induction s rule: rune_chunks.induct)
  case (2 c cs)
  obtain r n where rn: "decode_rune (c # cs) = (r, n)" by fastforce
  with "2.prems" have t: "encode_rune r = take n (c # cs)" "utf8_valid (drop n (c # cs))"
    by (auto simp: utf8_valid_def rune_chunks.simps(2))
  then have "decode_rune (encode_rune r @ drop n (c # cs)) = (r, n)" using rn by simp
  then have "valid_rune r" by (rule decode_encoded_valid)
  moreover have "list_all valid_rune (runes_of (drop n (c # cs)))"
    using "2.IH" rn t(2) by auto
  ultimately show ?case using rn by (simp add: runes_of_def rune_chunks.simps(2))
qed simp

lemma rune_chunks_append_valid:
  assumes "utf8_valid a"
  shows "rune_chunks (a @ b) = rune_chunks a @ rune_chunks b"
proof -
  let ?rs = "runes_of a"
  have a: "encode_runes ?rs = a" "list_all valid_rune ?rs"
    using assms by (simp_all add: encode_runes_of valid_runes_of)
  from rune_chunks_encode_runes [OF a(2), of b] rune_chunks_encode_runes [OF a(2), of "[]"] a(1)
  show ?thesis by simp
qed

lemma runes_of_append_valid: "utf8_valid a \<Longrightarrow> runes_of (a @ b) = runes_of a @ runes_of b"
  by (simp add: runes_of_def rune_chunks_append_valid)

lemma utf8_valid_append: "utf8_valid a \<Longrightarrow> utf8_valid b \<Longrightarrow> utf8_valid (a @ b)"
  by (simp add: utf8_valid_def rune_chunks_append_valid)

lemma runes_of_eq_Nil [simp]: "runes_of s = [] \<longleftrightarrow> s = []"
  by (cases s) (auto simp: runes_of_def rune_chunks.simps(2) split: prod.splits)

lemma utf8_valid_ascii: "ascii s \<Longrightarrow> utf8_valid s"
  by (induction s) (simp_all add: utf8_valid_def)

section \<open>Properties of trimming\<close>

lemma trim_chunks_split:
  "\<exists>a b. cs = a @ trim_chunks cs @ b \<and> list_all (\<lambda>(r, _). is_space r) a
      \<and> list_all (\<lambda>(r, _). is_space r) b"
proof -
  let ?P = "\<lambda>(r, _ :: string). is_space r"
  let ?d = "dropWhile ?P cs"
  have 1: "cs = takeWhile ?P cs @ ?d" by simp
  have 2: "?d = trim_chunks cs @ rev (takeWhile ?P (rev ?d))"
    unfolding trim_chunks_def rev_append [symmetric] by simp
  have "list_all ?P (takeWhile ?P cs)" "list_all ?P (rev (takeWhile ?P (rev ?d)))"
    by (auto simp: list_all_iff dest: set_takeWhileD)
  with 1 2 show ?thesis by metis
qed

text \<open>Trimming returns a contiguous part of the text.\<close>

lemma trim_space_sublist: "\<exists>a b. s = a @ trim_space s @ b"
proof -
  obtain a b where "rune_chunks s = a @ trim_chunks (rune_chunks s) @ b"
    using trim_chunks_split by blast
  then have "s = concat (map snd a) @ trim_space s @ concat (map snd b)"
    using concat_chunks [of s] by (metis concat_append map_append trim_space_def)
  then show ?thesis by blast
qed

lemma trim_space_length: "length (trim_space s) \<le> length s"
  using trim_space_sublist [of s] by (metis length_append le_add1 le_add2 le_trans)

lemma dropWhile_hd: "xs = [] \<or> \<not> P (hd xs) \<Longrightarrow> dropWhile P xs = xs"
  by (cases xs) auto

lemma trim_chunks_id:
  "cs \<noteq> [] \<Longrightarrow> \<not> is_space (fst (hd cs)) \<Longrightarrow> \<not> is_space (fst (last cs)) \<Longrightarrow> trim_chunks cs = cs"
  unfolding trim_chunks_def
  by (simp add: dropWhile_hd hd_rev case_prod_unfold)

lemma trim_space_id:
  assumes "s \<noteq> []" "\<not> is_space (hd (runes_of s))" "\<not> is_space (last (runes_of s))"
  shows "trim_space s = s"
proof -
  have "rune_chunks s \<noteq> []"
    using assms(1) concat_chunks [of s] by auto
  with assms(2,3) show ?thesis
    by (simp add: trim_space_def trim_chunks_id runes_of_def hd_map last_map concat_chunks)
qed

lemma trim_space_Nil [simp]: "trim_space [] = []"
  by (simp add: trim_space_def trim_chunks_def)

text \<open>On ASCII text, trimming drops blanks at both ends.\<close>

lemma trim_space_ascii:
  assumes "ascii s"
  shows "trim_space s = rev (dropWhile (\<lambda>c. is_space (byte_val c))
            (rev (dropWhile (\<lambda>c. is_space (byte_val c)) s)))"
  using assms
  by (simp add: trim_space_def trim_chunks_def rune_chunks_of_ascii dropWhile_map rev_map
      comp_def)

lemma trim_space_no_blank:
  assumes "ascii s" "\<forall>c \<in> set s. \<not> is_space (byte_val c)"
  shows "trim_space s = s"
proof -
  have "dropWhile (\<lambda>c. is_space (byte_val c)) t = t" if "\<forall>c \<in> set t. \<not> is_space (byte_val c)" for t
    using that by (cases t) auto
  from this [of s] this [of "rev s"] assms show ?thesis by (simp add: trim_space_ascii)
qed

text \<open>
  An ASCII byte is never swallowed by an encoding before it: after any bytes, a final ASCII
  byte is a chunk of its own.
\<close>

lemma lead_info_cont: "lead_info b = Some (n, lo, hi) \<Longrightarrow> 0x80 \<le> lo"
  by (auto simp: lead_info_def split: if_splits)

lemma decode_multi_cont:
  "decode_multi b (n, lo, hi) bs = (r, k) \<Longrightarrow> 0x80 \<le> lo \<Longrightarrow>
     k - 1 \<le> length bs \<and> list_all (\<lambda>x. 0x80 \<le> x) (take (k - 1) bs)"
  by (auto simp: decode_multi.simps is_cont_def split: list.splits if_splits)

lemma decode_rune_cont:
  assumes "decode_rune (c # cs) = (r, k)"
  shows "k - 1 \<le> length cs \<and> list_all (\<lambda>x. 0x80 \<le> byte_val x) (take (k - 1) cs)"
proof (cases "lead_info (byte_val c)")
  case None
  with assms show ?thesis by (auto simp: Let_def split: if_splits)
next
  case (Some i)
  obtain n lo hi where i: "i = (n, lo, hi)" by (cases i) auto
  show ?thesis
  proof (cases "byte_val c < 0x80")
    case True
    with assms show ?thesis by auto
  next
    case False
    with assms Some i have d: "decode_multi (byte_val c) (n, lo, hi) (map of_char (take 3 cs)) = (r, k)"
      by (simp add: Let_def)
    from decode_multi_cont [OF d] lead_info_cont [of _ n lo hi] Some i
    have "k - 1 \<le> length (take 3 cs)"
      "list_all (\<lambda>x. 0x80 \<le> x) (take (k - 1) (map of_char (take 3 cs)) :: nat list)"
      by auto
    then show ?thesis by (auto simp: list_all_iff take_map min_def split: if_splits)
  qed
qed

lemma last_chunk_ascii:
  assumes "byte_val c < 128"
  shows "\<exists>cs. rune_chunks (s @ [c]) = cs @ [(byte_val c, [c])]"
proof (induction s rule: length_induct)
  case (1 s)
  show ?case
  proof (cases s)
    case Nil
    with assms show ?thesis by simp
  next
    case (Cons d ds)
    obtain r n where rn: "decode_rune (d # ds @ [c]) = (r, n)" by fastforce
    have n1: "1 \<le> n" using decode_rune_width [of "d # ds @ [c]"] rn by simp
    have n2: "n - 1 \<le> length ds"
    proof (rule ccontr)
      assume "\<not> n - 1 \<le> length ds"
      then have "take (n - 1) (ds @ [c]) = ds @ [c]" by simp
      moreover have "list_all (\<lambda>x. 0x80 \<le> byte_val x) (take (n - 1) (ds @ [c]))"
        using decode_rune_cont [OF rn] by blast
      ultimately have "list_all (\<lambda>x. 0x80 \<le> byte_val x) (ds @ [c])" by (simp only:)
      with assms show False by simp
    qed
    then have same: "drop n (d # ds @ [c]) = drop n (d # ds) @ [c]"
      using n1 by (cases n) simp_all
    have "length (drop n (d # ds)) < length s" using n1 Cons by (cases n) simp_all
    then obtain cs where "rune_chunks (drop n (d # ds) @ [c]) = cs @ [(byte_val c, [c])]"
      using "1.IH" by blast
    with rn same Cons show ?thesis
      by (simp add: rune_chunks.simps(2))
  qed
qed

lemma last_rune_ascii: "byte_val c < 128 \<Longrightarrow> last (runes_of (s @ [c])) = byte_val c"
  using last_chunk_ascii [of c s] by (auto simp: runes_of_def)

text \<open>Text framed by two visible ASCII characters is not changed by trimming.\<close>

lemma trim_space_framed:
  assumes "byte_val a < 128" "\<not> is_space (byte_val a)" "byte_val c < 128" "\<not> is_space (byte_val c)"
  shows "trim_space (a # s @ [c]) = a # s @ [c]"
proof (rule trim_space_id)
  show "\<not> is_space (hd (runes_of (a # s @ [c])))"
    using assms(1,2) by (simp add: runes_of_def)
  show "\<not> is_space (last (runes_of (a # s @ [c])))"
    using last_rune_ascii [OF assms(3), of "a # s"] assms(4) by simp
qed simp

text \<open>A rune below 128 is a byte of the text.\<close>

lemma mod_in_block: "q * m \<le> b \<Longrightarrow> b < q * m + m \<Longrightarrow> b mod m = b - q * m" for b :: nat
proof -
  assume b: "q * m \<le> b" "b < q * m + m"
  then have "b = (b - q * m) + q * m" by simp
  then have "b mod m = (b - q * m) mod m" by (metis mod_mult_self1 mult.commute)
  with b show ?thesis by simp
qed

lemma lead_info_kinds:
  assumes "lead_info b = Some (n, lo, hi)"
  shows "n = 2 \<and> 0xC2 \<le> b \<and> b \<le> 0xDF \<or> n = 3 \<and> 0xE1 \<le> b \<and> b \<le> 0xEF
    \<or> n = 3 \<and> lo = 0xA0 \<and> hi = 0xBF \<or> n = 4 \<and> lo = 0x90 \<and> hi = 0xBF
    \<or> n = 4 \<and> 0xF1 \<le> b \<and> b \<le> 0xF4"
proof (cases "b = 0xE0 \<or> b = 0xF0")
  case True
  then show ?thesis
  proof
    assume "b = 0xE0"
    with assms have "n = 3" "lo = 0xA0" "hi = 0xBF" by (simp_all add: lead_info_def)
    then show ?thesis by blast
  next
    assume "b = 0xF0"
    with assms have "n = 4" "lo = 0x90" "hi = 0xBF" by (simp_all add: lead_info_def)
    then show ?thesis by blast
  qed
next
  case False
  show ?thesis
  proof (cases "b \<le> 0xDF")
    case True
    then show ?thesis using assms by (cases "b < 0xC2") (simp_all add: lead_info_def)
  next
    case low: False
    show ?thesis
    proof (cases "b \<le> 0xEF")
      case True
      then show ?thesis using assms low False by (cases "b = 0xED") (simp_all add: lead_info_def)
    next
      case high: False
      show ?thesis
      proof (cases "b \<le> 0xF4")
        case True
        then show ?thesis using assms low high False by (simp add: lead_info_def split: if_splits)
      next
        case False
        then show ?thesis using assms by (simp add: lead_info_def)
      qed
    qed
  qed
qed

lemma lead_rune_high:
  assumes "lead_info b = Some (n, lo, hi)" "decode_multi b (n, lo, hi) bs = (r, k)"
  shows "128 \<le> r"
proof -
  have two: "2 \<le> b mod 32" if "0xC2 \<le> b" "b \<le> 0xDF"
    using mod_in_block [of 6 32 b] that by simp
  have three: "1 \<le> b mod 16" if "0xE1 \<le> b" "b \<le> 0xEF"
    using mod_in_block [of 14 16 b] that by simp
  have low3: "32 \<le> b1 mod 64" if "0xA0 \<le> b1" "b1 \<le> 0xBF" for b1 :: nat
    using mod_in_block [of 2 64 b1] that by simp
  have four: "1 \<le> b mod 8" if "0xF1 \<le> b" "b \<le> 0xF4"
    using mod_in_block [of 30 8 b] that by simp
  have low4: "16 \<le> b1 mod 64" if "0x90 \<le> b1" "b1 \<le> 0xBF" for b1 :: nat
    using mod_in_block [of 2 64 b1] that by simp
  consider "n = 2" "0xC2 \<le> b" "b \<le> 0xDF" | "n = 3" "0xE1 \<le> b" "b \<le> 0xEF"
    | "n = 3" "lo = 0xA0" "hi = 0xBF" | "n = 4" "lo = 0x90" "hi = 0xBF" | "n = 4" "0xF1 \<le> b" "b \<le> 0xF4"
    using lead_info_kinds [OF assms(1)] by blast
  then show ?thesis
  proof cases
    case 1
    then show ?thesis
      using assms(2) two by (auto simp: decode_multi.simps split: list.splits if_splits)
  next
    case 2
    then show ?thesis
      using assms(2) three by (auto simp: decode_multi.simps split: list.splits if_splits)
  next
    case 3
    then show ?thesis
      using assms(2) low3 [of "hd bs"] by (auto simp: decode_multi.simps split: list.splits if_splits)
  next
    case 4
    then show ?thesis
      using assms(2) low4 [of "hd bs"] by (auto simp: decode_multi.simps split: list.splits if_splits)
  next
    case 5
    then show ?thesis
      using assms(2) four by (auto simp: decode_multi.simps split: list.splits if_splits)
  qed
qed

lemma decode_rune_high: "128 \<le> byte_val c \<Longrightarrow> 128 \<le> fst (decode_rune (c # cs))"
proof (cases "lead_info (byte_val c)")
  case (Some i)
  moreover assume "128 \<le> byte_val c"
  moreover obtain n lo hi r k where "i = (n, lo, hi)"
    "decode_multi (byte_val c) (n, lo, hi) (map of_char (take 3 cs)) = (r, k)"
    by (metis prod_cases3 surj_pair)
  ultimately show ?thesis using lead_rune_high by (simp add: Let_def)
qed (simp add: Let_def)

lemma runes_all_ascii:
  assumes "\<And>n. P n \<Longrightarrow> n < 128"
  shows "list_all P (runes_of s) \<longleftrightarrow> list_all (\<lambda>c. P (byte_val c)) s"
proof (induction s)
  case (Cons c s)
  show ?case
  proof (cases "byte_val c < 128")
    case True
    then show ?thesis using Cons by (simp add: runes_of_def)
  next
    case False
    have high: "\<not> P n" if "128 \<le> n" for n
      using assms [of n] that by auto
    obtain r k where "decode_rune (c # s) = (r, k)" by (metis surj_pair)
    then have "128 \<le> hd (runes_of (c # s))" "runes_of (c # s) \<noteq> []"
      using decode_rune_high [of c s] False by (simp_all add: runes_of_def rune_chunks.simps(2) del: decode_rune.simps)
    moreover have "\<not> P (byte_val c)" using high False by simp
    ultimately show ?thesis using high [of "hd (runes_of (c # s))"] by (cases "runes_of (c # s)") simp_all
  qed
qed simp

end
