(* ===== verification/GoErrors.thy ===== *)
theory GoErrors
  imports Prelude
begin

text \<open>
  Error values. An error made by \<open>fmt.Errorf\<close> is its format text with the formatted
  arguments; one made with the verb \<open>%w\<close> also holds the error it wraps; an error of the
  standard library, of a third-party package or of the caller's code is \<open>EExt\<close>. The typed
  errors of the client are \<open>AppError\<close> (its fields are the type parameter, a record of the
  envelope theory), \<open>TransportError\<close> (errors.go) and \<open>CatalogError\<close> (collection.go).
\<close>

text \<open>A code is a string type with two named values; \<open>CatalogOther\<close> is any other.\<close>

datatype catalog_code = CatalogCollectionNotFound | CatalogSchemaVersionMismatch | CatalogOther string

record catalog_mismatch =
  cm_collection :: string
  cm_code :: catalog_code
  cm_expected :: int
  cm_actual :: int

datatype 'a gerr =
    EMsg string "string list"
  | EWrap string "string list" "'a gerr"
  | EExt string
  | EApp 'a
  | ETransport int string "'a gerr option"
  | ECatalog "catalog_mismatch list"

text \<open>
  \<open>errors.As\<close> for \<open>*AppError\<close> and \<open>*TransportError\<close>: the first error of the chain of
  that type. \<open>AppError\<close> and \<open>CatalogError\<close> do not unwrap; \<open>TransportError.Unwrap\<close>
  gives its \<open>Err\<close>.
\<close>

fun as_app :: "'a gerr \<Rightarrow> 'a option" where
  "as_app (EApp a) = Some a"
| "as_app (EWrap _ _ e) = as_app e"
| "as_app (ETransport _ _ (Some e)) = as_app e"
| "as_app _ = None"

fun errors_as_transport :: "'a gerr \<Rightarrow> bool" where
  "errors_as_transport (ETransport _ _ _) = True"
| "errors_as_transport (EWrap _ _ e) = errors_as_transport e"
| "errors_as_transport _ = False"

text \<open>\<open>asTransport\<close> of client.go asserts the type directly and does not unwrap.\<close>

fun as_transport :: "'a gerr \<Rightarrow> bool" where
  "as_transport (ETransport _ _ _) = True"
| "as_transport _ = False"

lemma as_transport_errors_as: "as_transport e \<Longrightarrow> errors_as_transport e"
  by (cases e) auto

lemma errors_as_disjoint: "as_app e = Some a \<Longrightarrow> as_transport e \<Longrightarrow>
    \<exists>st b e'. e = ETransport st b (Some e') \<and> as_app e' = Some a"
  by (cases e rule: as_app.cases) auto

text \<open>\<open>fmt\<close> of an unsigned decimal, used for counts, versions and slots in texts.\<close>

fun show_nat :: "nat \<Rightarrow> string" where
  "show_nat n = (if n < 10 then [char_of (48 + n)]
                 else show_nat (n div 10) @ [char_of (48 + n mod 10)])"

declare show_nat.simps [simp del]

definition show_int :: "int \<Rightarrow> string" where
  "show_int i = (if i < 0 then CHR ''-'' # show_nat (nat (- i)) else show_nat (nat i))"

end
