(* ===== verification/Json.thy ===== *)
theory Json
  imports Utf8 GoErrors "HOL-Library.Multiset"
begin

text \<open>
  Two JSON layers. The package ojson (github.com/JohnAD/ojson) is not part of the repository:
  its values are the type parameter \<open>'j\<close> and its operations the fields of the record
  \<open>ojson\<close>, an argument of every definition that uses them. The standard library's
  \<open>encoding/json.Marshal\<close>, which the raw API feeds with Go values, is defined here.
\<close>

section \<open>The interface of ojson\<close>

record server_entry =
  se_base_url :: string

record shard_assignment =
  sa_sot_member :: string
  sa_read_members :: "string list"
  sa_proxy_members :: "string list"

record general_config =
  gc_name :: string
  gc_establishment_server :: string
  gc_version :: int
  gc_read_member_checkin_seconds :: int
  gc_cache_update_checkin_seconds :: int
  gc_read_member_failed_checkins :: int
  gc_max_file_bytes :: int

definition zero_general :: general_config where
  "zero_general = \<lparr>gc_name = [], gc_establishment_server = [], gc_version = 0,
     gc_read_member_checkin_seconds = 0, gc_cache_update_checkin_seconds = 0,
     gc_read_member_failed_checkins = 0, gc_max_file_bytes = 0\<rparr>"

text \<open>
  One field per operation the client calls. An error result is its text. \<open>oj_keys\<close> is the
  order in which a range loop visits \<open>ToMap()\<close>; the three \<open>oj_to\<close> fields are
  \<open>ToStructTry\<close> at the three struct types of establish.go.
\<close>

record 'j ojson =
  oj_zero :: 'j
  oj_void :: 'j
  oj_read :: "string \<Rightarrow> string + 'j"
  oj_is_missing :: "'j \<Rightarrow> bool"
  oj_is_null :: "'j \<Rightarrow> bool"
  oj_is_object :: "'j \<Rightarrow> bool"
  oj_is_array :: "'j \<Rightarrow> bool"
  oj_is_string :: "'j \<Rightarrow> bool"
  oj_is_number :: "'j \<Rightarrow> bool"
  oj_is_boolean :: "'j \<Rightarrow> bool"
  oj_kind :: "'j \<Rightarrow> string"
  oj_get :: "'j \<Rightarrow> string \<Rightarrow> 'j"
  oj_items :: "'j \<Rightarrow> 'j list"
  oj_keys :: "'j \<Rightarrow> string list"
  oj_str :: "'j \<Rightarrow> string"
  oj_bool :: "'j \<Rightarrow> bool"
  oj_int :: "'j \<Rightarrow> string + int"
  oj_int_or_zero :: "'j \<Rightarrow> int"
  oj_json :: "'j \<Rightarrow> string"
  oj_new_object :: 'j
  oj_new_string :: "string \<Rightarrow> 'j"
  oj_new_bool :: "bool \<Rightarrow> 'j"
  oj_set :: "'j \<Rightarrow> string \<Rightarrow> 'j \<Rightarrow> 'j"
  oj_has_field :: "'j \<Rightarrow> string \<Rightarrow> bool"
  oj_remove :: "'j \<Rightarrow> string \<Rightarrow> 'j"
  oj_to_general :: "'j \<Rightarrow> string + general_config"
  oj_to_server :: "'j \<Rightarrow> string + server_entry"
  oj_to_assignment :: "'j \<Rightarrow> string + shard_assignment"

section \<open>Go values and encoding/json\<close>

text \<open>
  The dynamic values of a Go \<open>any\<close>. A map is the list of its entries with distinct keys, in
  any order. A value of another Go type (a float, a struct, a \<open>json.Marshaler\<close>) is
  represented by the outcome of marshalling it: its bytes, or the error text.
\<close>

datatype goany =
    GNil
  | GBool bool
  | GInt int
  | GStr string
  | GSlice "goany list"
  | GMap "(string \<times> goany) list"
  | GOther "string + string"

definition u_escape :: "string \<Rightarrow> string" where
  "u_escape digits = backslash # CHR ''u'' # digits"

definition lower_digit :: "nat \<Rightarrow> char" where
  "lower_digit n = (if n < 10 then char_of (48 + n) else char_of (87 + n))"

text \<open>
  The string encoder with HTML escaping on, as \<open>json.Marshal\<close> runs it: quote and backslash
  and five control characters have short escapes, the other control characters and
  \<open><\<close>, \<open>>\<close>, \<open>&\<close> are written as \<open>u00XX\<close>, a byte that is not UTF-8 as
  \<open>ufffd\<close>, U+2028 and U+2029 as escapes, anything else as it is.
\<close>

definition json_chunk :: "rune \<times> string \<Rightarrow> string" where
  "json_chunk = (\<lambda>(r, bs).
     if r < 0x80 then
       (if r = 0x22 \<or> r = 0x5C then backslash # bs
        else if r = 8 then [backslash, CHR ''b'']
        else if r = 12 then [backslash, CHR ''f'']
        else if r = 10 then [backslash, CHR ''n'']
        else if r = 13 then [backslash, CHR ''r'']
        else if r = 9 then [backslash, CHR ''t'']
        else if r < 0x20 \<or> r = 0x3C \<or> r = 0x3E \<or> r = 0x26 then
          u_escape [CHR ''0'', CHR ''0'', lower_digit (r div 16), lower_digit (r mod 16)]
        else bs)
     else if r = rune_error \<and> length bs = 1 then u_escape ''fffd''
     else if r = 0x2028 \<or> r = 0x2029 then u_escape (''202'' @ [lower_digit (r mod 16)])
     else bs)"

definition json_quote :: "string \<Rightarrow> string" where
  "json_quote s = dquote # concat (map json_chunk (rune_chunks s)) @ [dquote]"

fun seq_results :: "('e + 'a) list \<Rightarrow> 'e + 'a list" where
  "seq_results [] = Inr []"
| "seq_results (Inl e # _) = Inl e"
| "seq_results (Inr a # rs) = (case seq_results rs of Inl e \<Rightarrow> Inl e | Inr as \<Rightarrow> Inr (a # as))"

definition json_array :: "(string + string) list \<Rightarrow> string + string" where
  "json_array rs = (case seq_results rs of
     Inl e \<Rightarrow> Inl e
   | Inr ps \<Rightarrow> Inr (CHR ''['' # join_with (CHR '','') ps @ '']''))"

text \<open>The entries of a map are written in the order of their keys.\<close>

definition json_object :: "(string \<times> (string + string)) list \<Rightarrow> string + string" where
  "json_object kvs =
     (case seq_results (map (\<lambda>(k, r). case r of Inl e \<Rightarrow> Inl e
              | Inr v \<Rightarrow> Inr (json_quote k @ CHR '':'' # v)) (sort_key fst kvs)) of
        Inl e \<Rightarrow> Inl e
      | Inr ps \<Rightarrow> Inr (CHR ''{'' # join_with (CHR '','') ps @ ''}''))"

primrec json_marshal :: "goany \<Rightarrow> string + string" where
  "json_marshal GNil = Inr ''null''"
| "json_marshal (GBool b) = Inr (if b then ''true'' else ''false'')"
| "json_marshal (GInt i) = Inr (show_int i)"
| "json_marshal (GStr s) = Inr (json_quote s)"
| "json_marshal (GSlice vs) = json_array (map json_marshal vs)"
| "json_marshal (GMap kvs) = json_object (map (map_prod (\<lambda>k. k) json_marshal) kvs)"
| "json_marshal (GOther r) = r"

section \<open>Reading a quoted string back\<close>

text \<open>A reference reader of JSON strings, for the round trip.\<close>

definition hex4 :: "char \<Rightarrow> char \<Rightarrow> char \<Rightarrow> char \<Rightarrow> nat option" where
  "hex4 a b c d = (case (hex_val a, hex_val b, hex_val c, hex_val d) of
     (Some w, Some x, Some y, Some z) \<Rightarrow> Some (w * 4096 + x * 256 + y * 16 + z)
   | _ \<Rightarrow> None)"

definition unescape_char :: "char \<Rightarrow> char option" where
  "unescape_char e =
     (if e = dquote \<or> e = backslash \<or> e = CHR ''/'' then Some e
      else if e = CHR ''b'' then Some (char_of (8::nat))
      else if e = CHR ''f'' then Some (char_of (12::nat))
      else if e = CHR ''n'' then Some (char_of (10::nat))
      else if e = CHR ''r'' then Some (char_of (13::nat))
      else if e = CHR ''t'' then Some (char_of (9::nat))
      else None)"

definition prepend :: "string \<Rightarrow> (string \<times> string) option \<Rightarrow> (string \<times> string) option" where
  "prepend a = map_option (\<lambda>(s, r). (a @ s, r))"

fun unquote_tail :: "string \<Rightarrow> (string \<times> string) option" where
  "unquote_tail [] = None"
| "unquote_tail (c # cs) =
     (if c = dquote then Some ([], cs)
      else if c = backslash then
        (case cs of
           [] \<Rightarrow> None
         | e # t \<Rightarrow>
             if e = CHR ''u'' then
               (case t of
                  h1 # h2 # h3 # h4 # t' \<Rightarrow>
                    (case hex4 h1 h2 h3 h4 of
                       None \<Rightarrow> None
                     | Some r \<Rightarrow> prepend (encode_rune r) (unquote_tail t'))
                | _ \<Rightarrow> None)
             else (case unescape_char e of
                     None \<Rightarrow> None
                   | Some d \<Rightarrow> prepend [d] (unquote_tail t)))
      else prepend [c] (unquote_tail cs))"

fun json_unquote :: "string \<Rightarrow> (string \<times> string) option" where
  "json_unquote (c # cs) = (if c = dquote then unquote_tail cs else None)"
| "json_unquote [] = None"

lemma prepend_simps [simp]:
  "prepend a (Some (s, r)) = Some (a @ s, r)" "prepend a None = None"
  by (simp_all add: prepend_def)

lemma hex_val_lower [simp]: "n < 16 \<Longrightarrow> hex_val (lower_digit n) = Some n"
  by (auto simp: hex_val_def lower_digit_def Let_def)

lemma encode_rune_high:
  assumes "0x80 \<le> r" "c \<in> set (encode_rune r)"
  shows "0x80 \<le> byte_val c"
proof -
  let ?q = "if valid_rune r then r else rune_error"
  have q: "0x80 \<le> ?q" "valid_rune ?q" using assms(1) by auto
  have "0x80 \<le> x \<and> x < 256" if "x \<in> set (encode_valid ?q)" for x
    using that q by (auto simp: encode_valid_def valid_rune_def split: if_splits)
  with assms(2) show ?thesis by (auto simp: encode_rune_def)
qed

lemma unquote_steps:
  "unquote_tail (dquote # rest) = Some ([], rest)"
  "c \<noteq> dquote \<Longrightarrow> c \<noteq> backslash \<Longrightarrow> unquote_tail (c # rest) = prepend [c] (unquote_tail rest)"
  "e \<noteq> CHR ''u'' \<Longrightarrow> unescape_char e = Some d \<Longrightarrow>
     unquote_tail (backslash # e # rest) = prepend [d] (unquote_tail rest)"
  "hex4 h1 h2 h3 h4 = Some r \<Longrightarrow> unquote_tail (backslash # CHR ''u'' # h1 # h2 # h3 # h4 # rest)
     = prepend (encode_rune r) (unquote_tail rest)"
  by simp_all

declare unquote_tail.simps(2) [simp del]

lemma prepend_Cons: "prepend [c] (prepend bs x) = prepend (c # bs) x"
  by (cases x) auto

lemma prepend_Nil: "prepend [] x = x"
  by (cases x) auto

lemma unquote_plain:
  "\<forall>c \<in> set bs. c \<noteq> dquote \<and> c \<noteq> backslash \<Longrightarrow>
     unquote_tail (bs @ rest) = prepend bs (unquote_tail rest)"
  by (induction bs) (simp_all add: unquote_steps prepend_Cons prepend_Nil)

lemma high_not_special: "0x80 \<le> byte_val c \<Longrightarrow> c \<noteq> dquote \<and> c \<noteq> backslash"
  by auto

lemma unquote_u_escape:
  "hex4 a b c d = Some r \<Longrightarrow>
     unquote_tail (u_escape [a, b, c, d] @ rest) = prepend (encode_rune r) (unquote_tail rest)"
  by (simp add: u_escape_def unquote_steps)

lemma byte_val_iff: "byte_val c = byte_val d \<longleftrightarrow> c = d"
  by simp

lemma byte_val_special:
  "byte_val c = 0x22 \<longleftrightarrow> c = dquote" "byte_val c = 0x5C \<longleftrightarrow> c = backslash"
  using byte_val_iff [of c dquote] byte_val_iff [of c backslash] by simp_all

lemma hex4_low:
  "r < 0x80 \<Longrightarrow> hex4 (CHR ''0'') (CHR ''0'') (lower_digit (r div 16)) (lower_digit (r mod 16)) = Some r"
proof -
  assume "r < 0x80"
  then have "r div 16 < 16" by linarith
  moreover have "hex_val (CHR ''0'') = Some 0" by (simp add: hex_val_def)
  ultimately show ?thesis by (simp add: hex4_def)
qed

lemma unquote_chunk_ascii:
  assumes "byte_val c < 0x80"
  shows "unquote_tail (json_chunk (byte_val c, [c]) @ rest) = prepend [c] (unquote_tail rest)"
proof -
  define r where "r = byte_val c"
  have c: "c = char_of r" "encode_rune r = [c]" using assms by (simp_all add: r_def)
  consider (special) "r = 0x22 \<or> r = 0x5C" | (short) "r \<in> {8, 9, 10, 12, 13}"
    | (hex) "r \<noteq> 0x22" "r \<noteq> 0x5C" "r \<notin> {8, 9, 10, 12, 13}" "r < 0x20 \<or> r = 0x3C \<or> r = 0x3E \<or> r = 0x26"
    | (plain) "r \<noteq> 0x22" "r \<noteq> 0x5C" "r \<notin> {8, 9, 10, 12, 13}"
        "\<not> (r < 0x20 \<or> r = 0x3C \<or> r = 0x3E \<or> r = 0x26)"
    by blast
  then show ?thesis
  proof cases
    case special
    then have "c = dquote \<or> c = backslash" by (simp add: r_def byte_val_special)
    then show ?thesis
      by (auto simp: json_chunk_def unescape_char_def unquote_steps)
  next
    case short
    then obtain e where e: "json_chunk (r, [c]) = [backslash, e]" "e \<noteq> CHR ''u''"
      "unescape_char e = Some (char_of r)"
      by (auto simp: json_chunk_def unescape_char_def)
    then show ?thesis
      unfolding r_def [symmetric] e(1) by (simp add: c(1) [symmetric] unquote_steps)
  next
    case hex
    then have "json_chunk (r, [c]) = u_escape [CHR ''0'', CHR ''0'', lower_digit (r div 16), lower_digit (r mod 16)]"
      using assms by (simp add: json_chunk_def r_def [symmetric])
    moreover have "hex4 (CHR ''0'') (CHR ''0'') (lower_digit (r div 16)) (lower_digit (r mod 16)) = Some r"
      by (rule hex4_low) (use assms in \<open>simp add: r_def\<close>)
    ultimately show ?thesis
      using c(2) by (simp add: r_def [symmetric] unquote_u_escape)
  next
    case plain
    then have "json_chunk (r, [c]) = [c]"
      using assms by (simp add: json_chunk_def r_def [symmetric])
    moreover have "c \<noteq> dquote" "c \<noteq> backslash"
      using plain by (auto simp: r_def)
    ultimately show ?thesis
      using unquote_plain [of "[c]" rest] by (simp add: r_def [symmetric])
  qed
qed

lemma unquote_chunk:
  assumes "valid_rune r"
  shows "unquote_tail (json_chunk (r, encode_rune r) @ rest) = prepend (encode_rune r) (unquote_tail rest)"
proof (cases "r < 0x80")
  case True
  then have "byte_val (char_of r) = r" "encode_rune r = [char_of r]" by simp_all
  with True unquote_chunk_ascii [of "char_of r" rest] show ?thesis by simp
next
  case False
  have plain: "unquote_tail (encode_rune r @ rest) = prepend (encode_rune r) (unquote_tail rest)"
    by (rule unquote_plain) (use False encode_rune_high high_not_special in \<open>metis not_less\<close>)
  show ?thesis
  proof (cases "r = 0x2028 \<or> r = 0x2029")
    case True
    then have "json_chunk (r, encode_rune r) = u_escape (''202'' @ [lower_digit (r mod 16)])"
      by (auto simp: json_chunk_def)
    moreover have "hex4 (CHR ''2'') (CHR ''0'') (CHR ''2'') (lower_digit (r mod 16)) = Some r"
      using True by (auto simp: hex4_def hex_val_def lower_digit_def)
    ultimately show ?thesis by (simp add: unquote_u_escape)
  next
    case f: False
    have "length (encode_rune rune_error) \<noteq> 1"
      by (simp add: encode_rune_def encode_valid_def)
    then have "json_chunk (r, encode_rune r) = encode_rune r"
      using False f by (auto simp: json_chunk_def)
    with plain show ?thesis by simp
  qed
qed

lemma unquote_runes:
  "list_all valid_rune rs \<Longrightarrow>
     unquote_tail (concat (map (\<lambda>r. json_chunk (r, encode_rune r)) rs) @ dquote # rest)
       = Some (encode_runes rs, rest)"
  by (induction rs) (simp_all add: unquote_chunk unquote_steps)

lemma json_quote_runes:
  "list_all valid_rune rs \<Longrightarrow>
     json_quote (encode_runes rs) = dquote # concat (map (\<lambda>r. json_chunk (r, encode_rune r)) rs) @ [dquote]"
  using rune_chunks_encode_runes [of rs "[]"] by (simp add: json_quote_def comp_def)

interpretation json_text: prefix_codec json_quote json_unquote utf8_valid
proof unfold_locales
  fix s rest
  assume "utf8_valid s"
  then have "encode_runes (runes_of s) = s" "list_all valid_rune (runes_of s)"
    by (rule encode_runes_of, rule valid_runes_of)
  then show "json_unquote (json_quote s @ rest) = Some (s, rest)"
    using json_quote_runes [of "runes_of s"] unquote_runes [of "runes_of s" rest] by simp
qed

section \<open>The order of map entries\<close>

lemma json_object_cong:
  assumes "distinct (map fst kvs)" "mset kvs = mset kvs'"
  shows "json_object kvs = json_object kvs'"
proof -
  have d: "distinct (map fst kvs')"
    using assms by (metis mset_eq_imp_distinct_iff mset_map)
  have set: "set kvs' = set kvs" using assms(2) by (metis set_mset_mset)
  have "sort_key fst kvs = sort_key fst kvs'"
  proof (rule map_sorted_distinct_set_unique [of fst])
    show "inj_on fst (set (sort_key fst kvs) \<union> set (sort_key fst kvs'))"
      using assms(1) set by (simp add: distinct_map)
    have "mset (map fst (sort_key fst xs)) = mset (map fst xs)" for xs :: "(string \<times> (string + string)) list"
      by simp
    then show "distinct (map fst (sort_key fst kvs))" "distinct (map fst (sort_key fst kvs'))"
      using assms(1) d by (metis mset_eq_imp_distinct_iff)+
  qed (simp_all add: set)
  then show ?thesis by (simp add: json_object_def)
qed

lemma json_marshal_map_order:
  assumes "distinct (map fst kvs)" "mset kvs = mset kvs'"
  shows "json_marshal (GMap kvs) = json_marshal (GMap kvs')"
proof -
  have "distinct (map fst (map (map_prod (\<lambda>k. k) json_marshal) kvs))"
    using assms(1) by (simp add: comp_def)
  then show ?thesis
    using assms(2) by (simp add: json_object_cong)
qed

end
