(* ===== verification/Envelope.thy ===== *)
theory Envelope
  imports Json
begin

text \<open>
  Response envelopes (envelope.go) and application errors (errors.go): decoding, the field
  accessors, the error an envelope stands for, and the codes the client acts on.
\<close>

section \<open>Data\<close>

record 'j api_error =
  ae_code :: string
  ae_path :: string
  ae_message :: string
  ae_expected :: 'j
  ae_actual :: 'j

record 'j result =
  rs_ok :: bool
  rs_errors :: "'j api_error list"
  rs_env :: 'j
  rs_body :: string

record 'j app_error =
  ap_code :: string
  ap_message :: string
  ap_errors :: "'j api_error list"
  ap_result :: "'j result"
  ap_config_version :: int
  ap_collection :: string
  ap_id :: string
  ap_command :: string
  ap_shard_slot :: string
  ap_correct_server :: string
  ap_base_url :: string

type_synonym 'j err = "'j app_error gerr"

definition zero_result :: "'j ojson \<Rightarrow> 'j result" where
  "zero_result J = \<lparr>rs_ok = False, rs_errors = [], rs_env = oj_zero J, rs_body = []\<rparr>"

definition code_wrong_machine :: string where "code_wrong_machine = ''wrongMachine''"
definition code_version_mismatch :: string where "code_version_mismatch = ''versionMismatch''"
definition code_document_exists :: string where "code_document_exists = ''documentExists''"

lemmas code_defs = code_wrong_machine_def code_version_mismatch_def code_document_exists_def

section \<open>Decoding\<close>

definition decode_api_error :: "'j ojson \<Rightarrow> 'j \<Rightarrow> 'j api_error" where
  "decode_api_error J item =
     \<lparr>ae_code = oj_str J (oj_get J item ''code''),
      ae_path = oj_str J (oj_get J item ''path''),
      ae_message = oj_str J (oj_get J item ''message''),
      ae_expected = oj_get J item ''expected'',
      ae_actual = oj_get J item ''actual''\<rparr>"

definition decode_result :: "'j ojson \<Rightarrow> string \<Rightarrow> 'j err + 'j result" where
  "decode_result J body =
     (case oj_read J body of
        Inl e \<Rightarrow> Inl (EWrap ''decode envelope: %w'' [] (EExt e))
      | Inr env \<Rightarrow>
          if \<not> oj_is_object J env then
            Inl (EMsg ''decode envelope: expected object, got %s'' [oj_kind J env])
          else
            (let ok = oj_get J env ''ok''; err_list = oj_get J env ''errors'' in
             Inr \<lparr>rs_ok = (if oj_is_boolean J ok then oj_bool J ok else False),
                  rs_errors = (if oj_is_array J err_list
                     then map (decode_api_error J) (filter (oj_is_object J) (oj_items J err_list))
                     else []),
                  rs_env = env,
                  rs_body = body\<rparr>))"

section \<open>Accessors\<close>

definition first_error_code :: "'j result \<Rightarrow> string" where
  "first_error_code r = (case rs_errors r of [] \<Rightarrow> [] | e # _ \<Rightarrow> ae_code e)"

definition json_value_as_string :: "'j ojson \<Rightarrow> 'j \<Rightarrow> string" where
  "json_value_as_string J v =
     (if oj_is_missing J v \<or> oj_is_null J v then []
      else if oj_is_string J v then oj_str J v
      else if oj_is_number J v then oj_json J v
      else if oj_is_boolean J v then (if oj_bool J v then ''true'' else ''false'')
      else oj_json J v)"

definition string_field :: "'j ojson \<Rightarrow> 'j result \<Rightarrow> string \<Rightarrow> string" where
  "string_field J r key = json_value_as_string J (oj_get J (rs_env r) key)"

definition value_field :: "'j ojson \<Rightarrow> 'j result \<Rightarrow> string \<Rightarrow> 'j" where
  "value_field J r key =
     (if oj_is_missing J (rs_env r) \<or> \<not> oj_is_object J (rs_env r) then oj_void J
      else oj_get J (rs_env r) key)"

definition int_field :: "'j ojson \<Rightarrow> 'j result \<Rightarrow> string \<Rightarrow> int" where
  "int_field J r key =
     (let v = oj_get J (rs_env r) key in
      if oj_is_missing J v then 0
      else (case oj_int J v of Inl _ \<Rightarrow> 0 | Inr n \<Rightarrow> n))"

definition bool_field :: "'j ojson \<Rightarrow> 'j result \<Rightarrow> string \<Rightarrow> bool" where
  "bool_field J r key =
     (let v = oj_get J (rs_env r) key in
      if oj_is_missing J v \<or> \<not> oj_is_boolean J v then False else oj_bool J v)"

section \<open>Errors\<close>

definition app_error_from_result :: "'j ojson \<Rightarrow> 'j result \<Rightarrow> 'j app_error" where
  "app_error_from_result J res =
     (let code = first_error_code res;
          message = (case rs_errors res of [] \<Rightarrow> [] | e # _ \<Rightarrow> ae_message e) in
      \<lparr>ap_code = (if code = [] then ''unknown'' else code),
       ap_message = (if code = [] then ''ok:false without error codes'' else message),
       ap_errors = rs_errors res,
       ap_result = res,
       ap_config_version = int_field J res ''configVersion'',
       ap_collection = string_field J res ''collection'',
       ap_id = string_field J res ''id'',
       ap_command = string_field J res ''command'',
       ap_shard_slot = string_field J res ''shardSlot'',
       ap_correct_server = string_field J res ''correctServer'',
       ap_base_url = string_field J res ''baseURL''\<rparr>)"

definition is_app_code :: "'j err \<Rightarrow> string \<Rightarrow> bool" where
  "is_app_code e code = (case as_app e of None \<Rightarrow> False | Some ae \<Rightarrow> ap_code ae = code)"

definition truncate_text :: "string \<Rightarrow> nat \<Rightarrow> string" where
  "truncate_text s n = (if length s \<le> n then s else take n s @ ''...'')"

text \<open>The \<open>Error\<close> methods; \<open>render\<close> is the \<open>Error\<close> method of the wrapped error.\<close>

definition app_error_text :: "'j app_error option \<Rightarrow> string" where
  "app_error_text e =
     (case e of
        None \<Rightarrow> ''datorium: nil error''
      | Some a \<Rightarrow>
          if ap_message a \<noteq> [] then ''datorium: '' @ ap_code a @ '': '' @ ap_message a
          else ''datorium: '' @ ap_code a)"

definition transport_error_text :: "('a gerr \<Rightarrow> string) \<Rightarrow> int \<Rightarrow> string \<Rightarrow> 'a gerr option \<Rightarrow> string" where
  "transport_error_text render status body inner =
     (case inner of
        Some e \<Rightarrow> ''datorium transport: '' @ render e
      | None \<Rightarrow> ''datorium transport: HTTP '' @ show_int status @ '': '' @ truncate_text body 200)"

fun join_texts :: "string \<Rightarrow> string list \<Rightarrow> string" where
  "join_texts sep [] = []"
| "join_texts sep [t] = t"
| "join_texts sep (t # u # ts) = t @ sep @ join_texts sep (u # ts)"

definition join_errors :: "('a gerr \<Rightarrow> string) \<Rightarrow> 'a gerr option list \<Rightarrow> 'a gerr option" where
  "join_errors render errs =
     (case List.map_filter (\<lambda>e. e) errs of
        [] \<Rightarrow> None
      | [e] \<Rightarrow> Some e
      | es \<Rightarrow> Some (EMsg (join_texts ''; '' (map render es)) []))"

section \<open>Lemmas\<close>

lemma decode_result_Inr:
  "decode_result J body = Inr r \<Longrightarrow>
     \<exists>env. oj_read J body = Inr env \<and> oj_is_object J env \<and> rs_env r = env \<and> rs_body r = body
       \<and> (rs_ok r \<longleftrightarrow> oj_is_boolean J (oj_get J env ''ok'') \<and> oj_bool J (oj_get J env ''ok''))"
  by (auto simp: decode_result_def Let_def split: sum.splits if_splits)

lemma app_error_code_not_empty [simp]: "ap_code (app_error_from_result J r) \<noteq> []"
  by (simp add: app_error_from_result_def Let_def)

lemma app_error_result [simp]: "ap_result (app_error_from_result J r) = r"
  by (simp add: app_error_from_result_def Let_def)

lemma app_error_code:
  "first_error_code r \<noteq> [] \<Longrightarrow> ap_code (app_error_from_result J r) = first_error_code r"
  by (simp add: app_error_from_result_def Let_def)

lemma app_error_unknown:
  "first_error_code r = [] \<Longrightarrow> ap_code (app_error_from_result J r) = ''unknown''"
  by (simp add: app_error_from_result_def Let_def)

lemma wrong_machine_iff:
  "ap_code (app_error_from_result J r) = code_wrong_machine \<longleftrightarrow> first_error_code r = code_wrong_machine"
  by (cases "first_error_code r = []") (auto simp: app_error_code app_error_unknown code_defs)

lemma is_app_code_simps [simp]:
  "is_app_code (EApp a) c \<longleftrightarrow> ap_code a = c"
  "is_app_code (EMsg f as) c \<longleftrightarrow> False"
  "is_app_code (EExt t) c \<longleftrightarrow> False"
  "is_app_code (ECatalog ms) c \<longleftrightarrow> False"
  "is_app_code (EWrap f as e) c \<longleftrightarrow> is_app_code e c"
  "is_app_code (ETransport st b None) c \<longleftrightarrow> False"
  "is_app_code (ETransport st b (Some e)) c \<longleftrightarrow> is_app_code e c"
  by (simp_all add: is_app_code_def)

lemma truncate_text_bound: "length (truncate_text s n) \<le> n + 3"
  by (simp add: truncate_text_def)

end
