(* ===== verification/Crc32.thy ===== *)
theory Crc32
  imports Prelude
begin

text \<open>
  The checksum the shard router relies on: \<open>crc32.ChecksumIEEE\<close> of the standard library,
  as its table-driven loop (\<open>simpleMakeTable\<close>, \<open>simpleUpdate\<close>), and the bit-by-bit
  definition of CRC-32 (reflected polynomial 0xEDB88320) it is proved equal to.
\<close>

unbundle bit_operations_syntax

type_synonym u32 = "32 word"

definition crc_step :: "u32 \<Rightarrow> u32" where
  "crc_step c = (if bit c 0 then drop_bit 1 c XOR 0xEDB88320 else drop_bit 1 c)"

definition crc_table :: "byte \<Rightarrow> u32" where
  "crc_table b = (crc_step ^^ 8) (ucast b)"

definition crc_update :: "u32 \<Rightarrow> byte \<Rightarrow> u32" where
  "crc_update c b = crc_table (ucast c XOR b) XOR drop_bit 8 c"

definition string_bytes :: "string \<Rightarrow> byte list" where
  "string_bytes s = map of_char s"

definition checksum_ieee :: "string \<Rightarrow> u32" where
  "checksum_ieee s = NOT (foldl crc_update (NOT 0) (string_bytes s))"

text \<open>The bitwise reference: eight shift steps for every byte.\<close>

definition crc_bits :: "u32 \<Rightarrow> byte \<Rightarrow> u32" where
  "crc_bits c b = (crc_step ^^ 8) (c XOR ucast b)"

definition crc32_spec :: "string \<Rightarrow> u32" where
  "crc32_spec s = NOT (foldl crc_bits (NOT 0) (string_bytes s))"

section \<open>The table loop computes the bitwise reference\<close>

lemma crc_step_xor: "crc_step (x XOR y) = crc_step x XOR crc_step y"
  by (auto simp: crc_step_def bit_xor_iff drop_bit_xor ac_simps)

lemma crc_steps_xor: "(crc_step ^^ n) (x XOR y) = (crc_step ^^ n) x XOR (crc_step ^^ n) y"
  by (induction n) (simp_all add: crc_step_xor)

lemma crc_steps_shift:
  "(\<And>i. i < n \<Longrightarrow> \<not> bit x i) \<Longrightarrow> (crc_step ^^ n) x = drop_bit n x"
proof (induction n)
  case (Suc n)
  then have "(crc_step ^^ n) x = drop_bit n x" by simp
  moreover have "\<not> bit (drop_bit n x) 0"
    using Suc.prems [of n] by (simp add: bit_drop_bit_eq)
  ultimately have "crc_step ((crc_step ^^ n) x) = drop_bit 1 (drop_bit n x)"
    by (simp add: crc_step_def)
  then show ?case by (simp add: drop_bit_drop_bit)
qed simp

lemma low_high_split:
  fixes c :: u32 and b :: byte
  shows "c XOR ucast b = ucast (ucast c XOR b) XOR push_bit 8 (drop_bit 8 c)"
  by (rule bit_eqI)
    (auto simp: bit_xor_iff bit_ucast_iff bit_push_bit_iff bit_drop_bit_eq
      dest: bit_imp_le_length)

lemma drop_push_drop: "drop_bit 8 (push_bit 8 (drop_bit 8 (c :: u32))) = drop_bit 8 c"
  by (rule bit_eqI) (auto simp: bit_push_bit_iff bit_drop_bit_eq dest: bit_imp_le_length)

lemma crc_update_bits: "crc_update c b = crc_bits c b"
proof -
  have "(crc_step ^^ 8) (push_bit 8 (drop_bit 8 c)) = drop_bit 8 (push_bit 8 (drop_bit 8 c))"
    by (rule crc_steps_shift) (simp add: bit_push_bit_iff)
  then show ?thesis
    unfolding crc_update_def crc_bits_def crc_table_def
    by (subst low_high_split) (simp add: crc_steps_xor drop_push_drop)
qed

lemma checksum_ieee_spec: "checksum_ieee s = crc32_spec s"
proof -
  have "crc_update = crc_bits" by (intro ext) (rule crc_update_bits)
  then show ?thesis by (simp add: checksum_ieee_def crc32_spec_def)
qed

section \<open>Evaluation of concrete checksums\<close>

lemma crc_steps8: "(crc_step ^^ 8) x =
    crc_step (crc_step (crc_step (crc_step (crc_step (crc_step (crc_step (crc_step x)))))))"
  by (simp add: numeral_eq_Suc)

lemma crc_step_num:
  "crc_step (numeral (num.Bit0 n)) = drop_bit 1 (numeral (num.Bit0 n))"
  "crc_step (numeral (num.Bit1 n)) = drop_bit 1 (numeral (num.Bit1 n)) XOR 0xEDB88320"
  "crc_step 0 = 0" "crc_step 1 = 0xEDB88320"
  by (simp_all add: crc_step_def bit_numeral_word_iff)

lemma checksum_eval: "checksum_ieee s = NOT (foldl crc_bits 0xFFFFFFFF (map of_char s))"
proof -
  have "(NOT 0 :: u32) = 0xFFFFFFFF" by simp
  then show ?thesis
    unfolding checksum_ieee_spec crc32_spec_def string_bytes_def by (simp only:)
qed

lemmas crc_eval = checksum_eval crc_bits_def crc_steps8 crc_step_num

text \<open>The check value of CRC-32/ISO-HDLC.\<close>

lemma checksum_check: "checksum_ieee ''123456789'' = 0xCBF43926"
  by (simp add: crc_eval)

end
