(* ===== verification/Shard.thy ===== *)
theory Shard
  imports Utf8 Crc32 GoErrors
begin

text \<open>
  Package shard (shard/shard.go): the sharding prefix of a document id, its slot, shard
  ranges and the coverage check of a shard map.
\<close>

section \<open>Slots\<close>

text \<open>The loop of \<open>shardingPrefix\<close> over the runes: the first period at position 6 or later.\<close>

fun late_period :: "nat \<Rightarrow> rune list \<Rightarrow> nat option" where
  "late_period i [] = None"
| "late_period i (r # rs) =
     (if r \<noteq> 0x2E then late_period (Suc i) rs
      else if i < 6 then late_period (Suc i) rs
      else Some i)"

definition sharding_prefix :: "string \<Rightarrow> string" where
  "sharding_prefix document_id =
     (let runes = runes_of document_id in
      case late_period 0 runes of
        Some i \<Rightarrow> encode_runes (take i runes)
      | None \<Rightarrow> document_id)"

definition slot :: "string \<Rightarrow> byte" where
  "slot document_id = ucast (checksum_ieee (sharding_prefix document_id))"

definition raw_slot :: "string \<Rightarrow> byte" where
  "raw_slot input = ucast (checksum_ieee input)"

definition hex2 :: "byte \<Rightarrow> string" where
  "hex2 b = hex_byte (unat b)"

definition slot_hex :: "string \<Rightarrow> string" where
  "slot_hex document_id = hex2 (slot document_id)"

definition raw_slot_hex :: "string \<Rightarrow> string" where
  "raw_slot_hex input = hex2 (raw_slot input)"

section \<open>Ranges\<close>

record range =
  rg_start :: byte
  rg_end :: byte
  rg_raw :: string

text \<open>\<open>strconv.ParseUint(s, 16, 8)\<close>.\<close>

fun parse_hex8_loop :: "nat \<Rightarrow> string \<Rightarrow> 'e gerr + nat" where
  "parse_hex8_loop n [] = Inr n"
| "parse_hex8_loop n (c # cs) =
     (case hex_val c of
        None \<Rightarrow> Inl (EExt ''invalid syntax'')
      | Some d \<Rightarrow>
          if 255 < n * 16 + d then Inl (EExt ''value out of range'')
          else parse_hex8_loop (n * 16 + d) cs)"

definition parse_hex8 :: "string \<Rightarrow> 'e gerr + nat" where
  "parse_hex8 s = (if s = [] then Inl (EExt ''invalid syntax'') else parse_hex8_loop 0 s)"

definition parse_slot :: "string \<Rightarrow> 'e gerr + byte" where
  "parse_slot s =
     (let raw = trim_space s in
      if length raw = 0 \<or> 2 < length raw then Inl (EMsg ''invalid shard slot %q'' [raw])
      else (case parse_hex8 raw of
              Inl e \<Rightarrow> Inl (EWrap ''invalid shard slot %q: %w'' [raw] e)
            | Inr v \<Rightarrow> Inr (of_nat v)))"

definition parse_range :: "string \<Rightarrow> 'e gerr + range" where
  "parse_range s =
     (let raw = trim_space s in
      if raw = [] then Inl (EMsg ''empty shard range'' [])
      else if \<not> contains_str raw ''-'' then
        (case parse_slot raw of
           Inl e \<Rightarrow> Inl e
         | Inr v \<Rightarrow> Inr \<lparr>rg_start = v, rg_end = v, rg_raw = to_upper raw\<rparr>)
      else
        (case split_on (CHR ''-'') raw of
           [p0, p1] \<Rightarrow>
             (case parse_slot p0 of
                Inl e \<Rightarrow> Inl e
              | Inr start \<Rightarrow>
                  (case parse_slot p1 of
                     Inl e \<Rightarrow> Inl e
                   | Inr fin \<Rightarrow>
                       if fin < start then
                         Inl (EMsg ''shard range start after end: %q'' [raw])
                       else Inr \<lparr>rg_start = start, rg_end = fin, rg_raw = to_upper raw\<rparr>))
         | _ \<Rightarrow> Inl (EMsg ''invalid shard range %q'' [raw])))"

definition contains :: "range \<Rightarrow> byte \<Rightarrow> bool" where
  "contains r s \<longleftrightarrow> rg_start r \<le> s \<and> s \<le> rg_end r"

section \<open>Coverage\<close>

text \<open>The inner loop marks the slots of one range, the outer one those of every range.\<close>

fun mark_slots :: "bool list \<Rightarrow> nat list \<Rightarrow> 'e gerr + bool list" where
  "mark_slots covered [] = Inr covered"
| "mark_slots covered (i # is) =
     (if covered ! i then Inl (EMsg ''overlapping shard slot %02X'' [hex_byte i])
      else mark_slots (covered[i := True]) is)"

fun mark_ranges :: "bool list \<Rightarrow> range list \<Rightarrow> 'e gerr + bool list" where
  "mark_ranges covered [] = Inr covered"
| "mark_ranges covered (r # rs) =
     (case mark_slots covered [unat (rg_start r)..<unat (rg_end r) + 1] of
        Inl e \<Rightarrow> Inl e
      | Inr covered' \<Rightarrow> mark_ranges covered' rs)"

fun first_uncovered :: "nat \<Rightarrow> bool list \<Rightarrow> nat option" where
  "first_uncovered i [] = None"
| "first_uncovered i (ok # oks) = (if \<not> ok then Some i else first_uncovered (Suc i) oks)"

definition validate_full_coverage :: "range list \<Rightarrow> 'e gerr option" where
  "validate_full_coverage ranges =
     (case mark_ranges (replicate 256 False) ranges of
        Inl e \<Rightarrow> Some e
      | Inr covered \<Rightarrow>
          (case first_uncovered 0 covered of
             Some i \<Rightarrow> Some (EMsg ''incomplete shard map: missing slot %02X'' [hex_byte i])
           | None \<Rightarrow> None))"

section \<open>The sharding prefix\<close>

text \<open>A rune list has its first late period at \<open>i\<close>.\<close>

definition late_at :: "rune list \<Rightarrow> nat \<Rightarrow> bool" where
  "late_at rs i \<longleftrightarrow> 6 \<le> i \<and> i < length rs \<and> rs ! i = 0x2E
     \<and> (\<forall>j < i. 6 \<le> j \<longrightarrow> rs ! j \<noteq> 0x2E)"

lemma ex_nat_0_Suc: "(\<exists>m :: nat. P m) \<longleftrightarrow> P 0 \<or> (\<exists>m. P (Suc m))"
  by (metis not0_implies_Suc)

lemma late_period_Some:
  "late_period k rs = Some i \<longleftrightarrow>
     (\<exists>m. i = k + m \<and> 6 \<le> k + m \<and> m < length rs \<and> rs ! m = 0x2E
        \<and> (\<forall>j < m. 6 \<le> k + j \<longrightarrow> rs ! j \<noteq> 0x2E))"
proof (induction rs arbitrary: k)
  case (Cons r rs)
  show ?case
    by (subst ex_nat_0_Suc) (auto simp: Cons.IH All_less_Suc2)
qed simp

lemma late_period_late_at: "late_period 0 rs = Some i \<longleftrightarrow> late_at rs i"
  by (simp add: late_period_Some late_at_def)

lemma late_period_None: "late_period 0 rs = None \<longleftrightarrow> (\<forall>i. \<not> late_at rs i)"
  by (metis late_period_late_at not_None_eq)

lemma sharding_prefix_late:
  "late_at (runes_of s) i \<Longrightarrow> sharding_prefix s = encode_runes (take i (runes_of s))"
  by (simp add: sharding_prefix_def late_period_late_at [symmetric])

lemma sharding_prefix_whole:
  "(\<And>i. \<not> late_at (runes_of s) i) \<Longrightarrow> sharding_prefix s = s"
  by (simp add: sharding_prefix_def late_period_None [THEN iffD2])

lemma slot_raw: "slot s = raw_slot (sharding_prefix s)"
  by (simp add: slot_def raw_slot_def)

lemma encode_take_prefix:
  "utf8_valid s \<Longrightarrow> i < length (runes_of s) \<Longrightarrow>
     s = encode_runes (take i (runes_of s)) @ encode_rune (runes_of s ! i)
           @ encode_runes (drop (Suc i) (runes_of s))"
  by (metis encode_runes_of encode_runes_simps(2,3) id_take_nth_drop)

section \<open>Printed slots and ranges\<close>

lemma hex_digit_props:
  assumes "n < 16"
  shows "byte_val (hex_digit n) < 128" "\<not> is_space (byte_val (hex_digit n))"
    "hex_digit n \<noteq> CHR ''-''" "upper_char (hex_digit n) = hex_digit n"
proof -
  have v: "byte_val (hex_digit n) = (if n < 10 then 48 + n else 55 + n)"
    using assms by (simp add: hex_digit_def)
  then show "byte_val (hex_digit n) < 128" using assms by simp
  from v show "\<not> is_space (byte_val (hex_digit n))" using assms by (auto simp: is_space_def)
  from v show "upper_char (hex_digit n) = hex_digit n" using assms by (simp add: upper_char_def)
  have "byte_val (hex_digit n) \<noteq> byte_val (CHR ''-'')" using v assms by simp
  then show "hex_digit n \<noteq> CHR ''-''" by metis
qed

lemma unat_byte_less [simp]: "unat (b :: byte) < 256"
proof -
  have "unat b < 2 ^ LENGTH(8)" by (rule unsigned_less)
  then show ?thesis by simp
qed

lemma hex2_digits:
  "hex2 b = [hex_digit (unat b div 16), hex_digit (unat b mod 16)]" "unat b div 16 < 16"
  by (simp_all add: hex2_def hex_byte_def less_mult_imp_div_less)

lemma hex2_not_Nil [simp]: "hex2 b \<noteq> []"
  by (simp add: hex2_digits)

lemma hex2_props:
  "ascii (hex2 b)" "\<forall>c \<in> set (hex2 b). \<not> is_space (byte_val c)" "CHR ''-'' \<notin> set (hex2 b)"
  "length (hex2 b) = 2" "to_upper (hex2 b) = hex2 b"
  using hex_digit_props [OF hex2_digits(2) [of b]] hex_digit_props [of "unat b mod 16"]
  by (auto simp: hex2_digits(1) to_upper_def)

lemma trim_hex2 [simp]: "trim_space (hex2 b) = hex2 b"
  by (simp add: trim_space_no_blank hex2_props)

lemma parse_hex8_hex2: "parse_hex8 (hex2 b) = Inr (unat b)"
proof -
  have "unat b div 16 * 16 + unat b mod 16 = unat b" by simp
  moreover have "unat b div 16 \<le> 255" using hex2_digits(2) [of b] by linarith
  ultimately show ?thesis
    using hex2_digits(2) [of b] unat_byte_less [of b]
    by (simp add: parse_hex8_def hex2_digits(1) not_less)
qed

lemma parse_slot_hex2 [simp]: "parse_slot (hex2 b) = Inr b"
  by (simp add: parse_slot_def Let_def hex2_props parse_hex8_hex2)

lemma index_of_char: "index_of [c] s = None \<longleftrightarrow> c \<notin> set s"
  by (induction s) auto

lemma contains_char: "contains_str s [c] \<longleftrightarrow> c \<in> set s"
  by (simp add: contains_str_def index_of_char)

lemma parse_range_single [simp]:
  "parse_range (hex2 b) = Inr \<lparr>rg_start = b, rg_end = b, rg_raw = hex2 b\<rparr>"
  by (simp add: parse_range_def contains_char hex2_props)

definition print_range :: "byte \<Rightarrow> byte \<Rightarrow> string" where
  "print_range a b = hex2 a @ CHR ''-'' # hex2 b"

lemma print_range_trim [simp]: "trim_space (print_range a b) = print_range a b"
  using hex2_props [of a] hex2_props [of b]
  by (intro trim_space_no_blank) (auto simp: print_range_def is_space_def)

lemma parse_range_print:
  "parse_range (print_range a b) =
     (if b < a then Inl (EMsg ''shard range start after end: %q'' [print_range a b])
      else Inr \<lparr>rg_start = a, rg_end = b, rg_raw = print_range a b\<rparr>)"
proof -
  have "split_on (CHR ''-'') (print_range a b) = [hex2 a, hex2 b]"
    by (simp add: print_range_def split_on_append split_on_free hex2_props)
  moreover have "to_upper (print_range a b) = print_range a b"
    using hex2_props(5) [of a] hex2_props(5) [of b]
    by (simp add: print_range_def to_upper_def upper_char_def)
  moreover have "CHR ''-'' \<in> set (print_range a b)" "print_range a b \<noteq> []"
    by (simp_all add: print_range_def)
  ultimately show ?thesis
    by (simp add: parse_range_def contains_char)
qed

text \<open>The printed bounds of a range are a codec for the ranges that are not empty.\<close>

interpretation range_text: codec "\<lambda>(a, b). print_range a b"
  "\<lambda>s. case parse_range s of Inl (e :: unit gerr) \<Rightarrow> None | Inr r \<Rightarrow> Some (rg_start r, rg_end r)"
  "\<lambda>(a, b). a \<le> b"
  by unfold_locales (auto simp: parse_range_print not_less split: prod.splits)

lemma parse_range_bounds: "parse_range s = Inr r \<Longrightarrow> rg_start r \<le> rg_end r"
  by (auto simp: parse_range_def Let_def not_less split: if_splits sum.splits list.splits)

section \<open>Coverage\<close>

definition cover_count :: "range list \<Rightarrow> nat \<Rightarrow> nat" where
  "cover_count rs i = length (filter (\<lambda>r. unat (rg_start r) \<le> i \<and> i \<le> unat (rg_end r)) rs)"

lemma cover_count_simps [simp]:
  "cover_count [] i = 0"
  "cover_count (r # rs) i =
     (if unat (rg_start r) \<le> i \<and> i \<le> unat (rg_end r) then Suc (cover_count rs i) else cover_count rs i)"
  by (auto simp: cover_count_def)

lemma mark_slots_Inr:
  "distinct is \<Longrightarrow> \<forall>i \<in> set is. i < length cov \<Longrightarrow>
     mark_slots cov is = Inr cov' \<longleftrightarrow>
       (\<forall>i \<in> set is. \<not> cov ! i) \<and> length cov' = length cov
       \<and> (\<forall>j < length cov. cov' ! j = (cov ! j \<or> j \<in> set is))"
proof (induction "is" arbitrary: cov)
  case Nil
  then show ?case by (auto simp: list_eq_iff_nth_eq)
next
  case (Cons i "is")
  note IH = Cons.IH [of "cov[i := True]"]
  have "(\<forall>j \<in> set is. \<not> cov[i := True] ! j) \<longleftrightarrow> (\<forall>j \<in> set is. \<not> cov ! j)"
    using Cons.prems by (metis distinct.simps(2) nth_list_update_neq)
  moreover have "(\<forall>j < length cov. cov' ! j = (cov[i := True] ! j \<or> j \<in> set is)) \<longleftrightarrow>
      (\<forall>j < length cov. cov' ! j = (cov ! j \<or> j \<in> set (i # is)))"
  proof -
    have "cov[i := True] ! j = (cov ! j \<or> j = i)" if "j < length cov" for j
      using that by (cases "j = i") auto
    then show ?thesis by auto
  qed
  ultimately show ?case using Cons.prems by (simp add: IH)
qed

lemma mark_ranges_ok:
  "length cov = 256 \<Longrightarrow>
     (\<exists>cov'. (mark_ranges cov rs :: 'e gerr + bool list) = Inr cov' \<and> first_uncovered k cov' = None) \<longleftrightarrow>
       (\<forall>i < 256. (if cov ! i then 1 else 0) + cover_count rs i = 1)"
proof (induction rs arbitrary: cov)
  case Nil
  have "first_uncovered k cov = None \<longleftrightarrow> (\<forall>i < length cov. cov ! i)" for k cov
    by (induction k cov rule: first_uncovered.induct) (auto simp: nth_Cons' All_less_Suc2)
  with Nil show ?case by (auto split: if_splits)
next
  case (Cons r rs)
  define slots where "slots = [unat (rg_start r)..<unat (rg_end r) + 1]"
  have d: "distinct slots" by (simp add: slots_def)
  have mem: "j \<in> set slots \<longleftrightarrow> unat (rg_start r) \<le> j \<and> j \<le> unat (rg_end r)" for j
    by (auto simp: slots_def)
  have lt: "\<forall>i \<in> set slots. i < length cov"
    using Cons.prems by (auto simp: mem intro: le_less_trans [OF _ unat_byte_less])
  have count: "cover_count (r # rs) i =
      (if i \<in> set slots then Suc (cover_count rs i) else cover_count rs i)" for i
    by (simp add: mem)
  have step: "(mark_ranges cov (r # rs) :: 'e gerr + bool list) =
      (case mark_slots cov slots of Inl e \<Rightarrow> Inl e | Inr cov' \<Rightarrow> mark_ranges cov' rs)"
    by (simp only: mark_ranges.simps slots_def)
  show ?case
  proof (cases "\<forall>i \<in> set slots. \<not> cov ! i")
    case True
    define cov' where "cov' = map (\<lambda>j. cov ! j \<or> j \<in> set slots) [0..<256]"
    have len: "length cov' = 256" by (simp add: cov'_def)
    have "(mark_slots cov slots :: 'e gerr + bool list) = Inr cov'"
      using True lt d Cons.prems by (subst mark_slots_Inr) (auto simp: cov'_def)
    moreover have "(if cov' ! i then 1 else 0) + cover_count rs i =
        (if cov ! i then 1 else 0) + cover_count (r # rs) i" if "i < 256" for i
      using True that unfolding count by (auto simp: cov'_def)
    ultimately show ?thesis
      unfolding step using Cons.IH [OF len] by (simp del: cover_count_simps)
  next
    case False
    then obtain i where i: "i \<in> set slots" "cov ! i" by auto
    have "(mark_slots cov slots :: 'e gerr + bool list) \<noteq> Inr cov'" for cov'
      using i lt d by (subst mark_slots_Inr) auto
    then obtain e where "mark_slots cov slots = (Inl e :: 'e gerr + bool list)"
      by (cases "mark_slots cov slots :: 'e gerr + bool list") auto
    then have "\<not> (\<exists>cov'. (mark_ranges cov (r # rs) :: 'e gerr + bool list) = Inr cov'
        \<and> first_uncovered k cov' = None)"
      unfolding step by simp
    moreover have "i < 256" using i lt Cons.prems by auto
    moreover have "(if cov ! i then 1 else 0) + cover_count (r # rs) i \<noteq> 1"
      using i unfolding count by simp
    ultimately show ?thesis by blast
  qed
qed

lemma cover_count_contains:
  "cover_count rs (unat s) = length (filter (\<lambda>r. contains r s) rs)"
  by (simp add: cover_count_def contains_def word_le_nat_alt)

lemma all_slots: "(\<forall>i < 256. P i) \<longleftrightarrow> (\<forall>s :: byte. P (unat s))"
proof -
  have "\<exists>s :: byte. unat s = i" if "i < 256" for i
    using that by (intro exI [of _ "of_nat i"]) (simp add: unat_of_nat)
  then show ?thesis by (metis unat_byte_less)
qed

lemma validate_cover:
  "(validate_full_coverage rs :: 'e gerr option) = None \<longleftrightarrow> (\<forall>s. length (filter (\<lambda>r. contains r s) rs) = 1)"
proof -
  let ?v = "validate_full_coverage rs :: 'e gerr option"
  have "?v = None \<longleftrightarrow>
      (\<exists>cov'. (mark_ranges (replicate 256 False) rs :: 'e gerr + bool list) = Inr cov'
         \<and> first_uncovered 0 cov' = None)"
    by (auto simp: validate_full_coverage_def split: sum.splits option.splits)
  then have "?v = None \<longleftrightarrow> (\<forall>i < 256. cover_count rs i = 1)"
    by (subst (asm) mark_ranges_ok) auto
  then show ?thesis
    by (simp only: all_slots cover_count_contains)
qed

lemma slot_of_colocated:
  assumes "list_all valid_rune p" "6 \<le> length p" "\<forall>j < length p. 6 \<le> j \<longrightarrow> p ! j \<noteq> 0x2E"
  shows "slot (encode_runes p @ CHR ''.'' # rest) = raw_slot (encode_runes p)"
proof -
  have "runes_of (encode_runes p @ CHR ''.'' # rest) = p @ 0x2E # runes_of rest"
    using assms(1) by (simp add: runes_of_def rune_chunks_encode_runes comp_def)
  moreover from this have "late_at (runes_of (encode_runes p @ CHR ''.'' # rest)) (length p)"
    using assms(2,3) by (auto simp: late_at_def nth_append)
  ultimately show ?thesis
    by (simp add: slot_raw sharding_prefix_late)
qed

section \<open>Properties\<close>

text \<open>C30: Co-location. An id that starts with at least six runes without a period at position
  six or later, followed by a period, is hashed on those runes alone: every id with this
  prefix has the slot of the prefix, whatever bytes follow the period.\<close>

theorem slot_colocation:
  assumes "list_all valid_rune p" "6 \<le> length p" "\<forall>j < length p. 6 \<le> j \<longrightarrow> p ! j \<noteq> 0x2E"
  shows "slot (encode_runes p @ CHR ''.'' # rest) = raw_slot (encode_runes p)"
  by (rule slot_of_colocated [OF assms])

theorem slot_colocation_witness: "slot ''abcdef.rest'' = raw_slot ''abcdef''"
proof -
  have "list_all valid_rune (map of_char ''abcdef'')" by (simp add: valid_rune_def)
  moreover have "encode_runes (map of_char ''abcdef'') = ''abcdef''"
    by (rule encode_runes_ascii) simp
  moreover have "\<forall>j < length (map of_char ''abcdef'' :: nat list). 6 \<le> j \<longrightarrow>
      map of_char ''abcdef'' ! j \<noteq> (0x2E :: nat)" by simp
  ultimately show ?thesis
    using slot_colocation [of "map of_char ''abcdef''" "''rest''"] by simp
qed

text \<open>On valid UTF-8 the sharding prefix is a byte prefix of the id: it is the whole id,
  which then has no period at rune position six or later, or the id continues with a period
  right after it and the prefix has at least six runes.\<close>

lemma sharding_prefix_split:
  assumes "utf8_valid s"
  shows "(sharding_prefix s = s \<and> (\<forall>i. \<not> late_at (runes_of s) i)) \<or>
    (\<exists>rest. s = sharding_prefix s @ CHR ''.'' # rest \<and> 6 \<le> length (runes_of (sharding_prefix s)))"
proof (cases "\<exists>i. late_at (runes_of s) i")
  case False
  then show ?thesis by (simp add: sharding_prefix_whole)
next
  case True
  then obtain i where i: "late_at (runes_of s) i" ..
  then have pre: "sharding_prefix s = encode_runes (take i (runes_of s))"
    by (rule sharding_prefix_late)
  have "s = sharding_prefix s @ CHR ''.'' # encode_runes (drop (Suc i) (runes_of s))"
    using encode_take_prefix [OF assms, of i] i pre by (simp add: late_at_def char_eval)
  moreover have "list_all valid_rune (take i (runes_of s)) \<Longrightarrow> 6 \<le> length (runes_of (sharding_prefix s))"
    using utf8.dec_enc [of "take i (runes_of s)"] i by (simp add: pre late_at_def)
  ultimately show ?thesis
    using valid_runes_of [OF assms] by (auto simp: list_all_iff dest: in_set_takeD)
qed

text \<open>The slot of an id is the low byte of the bit-by-bit CRC-32 (reflected polynomial
  0xEDB88320) of its sharding prefix: the table loop the code runs computes the reference.\<close>

lemma slot_bitwise_crc: "slot s = ucast (crc32_spec (sharding_prefix s))"
  by (simp add: slot_def checksum_ieee_spec)

text \<open>C13: The coverage check accepts a list of ranges exactly when every slot 00 to FF lies in
  one range and in one only; any gap and any overlap is an error.\<close>

theorem coverage_exact:
  "validate_full_coverage rs = None \<longleftrightarrow> (\<forall>s. length (filter (\<lambda>r. contains r s) rs) = 1)"
  by (rule validate_cover)

text \<open>A printed range parses back to its bounds when the first is at most the second and is
  refused otherwise; every range the parser returns has its start at most its end.\<close>

lemma range_roundtrip:
  "(a \<le> b \<longrightarrow> parse_range (print_range a b)
       = Inr \<lparr>rg_start = a, rg_end = b, rg_raw = print_range a b\<rparr>)
   \<and> (b < a \<longrightarrow> (\<exists>e. parse_range (print_range a b) = Inl e))
   \<and> (parse_range s = Inr r \<longrightarrow> rg_start r \<le> rg_end r)"
  by (auto simp: parse_range_print not_less intro: parse_range_bounds)

end
