(* ===== verification/JsonSample.thy ===== *)
theory JsonSample
  imports Json
begin

text \<open>
  One concrete value type for the ojson interface, used by the witnesses only: no definition of
  the model depends on it. The reader stays an argument, so that a witness names the documents
  its texts stand for.
\<close>

datatype js =
    JVoid
  | JNull
  | JBool bool
  | JNum int
  | JStr string
  | JArr "js list"
  | JObj "(string \<times> js) list"

fun js_get :: "js \<Rightarrow> string \<Rightarrow> js" where
  "js_get (JObj kvs) k = (case map_of kvs k of None \<Rightarrow> JVoid | Some v \<Rightarrow> v)"
| "js_get _ k = JVoid"

fun js_items :: "js \<Rightarrow> js list" where
  "js_items (JArr vs) = vs"
| "js_items _ = []"

fun js_keys :: "js \<Rightarrow> string list" where
  "js_keys (JObj kvs) = map fst kvs"
| "js_keys _ = []"

fun js_str :: "js \<Rightarrow> string" where
  "js_str (JStr s) = s"
| "js_str _ = []"

fun js_int :: "js \<Rightarrow> string + int" where
  "js_int (JNum i) = Inr i"
| "js_int _ = Inl ''not a number''"

fun js_put :: "string \<Rightarrow> js \<Rightarrow> (string \<times> js) list \<Rightarrow> (string \<times> js) list" where
  "js_put k v [] = [(k, v)]"
| "js_put k v ((k', v') # kvs) = (if k = k' then (k, v) # kvs else (k', v') # js_put k v kvs)"

fun js_set :: "js \<Rightarrow> string \<Rightarrow> js \<Rightarrow> js" where
  "js_set (JObj kvs) k v = JObj (js_put k v kvs)"
| "js_set u k v = u"

fun js_remove :: "js \<Rightarrow> string \<Rightarrow> js" where
  "js_remove (JObj kvs) k = JObj (filter (\<lambda>p. fst p \<noteq> k) kvs)"
| "js_remove u k = u"

primrec js_text :: "js \<Rightarrow> string" where
  "js_text JVoid = []"
| "js_text JNull = ''null''"
| "js_text (JBool b) = (if b then ''true'' else ''false'')"
| "js_text (JNum i) = show_int i"
| "js_text (JStr s) = json_quote s"
| "js_text (JArr vs) = CHR ''['' # join_with (CHR '','') (map js_text vs) @ '']''"
| "js_text (JObj kvs) = CHR ''{'' # join_with (CHR '','')
     (map (\<lambda>(k, t). json_quote k @ CHR '':'' # t) (map (map_prod (\<lambda>k. k) js_text) kvs)) @ ''}''"

fun js_kind :: "js \<Rightarrow> string" where
  "js_kind (JArr _) = ''array''"
| "js_kind (JStr _) = ''string''"
| "js_kind (JObj _) = ''object''"
| "js_kind _ = ''other''"

definition js_strings :: "js \<Rightarrow> string list" where
  "js_strings v = map js_str (js_items v)"

definition js_int0 :: "js \<Rightarrow> int" where
  "js_int0 v = (case js_int v of Inl _ \<Rightarrow> 0 | Inr i \<Rightarrow> i)"

definition sample_json :: "(string \<Rightarrow> string + js) \<Rightarrow> js ojson" where
  "sample_json reader =
     \<lparr>oj_zero = JVoid, oj_void = JVoid, oj_read = reader,
      oj_is_missing = (\<lambda>v. v = JVoid), oj_is_null = (\<lambda>v. v = JNull),
      oj_is_object = (\<lambda>v. case v of JObj _ \<Rightarrow> True | _ \<Rightarrow> False),
      oj_is_array = (\<lambda>v. case v of JArr _ \<Rightarrow> True | _ \<Rightarrow> False),
      oj_is_string = (\<lambda>v. case v of JStr _ \<Rightarrow> True | _ \<Rightarrow> False),
      oj_is_number = (\<lambda>v. case v of JNum _ \<Rightarrow> True | _ \<Rightarrow> False),
      oj_is_boolean = (\<lambda>v. case v of JBool _ \<Rightarrow> True | _ \<Rightarrow> False),
      oj_kind = js_kind, oj_get = js_get, oj_items = js_items, oj_keys = js_keys,
      oj_str = js_str, oj_bool = (\<lambda>v. v = JBool True), oj_int = js_int,
      oj_int_or_zero = js_int0, oj_json = js_text,
      oj_new_object = JObj [], oj_new_string = JStr, oj_new_bool = JBool,
      oj_set = js_set, oj_has_field = (\<lambda>v k. js_get v k \<noteq> JVoid), oj_remove = js_remove,
      oj_to_general = (\<lambda>v. Inr (zero_general
        \<lparr>gc_name := js_str (js_get v ''name''),
         gc_establishment_server := js_str (js_get v ''establishmentServer''),
         gc_version := js_int0 (js_get v ''version''),
         gc_max_file_bytes := js_int0 (js_get v ''maxFileBytes'')\<rparr>)),
      oj_to_server = (\<lambda>v. Inr \<lparr>se_base_url = js_str (js_get v ''baseURL'')\<rparr>),
      oj_to_assignment = (\<lambda>v. Inr \<lparr>sa_sot_member = js_str (js_get v ''SHARD_SOT_MEMBER''),
         sa_read_members = js_strings (js_get v ''SHARD_READ_MEMBER''),
         sa_proxy_members = js_strings (js_get v ''PROXY_READ_MEMBER'')\<rparr>)\<rparr>"

lemmas sample_simps [simp] =
  sample_json_def [THEN arg_cong, of oj_zero, simplified]
  sample_json_def [THEN arg_cong, of oj_void, simplified]
  sample_json_def [THEN arg_cong, of oj_read, simplified]
  sample_json_def [THEN arg_cong, of oj_is_missing, simplified]
  sample_json_def [THEN arg_cong, of oj_is_null, simplified]
  sample_json_def [THEN arg_cong, of oj_is_object, simplified]
  sample_json_def [THEN arg_cong, of oj_is_array, simplified]
  sample_json_def [THEN arg_cong, of oj_is_string, simplified]
  sample_json_def [THEN arg_cong, of oj_is_number, simplified]
  sample_json_def [THEN arg_cong, of oj_is_boolean, simplified]
  sample_json_def [THEN arg_cong, of oj_kind, simplified]
  sample_json_def [THEN arg_cong, of oj_get, simplified]
  sample_json_def [THEN arg_cong, of oj_items, simplified]
  sample_json_def [THEN arg_cong, of oj_keys, simplified]
  sample_json_def [THEN arg_cong, of oj_str, simplified]
  sample_json_def [THEN arg_cong, of oj_bool, simplified]
  sample_json_def [THEN arg_cong, of oj_int, simplified]
  sample_json_def [THEN arg_cong, of oj_int_or_zero, simplified]
  sample_json_def [THEN arg_cong, of oj_json, simplified]
  sample_json_def [THEN arg_cong, of oj_new_object, simplified]
  sample_json_def [THEN arg_cong, of oj_new_string, simplified]
  sample_json_def [THEN arg_cong, of oj_new_bool, simplified]
  sample_json_def [THEN arg_cong, of oj_set, simplified]
  sample_json_def [THEN arg_cong, of oj_has_field, simplified]
  sample_json_def [THEN arg_cong, of oj_remove, simplified]
  sample_json_def [THEN arg_cong, of oj_to_general, simplified]
  sample_json_def [THEN arg_cong, of oj_to_server, simplified]
  sample_json_def [THEN arg_cong, of oj_to_assignment, simplified]

end
