(* ===== verification/Establish.thy ===== *)
theory Establish
  imports Envelope Shard JsonSample "HOL-Library.AList" "HOL-Library.Multiset"
begin

text \<open>
  The establishment document (establish.go) and the catalog check of collection.go. A Go map is
  an association list with distinct keys; its order is the order a range loop happens to take,
  so a theorem for every list is a theorem for every iteration order.
\<close>

section \<open>Data\<close>

record 'j schema_entry =
  sc_version :: int
  sc_doc :: 'j

record 'j establishment =
  es_general :: general_config
  es_servers :: "(string \<times> server_entry) list"
  es_shard_map :: "(string \<times> shard_assignment) list"
  es_schemas :: "(string \<times> 'j schema_entry) list"
  es_searches :: 'j
  es_auth :: 'j
  es_env :: 'j

section \<open>Parsing\<close>

fun parse_servers :: "'j ojson \<Rightarrow> 'j \<Rightarrow> string list \<Rightarrow> (string \<times> server_entry) list
    \<Rightarrow> 'j err + (string \<times> server_entry) list" where
  "parse_servers J servers [] acc = Inr acc"
| "parse_servers J servers (name # names) acc =
     (case oj_to_server J (oj_get J servers name) of
        Inl e \<Rightarrow> Inl (EWrap ''parse establishment server %q: %w'' [name] (EExt e))
      | Inr se \<Rightarrow> parse_servers J servers names (AList.update name se acc))"

fun parse_shards :: "'j ojson \<Rightarrow> 'j \<Rightarrow> string list \<Rightarrow> (string \<times> shard_assignment) list
    \<Rightarrow> 'j err + (string \<times> shard_assignment) list" where
  "parse_shards J dmap [] acc = Inr acc"
| "parse_shards J dmap (raw # raws) acc =
     (case oj_to_assignment J (oj_get J dmap raw) of
        Inl e \<Rightarrow> Inl (EWrap ''parse establishment shard %q: %w'' [raw] (EExt e))
      | Inr a \<Rightarrow> parse_shards J dmap raws (AList.update raw a acc))"

fun parse_schemas :: "'j ojson \<Rightarrow> 'j \<Rightarrow> string list \<Rightarrow> (string \<times> 'j schema_entry) list
    \<Rightarrow> (string \<times> 'j schema_entry) list" where
  "parse_schemas J schemas [] acc = acc"
| "parse_schemas J schemas (name # names) acc =
     (let entry = oj_get J schemas name in
      parse_schemas J schemas names
        (AList.update name \<lparr>sc_version = oj_int_or_zero J (oj_get J entry ''version''),
                          sc_doc = oj_get J entry ''schema''\<rparr> acc))"

fun parse_ranges :: "string list \<Rightarrow> 'j err + range list" where
  "parse_ranges [] = Inr []"
| "parse_ranges (raw # raws) =
     (case parse_range raw of
        Inl e \<Rightarrow> Inl (EWrap ''establishment shard range %q: %w'' [raw] e)
      | Inr r \<Rightarrow> (case parse_ranges raws of Inl e \<Rightarrow> Inl e | Inr rs \<Rightarrow> Inr (r # rs)))"

definition check_shard_map :: "(string \<times> shard_assignment) list \<Rightarrow> 'j err option" where
  "check_shard_map shard_map =
     (case parse_ranges (map fst shard_map) of
        Inl e \<Rightarrow> Some e
      | Inr ranges \<Rightarrow>
          if ranges = [] then None
          else (case validate_full_coverage ranges of
                  Some e \<Rightarrow> Some (EWrap ''establishment shard map: %w'' [] e)
                | None \<Rightarrow> None))"

definition envelope_of :: "'j ojson \<Rightarrow> 'j result \<Rightarrow> 'j err + 'j" where
  "envelope_of J res =
     (if oj_is_missing J (rs_env res) \<and> 0 < length (rs_body res) then
        (case oj_read J (rs_body res) of
           Inl e \<Rightarrow> Inl (EWrap ''parse establishment: %w'' [] (EExt e))
         | Inr env \<Rightarrow> Inr env)
      else Inr (rs_env res))"

definition parse_general :: "'j ojson \<Rightarrow> 'j \<Rightarrow> 'j err + general_config" where
  "parse_general J env =
     (let general = oj_get J env ''general'' in
      if oj_is_object J general then
        (case oj_to_general J general of
           Inl e \<Rightarrow> Inl (EWrap ''parse establishment general: %w'' [] (EExt e))
         | Inr g \<Rightarrow> Inr g)
      else Inr zero_general)"

definition parse_establishment :: "'j ojson \<Rightarrow> 'j result \<Rightarrow> 'j err + 'j establishment" where
  "parse_establishment J res =
     (if \<not> rs_ok res then Inl (EApp (app_error_from_result J res))
      else (case envelope_of J res of
        Inl e \<Rightarrow> Inl e
      | Inr env \<Rightarrow>
          if \<not> oj_is_object J env then
            Inl (EMsg ''parse establishment: expected object envelope'' [])
          else (case parse_general J env of
            Inl e \<Rightarrow> Inl e
          | Inr g \<Rightarrow>
              (let servers = oj_get J env ''servers'' in
               case (if oj_is_object J servers
                     then parse_servers J servers (oj_keys J servers) [] else Inr []) of
                 Inl e \<Rightarrow> Inl e
               | Inr svs \<Rightarrow>
                   (let shard_map = oj_get J env ''shardMap'';
                        default_map = oj_get J shard_map ''default'' in
                    case (if oj_is_object J shard_map \<and> oj_is_object J default_map
                          then parse_shards J default_map (oj_keys J default_map) [] else Inr []) of
                      Inl e \<Rightarrow> Inl e
                    | Inr shs \<Rightarrow>
                        (let schemas = oj_get J env ''schemas'';
                             scs = (if oj_is_object J schemas
                                    then parse_schemas J schemas (oj_keys J schemas) [] else []) in
                         case check_shard_map shs of
                           Some e \<Rightarrow> Inl e
                         | None \<Rightarrow>
                             Inr \<lparr>es_general = g, es_servers = svs, es_shard_map = shs,
                                  es_schemas = scs, es_searches = oj_get J env ''searches'',
                                  es_auth = oj_get J env ''auth'', es_env = env\<rparr>))))))"

section \<open>Lookups\<close>

text \<open>The receiver of the two methods may be nil, hence the option.\<close>

fun find_assignment :: "(string \<times> shard_assignment) list \<Rightarrow> byte \<Rightarrow> shard_assignment option" where
  "find_assignment [] s = None"
| "find_assignment ((raw, a) # rest) s =
     (case (parse_range raw :: unit gerr + range) of
        Inl _ \<Rightarrow> find_assignment rest s
      | Inr r \<Rightarrow> if contains r s then Some a else find_assignment rest s)"

definition assignment_for_slot :: "'j establishment option \<Rightarrow> byte \<Rightarrow> shard_assignment option" where
  "assignment_for_slot e s =
     (case e of None \<Rightarrow> None | Some est \<Rightarrow> find_assignment (es_shard_map est) s)"

definition server_base_url :: "'j establishment option \<Rightarrow> string \<Rightarrow> string" where
  "server_base_url e name =
     (case e of
        None \<Rightarrow> []
      | Some est \<Rightarrow>
          (case map_of (es_servers est) name of None \<Rightarrow> [] | Some se \<Rightarrow> se_base_url se))"

section \<open>The catalog\<close>

record collection_ref =
  cr_name :: string
  cr_version :: int

definition col_mismatch :: "'j establishment \<Rightarrow> collection_ref \<Rightarrow> catalog_mismatch option" where
  "col_mismatch est col =
     (case map_of (es_schemas est) (cr_name col) of
        None \<Rightarrow> Some \<lparr>cm_collection = cr_name col, cm_code = CatalogCollectionNotFound,
                     cm_expected = cr_version col, cm_actual = -1\<rparr>
      | Some entry \<Rightarrow>
          if sc_version entry \<noteq> cr_version col then
            Some \<lparr>cm_collection = cr_name col, cm_code = CatalogSchemaVersionMismatch,
                  cm_expected = cr_version col, cm_actual = sc_version entry\<rparr>
          else None)"

fun catalog_mismatches :: "'j establishment \<Rightarrow> collection_ref option list \<Rightarrow> catalog_mismatch list" where
  "catalog_mismatches est [] = []"
| "catalog_mismatches est (None # cols) = catalog_mismatches est cols"
| "catalog_mismatches est (Some col # cols) =
     (case col_mismatch est col of
        None \<Rightarrow> catalog_mismatches est cols
      | Some m \<Rightarrow> m # catalog_mismatches est cols)"

definition validate_catalog :: "'j establishment option \<Rightarrow> collection_ref option list \<Rightarrow> 'j err option" where
  "validate_catalog e cols =
     (if cols = [] then None
      else (case e of
              None \<Rightarrow> Some (EMsg ''datorium: establishment is nil'' [])
            | Some est \<Rightarrow>
                (let mismatches = catalog_mismatches est cols in
                 if mismatches = [] then None else Some (ECatalog mismatches))))"

definition mismatch_text :: "catalog_mismatch \<Rightarrow> string" where
  "mismatch_text m =
     (case cm_code m of
        CatalogCollectionNotFound \<Rightarrow>
          cm_collection m @ '': collection not found (expected schema version ''
            @ show_int (cm_expected m) @ '')''
      | CatalogSchemaVersionMismatch \<Rightarrow>
          cm_collection m @ '': schema version mismatch (expected '' @ show_int (cm_expected m)
            @ '', got '' @ show_int (cm_actual m) @ '')''
      | CatalogOther code \<Rightarrow> cm_collection m @ '': '' @ code)"

definition catalog_error_text :: "catalog_mismatch list option \<Rightarrow> string" where
  "catalog_error_text e =
     (case e of
        None \<Rightarrow> ''datorium: catalog mismatch''
      | Some ms \<Rightarrow>
          if ms = [] then ''datorium: catalog mismatch''
          else ''datorium: catalog mismatch: '' @ join_texts ''; '' (map mismatch_text ms))"

section \<open>Shard maps as directories\<close>

text \<open>
  What routing relies on: a lookup finds an entry that covers the slot, misses only when none
  does, and in a full directory exactly one value covers each slot. The lemmas are proved for
  any such directory; the shard map of an establishment document is one.
\<close>

locale slot_directory =
  fixes lookup :: "'m \<Rightarrow> byte \<Rightarrow> 'a option"
    and entry :: "'m \<Rightarrow> byte \<Rightarrow> 'a \<Rightarrow> bool"
    and full :: "'m \<Rightarrow> bool"
  assumes lookup_found: "lookup m s = Some a \<Longrightarrow> entry m s a"
    and lookup_missed: "lookup m s = None \<Longrightarrow> \<not> entry m s a"
    and full_covers: "full m \<Longrightarrow> \<exists>a. entry m s a"
    and full_unique: "full m \<Longrightarrow> entry m s a \<Longrightarrow> entry m s b \<Longrightarrow> a = b"
begin

lemma lookup_total: "full m \<Longrightarrow> \<exists>a. lookup m s = Some a"
  using full_covers [of m s] lookup_missed [of m s] by (cases "lookup m s") auto

lemma lookup_iff: "full m \<Longrightarrow> lookup m s = Some a \<longleftrightarrow> entry m s a"
  using lookup_total [of m s] lookup_found [of m s] full_unique [of m s] by auto

lemma lookup_same: "full m \<Longrightarrow> full n \<Longrightarrow> (\<And>a. entry m s a \<longleftrightarrow> entry n s a) \<Longrightarrow> lookup m s = lookup n s"
  using lookup_total [of m s] lookup_iff [of m s] lookup_iff [of n s] by (metis option.exhaust)

end

definition range_of :: "string \<Rightarrow> range option" where
  "range_of raw = (case (parse_range raw :: unit gerr + range) of Inl _ \<Rightarrow> None | Inr r \<Rightarrow> Some r)"

definition raw_covers :: "string \<Rightarrow> byte \<Rightarrow> bool" where
  "raw_covers raw s = (case range_of raw of None \<Rightarrow> False | Some r \<Rightarrow> contains r s)"

definition shard_entry :: "(string \<times> shard_assignment) list \<Rightarrow> byte \<Rightarrow> shard_assignment \<Rightarrow> bool" where
  "shard_entry m s a \<longleftrightarrow> (\<exists>raw. (raw, a) \<in> set m \<and> raw_covers raw s)"

definition shard_full :: "(string \<times> shard_assignment) list \<Rightarrow> bool" where
  "shard_full m \<longleftrightarrow> (\<forall>s. length (filter (\<lambda>(raw, a). raw_covers raw s) m) = 1)"

lemma parse_hex8_range: "parse_hex8 s = (Inr v :: 'a gerr + nat) \<Longrightarrow> parse_hex8 s = (Inr v :: 'b gerr + nat)"
proof -
  have "parse_hex8_loop n s = (Inr v :: 'a gerr + nat) \<Longrightarrow> parse_hex8_loop n s = (Inr v :: 'b gerr + nat)" for n
    by (induction s arbitrary: n) (auto split: option.splits if_splits)
  then show "parse_hex8 s = (Inr v :: 'a gerr + nat) \<Longrightarrow> parse_hex8 s = (Inr v :: 'b gerr + nat)"
    by (auto simp: parse_hex8_def split: if_splits)
qed

definition slot_of :: "string \<Rightarrow> byte option" where
  "slot_of s = (case (parse_slot s :: unit gerr + byte) of Inl _ \<Rightarrow> None | Inr v \<Rightarrow> Some v)"

lemma parse_slot_poly: "parse_slot s = (Inr v :: 'a gerr + byte) \<Longrightarrow> parse_slot s = (Inr v :: 'b gerr + byte)"
  by (auto simp: parse_slot_def Let_def dest: parse_hex8_range [where 'b = 'b] split: sum.splits if_splits)

lemma slot_of_Some: "parse_slot s = (Inr v :: 'e gerr + byte) \<longleftrightarrow> slot_of s = Some v"
  using parse_slot_poly [of s v, where 'a = 'e and 'b = unit]
    parse_slot_poly [of s v, where 'a = unit and 'b = 'e]
  by (auto simp: slot_of_def split: sum.splits)

lemma slot_of_None: "(\<exists>e. parse_slot s = (Inl e :: 'e gerr + byte)) \<longleftrightarrow> slot_of s = None"
proof (cases "parse_slot s :: 'e gerr + byte")
  case (Inl e)
  then show ?thesis using slot_of_Some [of s, where 'e = 'e] by (cases "slot_of s") auto
next
  case (Inr v)
  then show ?thesis using slot_of_Some [of s v, where 'e = 'e] by simp
qed

lemma parse_slot_cases:
  obtains (bad) e where "parse_slot s = (Inl e :: 'e gerr + byte)" "slot_of s = None"
  | (good) v where "parse_slot s = (Inr v :: 'e gerr + byte)" "slot_of s = Some v"
  using slot_of_None [of s, where 'e = 'e] slot_of_Some [of s, where 'e = 'e]
  by (cases "parse_slot s :: 'e gerr + byte") auto

text \<open>The ranges that parse, without the error texts.\<close>

definition range_shape :: "string \<Rightarrow> range option" where
  "range_shape s =
     (let raw = trim_space s in
      if raw = [] then None
      else if \<not> contains_str raw ''-'' then
        map_option (\<lambda>v. \<lparr>rg_start = v, rg_end = v, rg_raw = to_upper raw\<rparr>) (slot_of raw)
      else (case split_on (CHR ''-'') raw of
          [p0, p1] \<Rightarrow> (case (slot_of p0, slot_of p1) of
              (Some a, Some b) \<Rightarrow>
                if b < a then None else Some \<lparr>rg_start = a, rg_end = b, rg_raw = to_upper raw\<rparr>
            | _ \<Rightarrow> None)
        | _ \<Rightarrow> None))"

lemma parse_range_shape: "parse_range s = (Inr r :: 'e gerr + range) \<longleftrightarrow> range_shape s = Some r"
proof -
  define raw where "raw = trim_space s"
  consider "raw = []" | "raw \<noteq> []" "\<not> contains_str raw ''-''"
    | p0 p1 where "raw \<noteq> []" "contains_str raw ''-''" "split_on (CHR ''-'') raw = [p0, p1]"
    | "raw \<noteq> []" "contains_str raw ''-''" "\<forall>p0 p1. split_on (CHR ''-'') raw \<noteq> [p0, p1]"
    by blast
  then show ?thesis
  proof cases
    case 2
    then show ?thesis
      by (cases raw rule: parse_slot_cases [where 'e = 'e])
        (simp_all add: parse_range_def range_shape_def raw_def)
  next
    case 3
    then show ?thesis
      by (cases p0 rule: parse_slot_cases [where 'e = 'e]; cases p1 rule: parse_slot_cases [where 'e = 'e])
        (simp_all add: parse_range_def range_shape_def raw_def Let_def)
  qed (auto simp: parse_range_def range_shape_def raw_def Let_def split: list.splits)
qed

lemma range_of_shape: "range_of raw = range_shape raw"
proof (cases "parse_range raw :: unit gerr + range")
  case (Inl e)
  then have "range_shape raw \<noteq> Some r" for r
    using parse_range_shape [of raw r, where 'e = unit] by simp
  then have "range_shape raw = None" by (metis option.exhaust)
  then show ?thesis by (simp add: range_of_def Inl)
next
  case (Inr r)
  then show ?thesis using parse_range_shape [of raw r, where 'e = unit] by (simp add: range_of_def)
qed

lemma range_of_Some: "range_of raw = Some r \<longleftrightarrow> parse_range raw = (Inr r :: 'e gerr + range)"
  by (simp add: range_of_shape parse_range_shape)

lemma range_of_None: "range_of raw = None \<Longrightarrow> \<exists>e. parse_range raw = (Inl e :: 'e gerr + range)"
  using range_of_Some [of raw, where 'e = 'e] by (cases "parse_range raw :: 'e gerr + range") auto

lemma find_assignment_step:
  "find_assignment ((raw, a) # rest) s = (if raw_covers raw s then Some a else find_assignment rest s)"
  by (auto simp: raw_covers_def range_of_def split: sum.splits)

declare find_assignment.simps(2) [simp del]

lemma find_assignment_found: "find_assignment m s = Some a \<Longrightarrow> shard_entry m s a"
  by (induction m) (auto simp: find_assignment_step shard_entry_def split: if_splits)

lemma find_assignment_missed: "find_assignment m s = None \<Longrightarrow> \<not> shard_entry m s a"
  by (induction m) (auto simp: find_assignment_step shard_entry_def split: if_splits)

lemma filter_one_unique:
  "length (filter P xs) = 1 \<Longrightarrow> x \<in> set xs \<Longrightarrow> P x \<Longrightarrow> y \<in> set xs \<Longrightarrow> P y \<Longrightarrow> x = y"
proof -
  assume one: "length (filter P xs) = 1" and "x \<in> set xs" "P x" "y \<in> set xs" "P y"
  then obtain z where "filter P xs = [z]" by (auto simp: length_Suc_conv)
  moreover have "x \<in> set (filter P xs)" "y \<in> set (filter P xs)" by (simp_all add: \<open>x \<in> set xs\<close> \<open>P x\<close> \<open>y \<in> set xs\<close> \<open>P y\<close>)
  ultimately show "x = y" by simp
qed

interpretation shards: slot_directory find_assignment shard_entry shard_full
proof unfold_locales
  fix m s a
  assume full: "shard_full m"
  then have one: "length (filter (\<lambda>(raw, a). raw_covers raw s) m) = 1"
    by (simp add: shard_full_def)
  then have "filter (\<lambda>(raw, a). raw_covers raw s) m \<noteq> []" by auto
  then show "\<exists>a. shard_entry m s a"
    by (auto simp: shard_entry_def filter_empty_conv)
  fix b
  assume "shard_entry m s a" "shard_entry m s b"
  then show "a = b"
    using filter_one_unique [OF one] by (auto simp: shard_entry_def)
qed (fact find_assignment_found find_assignment_missed)+

section \<open>Accepted shard maps\<close>

lemma parse_ranges_Inr:
  "parse_ranges raws = (Inr rs :: 'j err + range list) \<longleftrightarrow> map range_of raws = map Some rs"
proof (induction raws arbitrary: rs)
  case (Cons raw raws)
  show ?case
  proof (cases "parse_range raw :: 'j err + range")
    case (Inl e)
    then have "range_of raw \<noteq> Some r" for r
      using range_of_Some [where 'e = "'j app_error", of raw r] by simp
    with Inl show ?thesis by (cases rs) auto
  next
    case (Inr r)
    then have "range_of raw = Some r"
      using range_of_Some [where 'e = "'j app_error", of raw r] by simp
    show ?thesis
    proof (cases "parse_ranges raws :: 'j err + range list")
      case (Inl e)
      then have "map range_of raws \<noteq> map Some qs" for qs using Cons.IH by simp
      with Inl \<open>range_of raw = Some r\<close> Inr show ?thesis by (cases rs) auto
    next
      case (Inr qs)
      then have "map range_of raws = map Some qs" using Cons.IH by simp
      with Inr \<open>range_of raw = Some r\<close> \<open>parse_range raw = Inr r\<close> show ?thesis
        by (cases rs) auto
    qed
  qed
qed auto

lemma covered_entries:
  "map range_of (map fst m) = map Some rs \<Longrightarrow>
     length (filter (\<lambda>r. contains r s) rs) = length (filter (\<lambda>(raw, a). raw_covers raw s) m)"
  by (induction m arbitrary: rs) (auto simp: raw_covers_def)

text \<open>The check accepts the empty map and the maps whose keys all parse and that are full.\<close>

lemma check_shard_map_None:
  "check_shard_map m = (None :: 'j err option) \<longleftrightarrow> m = [] \<or> (\<forall>(raw, a) \<in> set m. range_of raw \<noteq> None) \<and> shard_full m"
proof (cases "parse_ranges (map fst m) :: 'j err + range list")
  case (Inl e)
  have "\<not> (\<forall>(raw, a) \<in> set m. range_of raw \<noteq> None)"
  proof
    assume "\<forall>(raw, a) \<in> set m. range_of raw \<noteq> None"
    then have "map range_of (map fst m) = map Some (map (the \<circ> range_of \<circ> fst) m)"
      by (auto simp: comp_def)
    with Inl show False by (metis parse_ranges_Inr Inl_Inr_False)
  qed
  moreover have "m \<noteq> []" using Inl by auto
  ultimately show ?thesis using Inl by (auto simp: check_shard_map_def)
next
  case (Inr rs)
  then have rs: "map range_of (map fst m) = map Some rs" by (simp add: parse_ranges_Inr)
  then have "\<forall>raw \<in> set (map fst m). range_of raw \<noteq> None"
    by (metis (no_types, lifting) ex_map_conv image_eqI list.set_map option.distinct(1) in_set_conv_nth length_map nth_map)
  moreover have "rs = [] \<longleftrightarrow> m = []" using rs by (metis list.map_disc_iff)
  moreover have "(validate_full_coverage rs :: 'j err option) = None \<longleftrightarrow> shard_full m"
    unfolding validate_cover shard_full_def using covered_entries [OF rs] by simp
  ultimately show ?thesis
    using Inr by (auto simp: check_shard_map_def split: option.splits)
qed

lemma parse_shards_distinct:
  "parse_shards J d raws acc = Inr m \<Longrightarrow> distinct (map fst acc) \<Longrightarrow> distinct (map fst m)"
  by (induction J d raws acc rule: parse_shards.induct) (auto simp: distinct_update split: sum.splits)

lemma parse_servers_distinct:
  "parse_servers J d names acc = Inr m \<Longrightarrow> distinct (map fst acc) \<Longrightarrow> distinct (map fst m)"
  by (induction J d names acc rule: parse_servers.induct) (auto simp: distinct_update split: sum.splits)

lemma parse_schemas_distinct:
  "distinct (map fst acc) \<Longrightarrow> distinct (map fst (parse_schemas J d names acc))"
  by (induction J d names acc rule: parse_schemas.induct) (auto simp: distinct_update Let_def)

text \<open>The invariant of an establishment document the parser returned.\<close>

definition shard_map_ok :: "(string \<times> shard_assignment) list \<Rightarrow> bool" where
  "shard_map_ok m \<longleftrightarrow> distinct (map fst m)
     \<and> (m = [] \<or> (\<forall>(raw, a) \<in> set m. range_of raw \<noteq> None) \<and> shard_full m)"

definition establishment_ok :: "'j establishment \<Rightarrow> bool" where
  "establishment_ok est \<longleftrightarrow> distinct (map fst (es_servers est)) \<and> distinct (map fst (es_schemas est))
     \<and> shard_map_ok (es_shard_map est)"

text \<open>What a successful parse has gone through, in the order of the code.\<close>

lemma parse_establishment_Inr:
  fixes J :: "'j ojson"
  assumes pe: "parse_establishment J res = Inr est"
  obtains env where "rs_ok res" "envelope_of J res = Inr env" "oj_is_object J env" "es_env est = env"
    "parse_general J env = Inr (es_general est)"
    "(if oj_is_object J (oj_get J env ''servers'')
      then parse_servers J (oj_get J env ''servers'') (oj_keys J (oj_get J env ''servers'')) []
      else Inr []) = Inr (es_servers est)"
    "(if oj_is_object J (oj_get J env ''shardMap'')
         \<and> oj_is_object J (oj_get J (oj_get J env ''shardMap'') ''default'')
      then parse_shards J (oj_get J (oj_get J env ''shardMap'') ''default'')
        (oj_keys J (oj_get J (oj_get J env ''shardMap'') ''default'')) []
      else Inr []) = Inr (es_shard_map est)"
    "es_schemas est = (if oj_is_object J (oj_get J env ''schemas'')
       then parse_schemas J (oj_get J env ''schemas'') (oj_keys J (oj_get J env ''schemas'')) [] else [])"
    "check_shard_map (es_shard_map est) = (None :: 'j err option)"
proof -
  note pe = pe [unfolded parse_establishment_def Let_def]
  have ok: "rs_ok res" using pe by (rule contrapos_pp) simp
  obtain env where env: "envelope_of J res = Inr env"
    using pe ok by (cases "envelope_of J res") simp_all
  have obj: "oj_is_object J env" using pe ok env by (cases "oj_is_object J env") simp_all
  obtain g where g: "parse_general J env = Inr g"
    using pe ok env obj by (cases "parse_general J env") simp_all
  let ?sv = "if oj_is_object J (oj_get J env ''servers'')
      then parse_servers J (oj_get J env ''servers'') (oj_keys J (oj_get J env ''servers'')) []
      else Inr []"
  note pe = pe [simplified ok env obj g if_True sum.case not_True_eq_False if_False]
  obtain svs where sv: "?sv = Inr svs" using pe by (cases ?sv) simp_all
  let ?d = "oj_get J (oj_get J env ''shardMap'') ''default''"
  let ?sh = "if oj_is_object J (oj_get J env ''shardMap'') \<and> oj_is_object J ?d
      then parse_shards J ?d (oj_keys J ?d) [] else Inr []"
  note pe = pe [unfolded sv sum.case]
  obtain shs where sh: "?sh = Inr shs" using pe by (cases ?sh) simp_all
  note pe = pe [unfolded sh sum.case]
  have ck: "check_shard_map shs = (None :: 'j err option)"
    using pe by (cases "check_shard_map shs :: 'j err option") simp_all
  note est = pe [unfolded ck option.case sum.inject, symmetric]
  show thesis
    by (rule that [OF ok env obj]) (simp_all only: est establishment.select_convs g sv sh ck)
qed

lemma parse_establishment_ok:
  fixes J :: "'j ojson"
  assumes "parse_establishment J res = Inr est"
  shows "establishment_ok est"
proof -
  obtain env where sv: "(if oj_is_object J (oj_get J env ''servers'')
      then parse_servers J (oj_get J env ''servers'') (oj_keys J (oj_get J env ''servers'')) []
      else Inr []) = Inr (es_servers est)"
    and sh: "(if oj_is_object J (oj_get J env ''shardMap'')
         \<and> oj_is_object J (oj_get J (oj_get J env ''shardMap'') ''default'')
      then parse_shards J (oj_get J (oj_get J env ''shardMap'') ''default'')
        (oj_keys J (oj_get J (oj_get J env ''shardMap'') ''default'')) []
      else Inr []) = Inr (es_shard_map est)"
    and sc: "es_schemas est = (if oj_is_object J (oj_get J env ''schemas'')
       then parse_schemas J (oj_get J env ''schemas'') (oj_keys J (oj_get J env ''schemas'')) [] else [])"
    and ck: "check_shard_map (es_shard_map est) = (None :: 'j err option)"
    by (rule parse_establishment_Inr [OF assms]) blast
  from sv have "distinct (map fst (es_servers est))"
    by (auto split: if_split_asm dest: parse_servers_distinct)
  moreover from sh have "distinct (map fst (es_shard_map est))"
    by (auto split: if_split_asm dest: parse_shards_distinct)
  moreover from sc have "distinct (map fst (es_schemas est))" by (auto simp: parse_schemas_distinct)
  ultimately show "establishment_ok est"
    using ck by (auto simp: establishment_ok_def shard_map_ok_def check_shard_map_None)
qed

lemma length_filter_mset: "mset m = mset n \<Longrightarrow> length (filter P m) = length (filter P n)"
  by (metis mset_filter size_mset)

lemma shard_full_mset: "mset m = mset n \<Longrightarrow> shard_full m \<Longrightarrow> shard_full n"
  unfolding shard_full_def by (metis length_filter_mset)

lemma find_assignment_order:
  assumes "shard_map_ok m" "mset n = mset m"
  shows "find_assignment n s = find_assignment m s"
proof (cases "m = []")
  case False
  then have full: "shard_full m" using assms(1) by (simp add: shard_map_ok_def)
  have "set n = set m" using assms(2) by (metis set_mset_mset)
  then show ?thesis
    by (intro shards.lookup_same) (use full shard_full_mset [of m n] assms(2) in \<open>auto simp: shard_entry_def\<close>)
qed (use assms(2) in simp)

lemma assignment_total:
  assumes "establishment_ok est" "es_shard_map est \<noteq> []"
  shows "\<exists>a. assignment_for_slot (Some est) s = Some a"
proof -
  have "shard_full (es_shard_map est)" using assms by (simp add: establishment_ok_def shard_map_ok_def)
  then show ?thesis by (simp add: assignment_for_slot_def shards.lookup_total)
qed

section \<open>The catalog check\<close>

lemma catalog_mismatches_filter:
  "catalog_mismatches est cols = List.map_filter (col_mismatch est) (List.map_filter (\<lambda>c. c) cols)"
  by (induction est cols rule: catalog_mismatches.induct)
    (auto simp: List.map_filter_simps split: option.splits)

lemma col_mismatch_None:
  "col_mismatch est col = None \<longleftrightarrow> map_option sc_version (map_of (es_schemas est) (cr_name col)) = Some (cr_version col)"
  by (auto simp: col_mismatch_def split: option.splits if_splits)

lemma catalog_mismatches_Nil:
  "catalog_mismatches est cols = [] \<longleftrightarrow> (\<forall>col. Some col \<in> set cols \<longrightarrow> col_mismatch est col = None)"
  by (induction est cols rule: catalog_mismatches.induct) (auto split: option.splits)

section \<open>Properties\<close>

text \<open>C7: Routing is total and deterministic. In a parsed establishment document whose shard map
  is not empty every slot has an assignment, it is the value of the one entry whose range covers
  the slot, and it does not depend on the order in which the map is iterated.\<close>

theorem assignment_deterministic:
  assumes "parse_establishment J res = Inr est" "es_shard_map est \<noteq> []"
  shows "\<exists>a. assignment_for_slot (Some est) s = Some a
    \<and> (\<forall>raw b r. (raw, b) \<in> set (es_shard_map est) \<and> parse_range raw = (Inr r :: 'e gerr + range)
         \<and> contains r s \<longrightarrow> b = a)
    \<and> (\<forall>m. mset m = mset (es_shard_map est) \<longrightarrow>
         assignment_for_slot (Some (est\<lparr>es_shard_map := m\<rparr>)) s = Some a)"
proof -
  have ok: "shard_map_ok (es_shard_map est)"
    using parse_establishment_ok [OF assms(1)] by (simp add: establishment_ok_def)
  then have full: "shard_full (es_shard_map est)" using assms(2) by (simp add: shard_map_ok_def)
  then obtain a where a: "find_assignment (es_shard_map est) s = Some a"
    using shards.lookup_total by blast
  have "b = a" if "(raw, b) \<in> set (es_shard_map est)" "parse_range raw = (Inr r :: 'e gerr + range)"
    "contains r s" for raw b r
  proof -
    have "range_of raw = Some r" using that(2) range_of_Some [where 'e = 'e] by blast
    then have "shard_entry (es_shard_map est) s b"
      using that by (auto simp: shard_entry_def raw_covers_def)
    then show ?thesis using shards.full_unique [OF full _ find_assignment_found [OF a]] by simp
  qed
  moreover have "assignment_for_slot (Some (est\<lparr>es_shard_map := m\<rparr>)) s = Some a"
    if "mset m = mset (es_shard_map est)" for m
    using a find_assignment_order [OF ok that] by (simp add: assignment_for_slot_def)
  moreover have "assignment_for_slot (Some est) s = Some a"
    using a by (simp add: assignment_for_slot_def)
  ultimately show ?thesis by blast
qed

definition sample_member :: "string \<Rightarrow> js" where
  "sample_member name = JObj [(''SHARD_SOT_MEMBER'', JStr name), (''SHARD_READ_MEMBER'', JArr [JStr name])]"

definition sample_env :: js where
  "sample_env = JObj [(''ok'', JBool True), (''shardMap'', JObj [(''default'',
     JObj [(''00-7F'', sample_member ''a''), (''80-FF'', sample_member ''b'')])]),
     (''schemas'', JObj [(''Todos'', JObj [(''version'', JNum 2)])]),
     (''servers'', JObj [(''a'', JObj [(''baseURL'', JStr ''http://a'')]), (''b'', JObj [(''baseURL'', JStr ''http://b/'')])])]"

definition sample_result :: "js result" where
  "sample_result = \<lparr>rs_ok = True, rs_errors = [], rs_env = sample_env, rs_body = []\<rparr>"

definition sample_assignment :: "string \<Rightarrow> shard_assignment" where
  "sample_assignment name = \<lparr>sa_sot_member = name, sa_read_members = [name], sa_proxy_members = []\<rparr>"

definition sample_est :: "js establishment" where
  "sample_est = \<lparr>es_general = zero_general,
     es_servers = [(''a'', \<lparr>se_base_url = ''http://a''\<rparr>), (''b'', \<lparr>se_base_url = ''http://b/''\<rparr>)],
     es_shard_map = [(''00-7F'', sample_assignment ''a''), (''80-FF'', sample_assignment ''b'')],
     es_schemas = [(''Todos'', \<lparr>sc_version = 2, sc_doc = JVoid\<rparr>)],
     es_searches = JVoid, es_auth = JVoid, es_env = sample_env\<rparr>"

lemma sample_ranges:
  "parse_range ''00-7F'' = Inr \<lparr>rg_start = 0, rg_end = 0x7F, rg_raw = ''00-7F''\<rparr>"
  "parse_range ''80-FF'' = Inr \<lparr>rg_start = 0x80, rg_end = 0xFF, rg_raw = ''80-FF''\<rparr>"
proof -
  have "print_range 0 0x7F = ''00-7F''" "print_range 0x80 0xFF = ''80-FF''"
    by (simp_all add: print_range_def hex2_def hex_byte_def hex_digit_def char_eval)
  then show "parse_range ''00-7F'' = Inr \<lparr>rg_start = 0, rg_end = 0x7F, rg_raw = ''00-7F''\<rparr>"
    "parse_range ''80-FF'' = Inr \<lparr>rg_start = 0x80, rg_end = 0xFF, rg_raw = ''80-FF''\<rparr>"
    using parse_range_print [of 0 "0x7F"] parse_range_print [of "0x80" "0xFF"] by simp_all
qed

lemma sample_full: "shard_full (es_shard_map sample_est)"
  "\<forall>(raw, a) \<in> set (es_shard_map sample_est). range_of raw \<noteq> None"
proof -
  have covers: "raw_covers ''00-7F'' s \<longleftrightarrow> s \<le> 0x7F" "raw_covers ''80-FF'' s \<longleftrightarrow> \<not> s \<le> 0x7F" for s
  proof -
    have "s \<le> 0xFF" by (simp add: word_le_nat_alt) (use unat_byte_less [of s] in linarith)
    moreover have "0x80 \<le> s \<longleftrightarrow> \<not> s \<le> 0x7F" by (simp add: word_le_nat_alt) linarith
    ultimately show "raw_covers ''00-7F'' s \<longleftrightarrow> s \<le> 0x7F" "raw_covers ''80-FF'' s \<longleftrightarrow> \<not> s \<le> 0x7F"
      by (simp_all add: raw_covers_def range_of_def sample_ranges contains_def)
  qed
  then show "shard_full (es_shard_map sample_est)"
    by (simp add: shard_full_def sample_est_def)
  show "\<forall>(raw, a) \<in> set (es_shard_map sample_est). range_of raw \<noteq> None"
    by (simp add: sample_est_def range_of_def sample_ranges)
qed

lemma sample_check: "check_shard_map [(''00-7F'', sample_assignment ''a''), (''80-FF'', sample_assignment ''b'')] = None"
  using check_shard_map_None [of "es_shard_map sample_est"] sample_full by (simp add: sample_est_def)

lemma sample_parse_any:
  "parse_establishment (sample_json reader) \<lparr>rs_ok = True, rs_errors = es, rs_env = sample_env, rs_body = b\<rparr>
     = Inr sample_est"
  by (simp add: sample_check [unfolded sample_assignment_def] parse_establishment_def sample_result_def envelope_of_def sample_env_def
      parse_general_def Let_def sample_member_def js_strings_def sample_est_def js_int0_def
      sample_assignment_def)

lemma sample_parse: "parse_establishment (sample_json reader) sample_result = Inr sample_est"
  by (simp add: sample_result_def sample_parse_any)

theorem assignment_deterministic_witness:
  "\<exists>a. assignment_for_slot (Some (sample_est\<lparr>es_shard_map :=
      [(''80-FF'', sample_assignment ''b''), (''00-7F'', sample_assignment ''a'')]\<rparr>)) 0x80 = Some a
    \<and> assignment_for_slot (Some sample_est) 0x80 = Some a"
proof -
  have "es_shard_map sample_est \<noteq> []" by (simp add: sample_est_def)
  moreover have "mset [(''80-FF'', sample_assignment ''b''), (''00-7F'', sample_assignment ''a'')]
      = mset (es_shard_map sample_est)"
    by (simp add: sample_est_def add_mset_commute)
  ultimately show ?thesis
    using assignment_deterministic [OF sample_parse [of "\<lambda>_. Inl []"], of "0x80"] by blast
qed

text \<open>C27: The catalog check is exact. It passes when every declared collection is in the schemas
  of the establishment document with the declared version, and otherwise its error lists the
  declared collections that are missing or differ, all of them and in the order declared.\<close>

theorem catalog_exact:
  "(validate_catalog (Some est) cols = (None :: 'j err option) \<longleftrightarrow>
      (\<forall>col. Some col \<in> set cols \<longrightarrow>
         map_option sc_version (map_of (es_schemas est) (cr_name col)) = Some (cr_version col)))
   \<and> (validate_catalog (Some est) cols \<noteq> (None :: 'j err option) \<longrightarrow>
      validate_catalog (Some est) cols
        = Some (ECatalog (List.map_filter (\<lambda>col.
              case map_of (es_schemas est) (cr_name col) of
                None \<Rightarrow> Some \<lparr>cm_collection = cr_name col, cm_code = CatalogCollectionNotFound,
                             cm_expected = cr_version col, cm_actual = -1\<rparr>
              | Some entry \<Rightarrow>
                  if sc_version entry \<noteq> cr_version col then
                    Some \<lparr>cm_collection = cr_name col, cm_code = CatalogSchemaVersionMismatch,
                          cm_expected = cr_version col, cm_actual = sc_version entry\<rparr>
                  else None) (List.map_filter (\<lambda>c. c) cols)) :: 'j err))"
proof -
  have "validate_catalog (Some est) cols = (if catalog_mismatches est cols = [] then (None :: 'j err option)
      else Some (ECatalog (catalog_mismatches est cols)))"
    by (auto simp: validate_catalog_def Let_def)
  moreover
  have "col_mismatch est = (\<lambda>col.
      case map_of (es_schemas est) (cr_name col) of
        None \<Rightarrow> Some \<lparr>cm_collection = cr_name col, cm_code = CatalogCollectionNotFound,
                     cm_expected = cr_version col, cm_actual = -1\<rparr>
      | Some entry \<Rightarrow>
          if sc_version entry \<noteq> cr_version col then
            Some \<lparr>cm_collection = cr_name col, cm_code = CatalogSchemaVersionMismatch,
                  cm_expected = cr_version col, cm_actual = sc_version entry\<rparr>
          else None)"
    by (rule ext) (simp add: col_mismatch_def)
  note written = this [symmetric]
  ultimately show ?thesis
    using catalog_mismatches_Nil [of est cols] unfolding written
    by (simp add: catalog_mismatches_filter [symmetric] col_mismatch_None)
qed

theorem catalog_exact_witness:
  "validate_catalog (Some sample_est) [Some \<lparr>cr_name = ''Todos'', cr_version = 2\<rparr>, None] = None
   \<and> validate_catalog (Some sample_est) [Some \<lparr>cr_name = ''Todos'', cr_version = 3\<rparr>, None,
        Some \<lparr>cr_name = ''Users'', cr_version = 0\<rparr>]
     = Some (ECatalog [\<lparr>cm_collection = ''Todos'', cm_code = CatalogSchemaVersionMismatch,
                      cm_expected = 3, cm_actual = 2\<rparr>,
                     \<lparr>cm_collection = ''Users'', cm_code = CatalogCollectionNotFound,
                      cm_expected = 0, cm_actual = -1\<rparr>])"
  using catalog_exact [of sample_est "[Some \<lparr>cr_name = ''Todos'', cr_version = 2\<rparr>, None]"]
    catalog_exact [of sample_est "[Some \<lparr>cr_name = ''Todos'', cr_version = 3\<rparr>, None,
        Some \<lparr>cr_name = ''Users'', cr_version = 0\<rparr>]"]
  by (simp add: sample_est_def List.map_filter_simps col_mismatch_def validate_catalog_def)

end
