(* ===== verification/Client.thy ===== *)
theory Client
  imports Establish
begin

text \<open>
  The client object and its HTTP layer (client.go): construction, bearer tokens, URL rewriting,
  one JSON request, the retry loop around it, and the establishment operations. The network, the
  clock and the token source are functions of a world value; a state holds the establishment
  cache, the world, and a log of what the client did (requests handed to \<open>http.Client.Do\<close>,
  timers awaited, ids minted, responses announced to the caller's \<open>OnResponse\<close> and bytes
  taken by the caller's writer), which no operation reads.
\<close>

section \<open>Data\<close>

record request =
  rq_method :: string
  rq_url :: string
  rq_headers :: "(string \<times> string) list"
  rq_body :: "string option"
  rq_body_error :: "string option"

text \<open>
  The body of a request is what its reader delivers and the error, if any, that ends it instead
  of the end of file; in the same way a response is the status, the header, the bytes its body
  delivers and the error that follows them.
\<close>

record response =
  rp_status :: int
  rp_headers :: "(string \<times> string) list"
  rp_body :: string
  rp_read_error :: "string option"

text \<open>
  \<open>http.Client.Do\<close>: an error or a response, with the number of bytes it took from the
  reader of the request body.
\<close>

type_synonym 'w http = "request \<Rightarrow> 'w \<Rightarrow> (string + response) \<times> nat \<times> 'w"

datatype ('j, 'w) token_source =
    StaticToken string
  | TokenFunc "'w \<Rightarrow> ('j err + string) \<times> 'w"

record ('j, 'w) config =
  cf_establishment_url :: string
  cf_token :: string
  cf_token_source :: "('j, 'w) token_source option"
  cf_http_client :: "'w http option"
  cf_base_url_rewrite :: "string \<Rightarrow> string option"
  cf_prefer_server :: string
  cf_wrong_machine_retries :: int
  cf_transport_retries :: int
  cf_create_verify_delay :: int
  cf_user_agent :: string

record ('j, 'w) client =
  cl_cfg :: "('j, 'w) config"
  cl_http :: "'w http"
  cl_tokens :: "('j, 'w) token_source"
  cl_user_agent :: string
  cl_wm_retries :: int
  cl_tr_retries :: int

text \<open>
  The environment: the default HTTP client, the verdict of \<open>http.NewRequest\<close> on a method and
  an address, a timer raced against the context (its error, when the context ends first), the
  ULID source, the source of multipart boundaries, and whether the transport reads the body of
  a streamed request past the part that is written before the content is opened.
\<close>

record 'w env =
  en_default_http :: "'w http"
  en_new_request :: "string \<Rightarrow> string \<Rightarrow> string option"
  en_wait :: "int \<Rightarrow> 'w \<Rightarrow> string option \<times> 'w"
  en_ulid :: "'w \<Rightarrow> string \<times> 'w"
  en_boundary :: "'w \<Rightarrow> string \<times> 'w"
  en_reads_content :: "request \<Rightarrow> 'w \<Rightarrow> bool"

datatype event =
    Sent request
  | Waited int
  | Minted string
  | Committed int
  | Wrote string

record ('j, 'w) state =
  st_cache :: "'j establishment option"
  st_trace :: "event list"
  st_world :: "'w"

definition default_wrong_machine_max :: int where "default_wrong_machine_max = 3"
definition max_response_body_bytes :: nat where "max_response_body_bytes = 8388608"
definition api_prefix :: string where "api_prefix = ''/datoriumdb/v1''"

section \<open>Construction\<close>

definition new_client :: "'w env \<Rightarrow> ('j, 'w) config \<Rightarrow> 'j err + ('j, 'w) client" where
  "new_client E cfg =
     (if trim_space (cf_establishment_url cfg) = [] then
        Inl (EMsg ''datorium: EstablishmentURL is required'' [])
      else
        (let cfg' = cfg\<lparr>cf_establishment_url := trim_right (CHR ''/'') (cf_establishment_url cfg)\<rparr> in
         case (case cf_token_source cfg' of
                 Some ts \<Rightarrow> Some ts
               | None \<Rightarrow> if cf_token cfg' \<noteq> [] then Some (StaticToken (cf_token cfg')) else None) of
           None \<Rightarrow> Inl (EMsg ''datorium: Token or TokenSource is required'' [])
         | Some tokens \<Rightarrow>
             Inr \<lparr>cl_cfg = cfg',
                  cl_http = (case cf_http_client cfg' of None \<Rightarrow> en_default_http E | Some hc \<Rightarrow> hc),
                  cl_tokens = tokens,
                  cl_user_agent = (if cf_user_agent cfg' = [] then ''datorium-client-go''
                                   else cf_user_agent cfg'),
                  cl_wm_retries = (if cf_wrong_machine_retries cfg' \<le> 0 then default_wrong_machine_max
                                   else cf_wrong_machine_retries cfg'),
                  cl_tr_retries = cf_transport_retries cfg'\<rparr>))"

section \<open>Tokens and addresses\<close>

fun token :: "('j, 'w) token_source \<Rightarrow> 'w \<Rightarrow> ('j err + string) \<times> 'w" where
  "token (StaticToken s) w = (Inr s, w)"
| "token (TokenFunc f) w = f w"

definition bearer :: "('j, 'w) client \<Rightarrow> ('j, 'w) state \<Rightarrow> ('j err + string) \<times> ('j, 'w) state" where
  "bearer c st =
     (case token (cl_tokens c) (st_world st) of
        (Inl e, w) \<Rightarrow> (Inl e, st\<lparr>st_world := w\<rparr>)
      | (Inr tok, w) \<Rightarrow>
          (let tok' = trim_prefix ''Bearer '' (trim_space tok) in
           if tok' = [] then (Inl (EMsg ''datorium: empty bearer token'' []), st\<lparr>st_world := w\<rparr>)
           else (Inr tok', st\<lparr>st_world := w\<rparr>)))"

definition rewrite_url :: "('j, 'w) client \<Rightarrow> string \<Rightarrow> string \<Rightarrow> string" where
  "rewrite_url c server_name base_url =
     (let lookup = (\<lambda>k. case cf_base_url_rewrite (cl_cfg c) k of
                          Some u \<Rightarrow> if u \<noteq> [] then Some u else None | None \<Rightarrow> None) in
      case lookup server_name of
        Some u \<Rightarrow> trim_right (CHR ''/'') u
      | None \<Rightarrow> (case lookup base_url of
                   Some u \<Rightarrow> trim_right (CHR ''/'') u
                 | None \<Rightarrow> trim_right (CHR ''/'') base_url))"

section \<open>One request\<close>

definition log_event :: "event \<Rightarrow> ('j, 'w) state \<Rightarrow> ('j, 'w) state" where
  "log_event ev st = st\<lparr>st_trace := st_trace st @ [ev]\<rparr>"

definition auth_header :: "('j, 'w) client \<Rightarrow> bool \<Rightarrow> ('j, 'w) state
    \<Rightarrow> ('j err + (string \<times> string) list) \<times> ('j, 'w) state" where
  "auth_header c auth st =
     (if auth then
        (case bearer c st of
           (Inl e, st') \<Rightarrow> (Inl e, st')
         | (Inr tok, st') \<Rightarrow> (Inr [(''Authorization'', ''Bearer '' @ tok)], st'))
      else (Inr [], st))"

definition base_headers :: "('j, 'w) client \<Rightarrow> string \<Rightarrow> (string \<times> string) list" where
  "base_headers c content_type =
     [(''Accept'', ''application/json''), (''User-Agent'', cl_user_agent c)]
     @ (if content_type \<noteq> [] then [(''Content-Type'', content_type)] else [])"

text \<open>The round trip: the outcome, the bytes taken from the body reader, the state.\<close>

definition http_do :: "('j, 'w) client \<Rightarrow> request \<Rightarrow> ('j, 'w) state
    \<Rightarrow> (string + response) \<times> nat \<times> ('j, 'w) state" where
  "http_do c rq st =
     (case cl_http c rq (st_world st) of
        (out, n, w) \<Rightarrow> (out, n, log_event (Sent rq) (st\<lparr>st_world := w\<rparr>)))"

definition read_response :: "'j ojson \<Rightarrow> response \<Rightarrow> 'j err + 'j result" where
  "read_response J rp =
     (let data = take (max_response_body_bytes + 1) (rp_body rp) in
      case (if length data \<le> max_response_body_bytes then rp_read_error rp else None) of
        Some e \<Rightarrow> Inl (ETransport (rp_status rp) [] (Some (EExt e)))
      | None \<Rightarrow>
          if max_response_body_bytes < length data then
            Inl (ETransport (rp_status rp) []
                  (Some (EMsg ''response body exceeds %d bytes'' [show_nat max_response_body_bytes])))
          else if rp_status rp < 200 \<or> 300 \<le> rp_status rp then
            Inl (ETransport (rp_status rp) data None)
          else (case decode_result J data of
                  Inl e \<Rightarrow> Inl (ETransport (rp_status rp) data (Some e))
                | Inr res \<Rightarrow> Inr res))"

text \<open>The body is the reader's unread part; it is given back for the next attempt.\<close>

definition do_json_once :: "'w env \<Rightarrow> 'j ojson \<Rightarrow> ('j, 'w) client \<Rightarrow> string \<Rightarrow> string \<Rightarrow> string
    \<Rightarrow> string option \<Rightarrow> string \<Rightarrow> bool \<Rightarrow> ('j, 'w) state
    \<Rightarrow> ('j result \<times> 'j err option) \<times> string option \<times> ('j, 'w) state" where
  "do_json_once E J c meth base_url path body content_type auth st =
     (let url = trim_right (CHR ''/'') base_url @ path in
      case en_new_request E meth url of
        Some e \<Rightarrow> ((zero_result J, Some (ETransport 0 [] (Some (EExt e)))), body, st)
      | None \<Rightarrow>
          (case auth_header c auth st of
             (Inl e, st') \<Rightarrow> ((zero_result J, Some e), body, st')
           | (Inr hs, st') \<Rightarrow>
               (case http_do c \<lparr>rq_method = meth, rq_url = url,
                               rq_headers = base_headers c content_type @ hs, rq_body = body,
                               rq_body_error = None\<rparr> st' of
                  (Inl e, n, st'') \<Rightarrow>
                    ((zero_result J, Some (ETransport 0 [] (Some (EExt e)))), map_option (drop n) body, st'')
                | (Inr rp, n, st'') \<Rightarrow>
                    (case read_response J rp of
                       Inl e \<Rightarrow> ((zero_result J, Some e), map_option (drop n) body, st'')
                     | Inr res \<Rightarrow> ((res, None), map_option (drop n) body, st'')))))"

section \<open>The retry loop\<close>

definition wait_timer :: "'w env \<Rightarrow> int \<Rightarrow> ('j, 'w) state \<Rightarrow> string option \<times> ('j, 'w) state" where
  "wait_timer E d st =
     (case en_wait E d (st_world st) of (out, w) \<Rightarrow> (out, log_event (Waited d) (st\<lparr>st_world := w\<rparr>)))"

text \<open>Durations are nanoseconds in an int64.\<close>

definition backoff :: "int \<Rightarrow> int" where
  "backoff i = int64_wrap ((i + 1) * 100000000)"

function do_json_loop :: "'w env \<Rightarrow> 'j ojson \<Rightarrow> ('j, 'w) client \<Rightarrow> string \<Rightarrow> string \<Rightarrow> string
    \<Rightarrow> string option \<Rightarrow> string \<Rightarrow> bool \<Rightarrow> int \<Rightarrow> int \<Rightarrow> 'j err option \<Rightarrow> ('j, 'w) state
    \<Rightarrow> ('j result \<times> 'j err option) \<times> ('j, 'w) state" where
  "do_json_loop E J c meth base_url path body content_type auth attempts i last_err st =
     (if i < attempts then
        (case do_json_once E J c meth base_url path body content_type auth st of
           ((res, None), body', st') \<Rightarrow> ((res, None), st')
         | ((res, Some e), body', st') \<Rightarrow>
             if \<not> as_transport e then ((zero_result J, Some e), st')
             else if i + 1 < attempts then
               (case wait_timer E (backoff i) st' of
                  (Some ctx_err, st'') \<Rightarrow> ((zero_result J, Some (EExt ctx_err)), st'')
                | (None, st'') \<Rightarrow>
                    do_json_loop E J c meth base_url path body' content_type auth attempts (i + 1) (Some e) st'')
             else do_json_loop E J c meth base_url path body' content_type auth attempts (i + 1) (Some e) st')
      else ((zero_result J, last_err), st))"
  by pat_completeness auto

termination
  by (relation "measure (\<lambda>(E, J, c, m, b, p, body, ct, auth, attempts, i, le, st). nat (attempts - i))") auto

declare do_json_loop.simps [simp del]

definition do_json :: "'w env \<Rightarrow> 'j ojson \<Rightarrow> ('j, 'w) client \<Rightarrow> string \<Rightarrow> string \<Rightarrow> string
    \<Rightarrow> string option \<Rightarrow> string \<Rightarrow> bool \<Rightarrow> ('j, 'w) state
    \<Rightarrow> ('j result \<times> 'j err option) \<times> ('j, 'w) state" where
  "do_json E J c meth base_url path body content_type auth st =
     do_json_loop E J c meth base_url path body content_type auth (int64_wrap (cl_tr_retries c + 1)) 0 None st"

section \<open>Establishment operations\<close>

definition health :: "'w env \<Rightarrow> 'j ojson \<Rightarrow> ('j, 'w) client \<Rightarrow> ('j, 'w) state
    \<Rightarrow> ('j result \<times> 'j err option) \<times> ('j, 'w) state" where
  "health E J c st =
     do_json E J c ''GET'' (cf_establishment_url (cl_cfg c)) (api_prefix @ ''/health'') None [] False st"

definition ready :: "'w env \<Rightarrow> 'j ojson \<Rightarrow> ('j, 'w) client \<Rightarrow> ('j, 'w) state
    \<Rightarrow> ('j result \<times> 'j err option) \<times> ('j, 'w) state" where
  "ready E J c st =
     do_json E J c ''GET'' (cf_establishment_url (cl_cfg c)) (api_prefix @ ''/ready'') None [] False st"

definition establish :: "'w env \<Rightarrow> 'j ojson \<Rightarrow> ('j, 'w) client \<Rightarrow> collection_ref option list
    \<Rightarrow> ('j, 'w) state \<Rightarrow> 'j err option \<times> ('j, 'w) state" where
  "establish E J c cols st =
     (case do_json E J c ''GET'' (cf_establishment_url (cl_cfg c)) (api_prefix @ ''/establish'') None [] True st of
        ((res, Some e), st') \<Rightarrow> (Some e, st')
      | ((res, None), st') \<Rightarrow>
          (case parse_establishment J res of
             Inl e \<Rightarrow> (Some e, st')
           | Inr est \<Rightarrow>
               (case validate_catalog (Some est) cols of
                  Some e \<Rightarrow> (Some e, st')
                | None \<Rightarrow> (None, st'\<lparr>st_cache := Some est\<rparr>))))"

definition cached_establishment :: "('j, 'w) state \<Rightarrow> 'j establishment option" where
  "cached_establishment st = st_cache st"

text \<open>A run-time panic, as a value of its own.\<close>

definition nil_dereference :: "'j err" where
  "nil_dereference = EExt ''invalid memory address or nil pointer dereference''"

definition establishment_base :: "'w env \<Rightarrow> 'j ojson \<Rightarrow> ('j, 'w) client \<Rightarrow> ('j, 'w) state
    \<Rightarrow> ('j err + string) \<times> ('j, 'w) state" where
  "establishment_base E J c st =
     (let use = (\<lambda>est s.
        (let name = gc_establishment_server (es_general est); u = server_base_url (Some est) name in
         if u = [] then (Inr (cf_establishment_url (cl_cfg c)), s)
         else (Inr (rewrite_url c name u), s))) in
      case st_cache st of
        Some est \<Rightarrow> use est st
      | None \<Rightarrow>
          (case establish E J c [] st of
             (Some e, st') \<Rightarrow> (Inl e, st')
           | (None, st') \<Rightarrow>
               (case st_cache st' of
                  None \<Rightarrow> (Inl nil_dereference, st')
                | Some est \<Rightarrow> use est st')))"

definition schema :: "'w env \<Rightarrow> 'j ojson \<Rightarrow> ('j, 'w) client \<Rightarrow> string \<Rightarrow> int \<Rightarrow> ('j, 'w) state
    \<Rightarrow> ('j result \<times> 'j err option) \<times> ('j, 'w) state" where
  "schema E J c collection version st =
     (case establishment_base E J c st of
        (Inl e, st') \<Rightarrow> ((zero_result J, Some e), st')
      | (Inr base, st') \<Rightarrow>
          (case do_json E J c ''GET'' base
                  (api_prefix @ ''/schema/'' @ collection @ CHR ''/'' # show_int version) None [] True st' of
             ((res, Some e), st'') \<Rightarrow> ((zero_result J, Some e), st'')
           | ((res, None), st'') \<Rightarrow>
               if \<not> rs_ok res then ((res, Some (EApp (app_error_from_result J res))), st'')
               else ((res, None), st'')))"

definition ensure_established :: "'w env \<Rightarrow> 'j ojson \<Rightarrow> ('j, 'w) client \<Rightarrow> ('j, 'w) state
    \<Rightarrow> ('j err + 'j establishment) \<times> ('j, 'w) state" where
  "ensure_established E J c st =
     (case st_cache st of
        Some est \<Rightarrow> (Inr est, st)
      | None \<Rightarrow>
          (case establish E J c [] st of
             (Some e, st') \<Rightarrow> (Inl e, st')
           | (None, st') \<Rightarrow>
               (case st_cache st' of
                  None \<Rightarrow> (Inl (EMsg ''datorium: establishment cache empty after fetch'' []), st')
                | Some est \<Rightarrow> (Inr est, st'))))"

section \<open>What an operation may do\<close>

text \<open>
  Every operation of the client only appends to the log, never empties the cache once it is
  filled, and keeps the cached establishment document well-formed. \<open>allowed\<close> is what the
  operation may log.
\<close>

definition cache_ok :: "('j, 'w) state \<Rightarrow> bool" where
  "cache_ok st \<longleftrightarrow> (\<forall>est. st_cache st = Some est \<longrightarrow> establishment_ok est)"

definition extends :: "(event \<Rightarrow> bool) \<Rightarrow> ('j, 'w) state \<Rightarrow> ('j, 'w) state \<Rightarrow> bool" where
  "extends allowed st st' \<longleftrightarrow>
     (\<exists>evs. st_trace st' = st_trace st @ evs \<and> list_all allowed evs)
     \<and> (st_cache st \<noteq> None \<longrightarrow> st_cache st' \<noteq> None)
     \<and> (cache_ok st \<longrightarrow> cache_ok st')"

lemma extends_refl [intro, simp, frame]: "extends allowed st st"
  by (simp add: extends_def)

lemma extends_trans [trans, frame]:
  "extends allowed st st' \<Longrightarrow> extends allowed st' st'' \<Longrightarrow> extends allowed st st''"
  by (auto simp: extends_def)

lemma extends_mono: "extends P st st' \<Longrightarrow> (\<And>ev. P ev \<Longrightarrow> Q ev) \<Longrightarrow> extends Q st st'"
  by (auto simp: extends_def list_all_iff)

lemma extends_world [simp]: "extends allowed st (st\<lparr>st_world := w\<rparr>)"
  by (simp add: extends_def cache_ok_def)

lemma extends_log: "allowed ev \<Longrightarrow> extends allowed st (log_event ev st)"
  by (simp add: extends_def cache_ok_def log_event_def)

locale client_op =
  fixes allowed :: "event \<Rightarrow> bool"
    and run :: "('j, 'w) state \<Rightarrow> 'a \<times> ('j, 'w) state"
  assumes run_extends: "extends allowed st (snd (run st))"
begin

lemma run_extends_to: "run st = (r, st') \<Longrightarrow> extends allowed st st'"
  using run_extends [of st] by simp

lemma log_only_grows: "run st = (r, st') \<Longrightarrow> prefix (st_trace st) (st_trace st')"
  using run_extends [of st] by (auto simp: extends_def)

lemma logged_allowed:
  "run st = (r, st') \<Longrightarrow> ev \<in> set (drop (length (st_trace st)) (st_trace st')) \<Longrightarrow> allowed ev"
  using run_extends [of st] by (auto simp: extends_def list_all_iff)

lemma cache_stays: "run st = (r, st') \<Longrightarrow> st_cache st \<noteq> None \<Longrightarrow> st_cache st' \<noteq> None"
  using run_extends [of st] by (auto simp: extends_def)

lemma cache_stays_ok: "run st = (r, st') \<Longrightarrow> cache_ok st \<Longrightarrow> cache_ok st'"
  using run_extends [of st] by (auto simp: extends_def)

end

text \<open>
  The contract composes: sequencing, the case distinctions of the code, and its returns.
\<close>

lemma op_return [op_intro]: "client_op allowed (\<lambda>st. (a, st))"
  by unfold_locales simp

lemma op_bind [op_intro]:
  assumes "client_op allowed f" "\<And>a. client_op allowed (g a)"
  shows "client_op allowed (\<lambda>st. case f st of (a, st') \<Rightarrow> g a st')"
proof (unfold_locales, goal_cases)
  case (1 st)
  obtain a st' where f: "f st = (a, st')" by (metis surj_pair)
  have "extends allowed st st'" using client_op.run_extends_to [OF assms(1) f] .
  also have "extends allowed st' (snd (g a st'))" using client_op.run_extends [OF assms(2)] .
  finally show ?case by (simp add: f)
qed

lemma op_pair [op_intro]:
  "(\<And>x y. client_op allowed (f x y)) \<Longrightarrow> client_op allowed (\<lambda>st. case p of (x, y) \<Rightarrow> f x y st)"
  by (cases p) simp

lemma op_if [op_intro]:
  "client_op allowed f \<Longrightarrow> client_op allowed g \<Longrightarrow> client_op allowed (\<lambda>st. if b then f st else g st)"
  by (cases b) simp_all

lemma op_sum [op_intro]:
  "(\<And>e. client_op allowed (f e)) \<Longrightarrow> (\<And>x. client_op allowed (g x)) \<Longrightarrow>
     client_op allowed (\<lambda>st. case r of Inl e \<Rightarrow> f e st | Inr x \<Rightarrow> g x st)"
  by (cases r) simp_all

lemma op_option [op_intro]:
  "client_op allowed f \<Longrightarrow> (\<And>x. client_op allowed (g x)) \<Longrightarrow>
     client_op allowed (\<lambda>st. case r of None \<Rightarrow> f st | Some x \<Rightarrow> g x st)"
  by (cases r) simp_all

lemma op_list [op_intro]:
  "client_op allowed f \<Longrightarrow> (\<And>x xs. client_op allowed (g x xs)) \<Longrightarrow>
     client_op allowed (\<lambda>st. case r of [] \<Rightarrow> f st | x # xs \<Rightarrow> g x xs st)"
  by (cases r) simp_all

lemma op_mono: "client_op P f \<Longrightarrow> (\<And>ev. P ev \<Longrightarrow> Q ev) \<Longrightarrow> client_op Q f"
  by (auto simp: client_op_def intro: extends_mono)

text \<open>A request operation leaves the cache alone.\<close>

locale request_op = client_op +
  assumes run_cache: "st_cache (snd (run st)) = st_cache st"
begin

lemma cache_same: "run st = (r, st') \<Longrightarrow> st_cache st' = st_cache st"
  using run_cache [of st] by simp

end

text \<open>A request that carries a bearer token, and the events of a JSON request.\<close>

definition authorised :: "request \<Rightarrow> bool" where
  "authorised rq \<longleftrightarrow> (\<exists>tok. tok \<noteq> [] \<and> (''Authorization'', ''Bearer '' @ tok) \<in> set (rq_headers rq))"

definition json_request :: "string \<Rightarrow> string \<Rightarrow> string option \<Rightarrow> bool \<Rightarrow> request \<Rightarrow> bool" where
  "json_request meth url body auth rq \<longleftrightarrow> rq_method rq = meth \<and> rq_url rq = url
     \<and> (\<exists>n. rq_body rq = map_option (drop n) body)
     \<and> (if auth then authorised rq else ''Authorization'' \<notin> fst ` set (rq_headers rq))"

fun json_event :: "string \<Rightarrow> string \<Rightarrow> string option \<Rightarrow> bool \<Rightarrow> event \<Rightarrow> bool" where
  "json_event meth url body auth (Sent rq) = json_request meth url body auth rq"
| "json_event meth url body auth (Waited d) = True"
| "json_event meth url body auth _ = False"

fun sents :: "event list \<Rightarrow> request list" where
  "sents [] = []"
| "sents (Sent rq # evs) = rq # sents evs"
| "sents (_ # evs) = sents evs"

fun waits :: "event list \<Rightarrow> int list" where
  "waits [] = []"
| "waits (Waited d # evs) = d # waits evs"
| "waits (_ # evs) = waits evs"

lemma sents_append [simp]: "sents (xs @ ys) = sents xs @ sents ys"
  by (induction xs rule: sents.induct) auto

lemma waits_append [simp]: "waits (xs @ ys) = waits xs @ waits ys"
  by (induction xs rule: waits.induct) auto

text \<open>The events before the first timer.\<close>

fun until_wait :: "event list \<Rightarrow> event list" where
  "until_wait [] = []"
| "until_wait (Waited d # evs) = []"
| "until_wait (ev # evs) = ev # until_wait evs"

lemma until_wait_whole: "waits evs = [] \<Longrightarrow> until_wait evs = evs"
  "waits evs = [] \<Longrightarrow> until_wait (evs @ Waited d # evs') = evs"
  by (induction evs rule: waits.induct) auto

lemma map_option_drop_drop:
  "\<exists>n. map_option (drop k) (map_option (drop m) b) = map_option (drop n) b"
  by (rule exI [of _ "k + m"]) (cases b, simp_all)

lemma ex_drop_same [simp]: "\<exists>n. b = map_option (drop n) b" "\<exists>n. map_option (drop m) b = map_option (drop n) b"
  by (rule exI [of _ 0], cases b) auto

lemma json_request_drop:
  "json_request meth url (map_option (drop m) body) auth rq \<Longrightarrow> json_request meth url body auth rq"
  unfolding json_request_def by (metis map_option_drop_drop)

lemma json_event_drop:
  "json_event meth url (map_option (drop m) body) auth ev \<Longrightarrow> json_event meth url body auth ev"
  by (cases ev) (auto intro: json_request_drop)

lemma bearer_frame:
  assumes "bearer c st = (out, st')"
  shows "st_cache st' = st_cache st" "st_trace st' = st_trace st" "out = Inr tok \<Longrightarrow> tok \<noteq> []"
  using assms by (auto simp: bearer_def Let_def split: prod.splits sum.splits if_splits)

lemma auth_header_frame:
  assumes "auth_header c auth st = (out, st')"
  shows "st_cache st' = st_cache st \<and> st_trace st' = st_trace st"
    and "out = Inr hs \<Longrightarrow> auth \<Longrightarrow> \<exists>tok. tok \<noteq> [] \<and> hs = [(''Authorization'', ''Bearer '' @ tok)]"
    and "out = Inr hs \<Longrightarrow> \<not> auth \<Longrightarrow> hs = []"
  using assms bearer_frame [of c st]
  by (auto simp: auth_header_def split: prod.splits sum.splits if_splits)

lemma http_do_frame:
  "http_do c rq st = (out, n, st') \<Longrightarrow> st_cache st' = st_cache st \<and> st_trace st' = st_trace st @ [Sent rq]"
  by (auto simp: http_do_def log_event_def split: prod.splits)

lemma do_json_once_frame:
  assumes "do_json_once E J c meth base path body ct auth st = (out, body', st')"
  shows "st_cache st' = st_cache st"
    "\<exists>evs. st_trace st' = st_trace st @ evs \<and> length (sents evs) \<le> 1 \<and> waits evs = []
       \<and> list_all (\<lambda>rq. rq_body rq = body) (sents evs)
       \<and> list_all (json_event meth (trim_right (CHR ''/'') base @ path) body auth) evs"
    "\<exists>n. body' = map_option (drop n) body"
proof -
  let ?url = "trim_right (CHR ''/'') base @ path"
  let ?P = "st_cache st' = st_cache st \<and> (\<exists>evs. st_trace st' = st_trace st @ evs \<and> length (sents evs) \<le> 1
      \<and> waits evs = [] \<and> list_all (\<lambda>rq. rq_body rq = body) (sents evs)
      \<and> list_all (json_event meth ?url body auth) evs) \<and> (\<exists>n. body' = map_option (drop n) body)"
  have nothing: ?P if "st_cache st' = st_cache st" "st_trace st' = st_trace st" "body' = body"
    using that by (auto intro!: exI [of _ "[]"])
  have ?P
  proof (cases "en_new_request E meth ?url")
    case (Some e)
    then show ?thesis using assms nothing by (simp add: do_json_once_def Let_def)
  next
    case None
    obtain a st1 where a: "auth_header c auth st = (a, st1)" by (metis surj_pair)
    show ?thesis
    proof (cases a)
      case (Inl e)
      then show ?thesis
        using assms None a nothing auth_header_frame(1) [OF a] by (simp add: do_json_once_def Let_def)
    next
      case (Inr hs)
      let ?rq = "\<lparr>rq_method = meth, rq_url = ?url, rq_headers = base_headers c ct @ hs, rq_body = body,
        rq_body_error = None\<rparr>"
      obtain o2 n st2 where d: "http_do c ?rq st1 = (o2, n, st2)" by (metis surj_pair)
      have "authorised ?rq" if au: "auth"
      proof -
        obtain tok where "tok \<noteq> []" "hs = [(''Authorization'', ''Bearer '' @ tok)]"
          using auth_header_frame(2) [OF a Inr au] by blast
        then show ?thesis unfolding authorised_def by (intro exI [of _ tok]) simp
      qed
      moreover have "''Authorization'' \<notin> fst ` set (rq_headers ?rq)" if na: "\<not> auth"
        using auth_header_frame(3) [OF a Inr na] by (auto simp: base_headers_def)
      ultimately have "json_request meth ?url body auth ?rq" by (simp add: json_request_def)
      moreover have "st' = st2 \<and> body' = map_option (drop n) body"
        using assms None a Inr d by (auto simp: do_json_once_def Let_def split: sum.splits)
      ultimately show ?thesis
        using http_do_frame [OF d] auth_header_frame(1) [OF a]
        by (auto intro!: exI [of _ "[Sent ?rq]"])
    qed
  qed
  then show "st_cache st' = st_cache st"
    "\<exists>evs. st_trace st' = st_trace st @ evs \<and> length (sents evs) \<le> 1 \<and> waits evs = []
       \<and> list_all (\<lambda>rq. rq_body rq = body) (sents evs) \<and> list_all (json_event meth ?url body auth) evs"
    "\<exists>n. body' = map_option (drop n) body" by blast+
qed


lemma wait_timer_frame:
  "wait_timer E d st = (out, st') \<Longrightarrow> st_cache st' = st_cache st \<and> st_trace st' = st_trace st @ [Waited d]"
  by (auto simp: wait_timer_def log_event_def split: prod.splits)

text \<open>The log of one retry loop: at most one request per attempt, a timer between two, and the
  whole body in the first.\<close>

definition retry_log :: "string \<Rightarrow> string \<Rightarrow> string option \<Rightarrow> bool \<Rightarrow> int \<Rightarrow> int \<Rightarrow> event list \<Rightarrow> bool" where
  "retry_log meth url body auth i attempts evs \<longleftrightarrow>
     int (length (sents evs)) \<le> max 0 (attempts - i)
     \<and> waits evs = map (\<lambda>k. backoff (i + int k)) [0..<length (waits evs)]
     \<and> (evs = [] \<or> int (length (waits evs)) < attempts - i)
     \<and> length (sents evs) \<le> Suc (length (waits evs))
     \<and> list_all (\<lambda>rq. rq_body rq = body) (sents (until_wait evs))
     \<and> list_all (json_event meth url body auth) evs"

lemma retry_log_Nil: "retry_log meth url body auth i attempts []"
  by (simp add: retry_log_def)

lemma retry_log_once:
  "length (sents evs) \<le> 1 \<Longrightarrow> waits evs = [] \<Longrightarrow> list_all (\<lambda>rq. rq_body rq = body) (sents evs) \<Longrightarrow>
     list_all (json_event meth url body auth) evs \<Longrightarrow>
     i < attempts \<Longrightarrow> retry_log meth url body auth i attempts evs"
  by (simp add: retry_log_def until_wait_whole)

lemma retry_log_more:
  assumes "length (sents evs) \<le> 1" "waits evs = []" "list_all (\<lambda>rq. rq_body rq = body) (sents evs)"
    "list_all (json_event meth url body auth) evs"
    "i + 1 < attempts" "retry_log meth url (map_option (drop n) body) auth (i + 1) attempts evs'"
  shows "retry_log meth url body auth i attempts (evs @ Waited (backoff i) # evs')"
proof -
  have "map (\<lambda>k. backoff (i + int k)) [0..<Suc m] = backoff i # map (\<lambda>k. backoff (i + 1 + int k)) [0..<m]" for m
    by (simp only: upt_conv_Cons map_Suc_upt [symmetric] zero_less_Suc list.map map_map comp_def)
      (simp add: algebra_simps)
  then show ?thesis
    using assms by (auto simp: retry_log_def list_all_iff until_wait_whole intro: json_event_drop)
qed

lemma do_json_loop_frame:
  assumes "do_json_loop E J c meth base path body ct auth attempts i le st = (out, st')"
  shows "st_cache st' = st_cache st \<and> (\<exists>evs. st_trace st' = st_trace st @ evs
    \<and> retry_log meth (trim_right (CHR ''/'') base @ path) body auth i attempts evs)"
  using assms
proof (induction E J c meth base path body ct auth attempts i le st arbitrary: out st' rule: do_json_loop.induct)
  case (1 E J c meth base path body ct auth attempts i le st)
  let ?log = "retry_log meth (trim_right (CHR ''/'') base @ path)"
  show ?case
  proof (cases "i < attempts")
    case False
    then show ?thesis using "1.prems" by (simp add: do_json_loop.simps [of E] retry_log_Nil exI [of _ "[]"])
  next
    case True
    obtain res err body' st1 where o: "do_json_once E J c meth base path body ct auth st = ((res, err), body', st1)"
      by (metis surj_pair)
    from do_json_once_frame [OF o] obtain evs n where once: "st_cache st1 = st_cache st"
      "st_trace st1 = st_trace st @ evs" "length (sents evs) \<le> 1" "waits evs = []"
      "list_all (\<lambda>rq. rq_body rq = body) (sents evs)"
      "list_all (json_event meth (trim_right (CHR ''/'') base @ path) body auth) evs"
      "body' = map_option (drop n) body" by blast
    note log1 = retry_log_once [OF once(3-6) True]
    show ?thesis
    proof (cases "err = None \<or> (\<exists>e. err = Some e \<and> \<not> as_transport e)")
      case stop: True
      then have "st' = st1"
        using "1.prems" True o by (auto simp: do_json_loop.simps [of E] split: option.splits if_splits)
      then show ?thesis using once log1 by auto
    next
      case False
      then obtain e where e: "err = Some e" "as_transport e" by (cases err) auto
      show ?thesis
      proof (cases "i + 1 < attempts")
        case more: True
        obtain w st2 where w: "wait_timer E (backoff i) st1 = (w, st2)" by (metis surj_pair)
        note wf = wait_timer_frame [OF w]
        have nil: "?log (map_option (drop n) body) auth (i + 1) attempts []" by (rule retry_log_Nil)
        show ?thesis
        proof (cases w)
          case (Some ctx)
          then have "st' = st2"
            using "1.prems" True o e more w by (simp add: do_json_loop.simps [of E])
          then show ?thesis
            using once wf retry_log_more [OF once(3-6) more nil] by auto
        next
          case None
          then have rec: "do_json_loop E J c meth base path body' ct auth attempts (i + 1) (Some e) st2 = (out, st')"
            using "1.prems" True o e more w by (simp add: do_json_loop.simps [of E _ _ _ _ _ body _ _ _ i])
          from "1.IH"(1) [OF True o [symmetric] refl e(1) refl _ more w [symmetric] None rec] e(2)
          obtain evs' where "st_cache st' = st_cache st2" "st_trace st' = st_trace st2 @ evs'"
            "?log body' auth (i + 1) attempts evs'" by auto
          then show ?thesis
            using once wf retry_log_more [OF once(3-6) more, of n evs'] by auto
        qed
      next
        case last: False
        then have "do_json_loop E J c meth base path body' ct auth attempts (i + 1) (Some e) st1 = (out, st')"
          using "1.prems" True o e by (simp add: do_json_loop.simps [of E _ _ _ _ _ body _ _ _ i])
        then have "st' = st1" using last by (simp add: do_json_loop.simps [of E])
        then show ?thesis using once log1 by auto
      qed
    qed
  qed
qed

lemma retry_log_json: "retry_log meth url body auth i attempts evs \<Longrightarrow> list_all (json_event meth url body auth) evs"
  by (simp add: retry_log_def)

lemma do_json_frame:
  assumes "do_json E J c meth base path body ct auth st = (out, st')"
  shows "st_cache st' = st_cache st \<and> (\<exists>evs. st_trace st' = st_trace st @ evs
    \<and> retry_log meth (trim_right (CHR ''/'') base @ path) body auth 0 (int64_wrap (cl_tr_retries c + 1)) evs)"
  using do_json_loop_frame assms unfolding do_json_def by blast

interpretation json_call: request_op "json_event meth (trim_right (CHR ''/'') base @ path) body auth"
  "do_json E J c meth base path body ct auth" for E J c meth base path body ct auth
proof (unfold_locales, goal_cases)
  case (1 st)
  obtain out st' where o: "do_json E J c meth base path body ct auth st = (out, st')" by (metis surj_pair)
  then show ?case
    using do_json_frame [OF o] by (auto simp: extends_def cache_ok_def dest: retry_log_json)
next
  case (2 st)
  obtain out st' where o: "do_json E J c meth base path body ct auth st = (out, st')" by (metis surj_pair)
  then show ?case using do_json_frame [OF o] by simp
qed

section \<open>What a JSON request returns\<close>

lemma read_response_Inr:
  assumes "read_response J rp = Inr res"
  shows "200 \<le> rp_status rp" "rp_status rp < 300" "length (rp_body rp) \<le> max_response_body_bytes"
    "rp_read_error rp = None" "decode_result J (rp_body rp) = Inr res"
proof -
  have len: "length (rp_body rp) \<le> max_response_body_bytes"
    using assms by (auto simp: read_response_def Let_def split: option.splits if_splits)
  then have "take (max_response_body_bytes + 1) (rp_body rp) = rp_body rp" by simp
  then show "200 \<le> rp_status rp" "rp_status rp < 300" "length (rp_body rp) \<le> max_response_body_bytes"
    "rp_read_error rp = None" "decode_result J (rp_body rp) = Inr res"
    using assms len by (auto simp: read_response_def Let_def split: option.splits if_splits sum.splits)
qed

definition delivered :: "'j ojson \<Rightarrow> ('j, 'w) client \<Rightarrow> request \<Rightarrow> 'j result \<Rightarrow> bool" where
  "delivered J c rq res \<longleftrightarrow>
     (\<exists>w rp n w'. cl_http c rq w = (Inr rp, n, w') \<and> read_response J rp = Inr res)"

lemma do_json_once_ok:
  assumes "do_json_once E J c meth base path body ct auth st = ((res, None), body', st')"
  shows "\<exists>rq. st_trace st' = st_trace st @ [Sent rq] \<and> delivered J c rq res"
proof -
  obtain hd st1 where a: "auth_header c auth st = (hd, st1)" by (metis surj_pair)
  show ?thesis
    using assms auth_header_frame(1) [OF a] a
    by (auto simp: do_json_once_def Let_def http_do_def log_event_def delivered_def
        split: option.splits sum.splits prod.splits) blast
qed

lemma do_json_loop_ok:
  assumes "do_json_loop E J c meth base path body ct auth attempts i le st = ((res, None), st')"
    "i < attempts \<or> le \<noteq> None"
  shows "\<exists>evs rq. st_trace st' = st_trace st @ evs @ [Sent rq] \<and> delivered J c rq res"
  using assms
proof (induction E J c meth base path body ct auth attempts i le st arbitrary: res st' rule: do_json_loop.induct)
  case (1 E J c meth base path body ct auth attempts i le st)
  show ?case
  proof (cases "i < attempts")
    case True
    obtain r err body' st1 where o: "do_json_once E J c meth base path body ct auth st = ((r, err), body', st1)"
      by (metis surj_pair)
    show ?thesis
    proof (cases err)
      case None
      then have "do_json_once E J c meth base path body ct auth st = ((res, None), body', st')"
        using "1.prems"(1) True o by (simp add: do_json_loop.simps [of E])
      from do_json_once_ok [OF this] show ?thesis by (metis append_Nil)
    next
      case (Some e)
      then have tr: "as_transport e"
        using "1.prems"(1) True o by (auto simp: do_json_loop.simps [of E] split: if_splits)
      show ?thesis
      proof (cases "i + 1 < attempts")
        case more: True
        obtain w st2 where w: "wait_timer E (backoff i) st1 = (w, st2)" by (metis surj_pair)
        have none: "w = None"
          using "1.prems"(1) True o Some tr more w
          by (auto simp: do_json_loop.simps [of E _ _ _ _ _ body _ _ _ i] split: option.splits)
        then have rec: "do_json_loop E J c meth base path body' ct auth attempts (i + 1) (Some e) st2 = ((res, None), st')"
          using "1.prems"(1) True o Some tr more w by (simp add: do_json_loop.simps [of E _ _ _ _ _ body _ _ _ i])
        then obtain evs rq where "st_trace st' = st_trace st2 @ evs @ [Sent rq]" "delivered J c rq res"
          using "1.IH"(1) [OF True o [symmetric] refl Some refl _ more w [symmetric] none rec] tr by blast
        moreover from do_json_once_frame(2) [OF o] obtain e1 where "st_trace st1 = st_trace st @ e1" by blast
        ultimately have "st_trace st' = st_trace st @ (e1 @ Waited (backoff i) # evs) @ [Sent rq] \<and> delivered J c rq res"
          using wait_timer_frame [OF w] by simp
        then show ?thesis by blast
      next
        case False
        then show ?thesis
          using "1.prems"(1) True o Some tr
          by (simp add: do_json_loop.simps [of E _ _ _ _ _ body _ _ _ i] do_json_loop.simps [of E _ _ _ _ _ body' _ _ _ "i + 1"])
      qed
    qed
  qed (use "1.prems" in \<open>simp add: do_json_loop.simps [of E]\<close>)
qed

lemma attempts_positive: "0 \<le> cl_tr_retries c \<Longrightarrow> cl_tr_retries c < max_int64 \<Longrightarrow>
    int64_wrap (cl_tr_retries c + 1) = cl_tr_retries c + 1"
  by (simp add: max_int64_def)

text \<open>With a sound retry count a nil error stands for a delivered response.\<close>

definition tr_ok :: "('j, 'w) client \<Rightarrow> bool" where
  "tr_ok c \<longleftrightarrow> 0 \<le> cl_tr_retries c \<and> cl_tr_retries c < max_int64"

text \<open>The answer is to the last request of the log, one of this call.\<close>

lemma do_json_answer:
  assumes "do_json E J c meth base path body ct auth st = ((res, None), st')" "rs_ok res \<or> tr_ok c"
  shows "\<exists>evs rq. st_trace st' = st_trace st @ evs @ [Sent rq] \<and> delivered J c rq res
    \<and> json_request meth (trim_right (CHR ''/'') base @ path) body auth rq
    \<and> (cl_tr_retries c = 0 \<longrightarrow> rq_body rq = body)"
proof (cases "0 < int64_wrap (cl_tr_retries c + 1)")
  case True
  then obtain evs rq where rq: "st_trace st' = st_trace st @ evs @ [Sent rq]" "delivered J c rq res"
    using do_json_loop_ok [OF assms(1) [unfolded do_json_def]] by blast
  moreover have "json_request meth (trim_right (CHR ''/'') base @ path) body auth rq"
    using do_json_frame [OF assms(1)] rq(1) by (auto simp: retry_log_def)
  moreover have "rq_body rq = body" if "cl_tr_retries c = 0"
    using do_json_frame [OF assms(1)] rq(1) that
    by (auto simp: retry_log_def int64_wrap_def until_wait_whole list_all_iff)
  ultimately show ?thesis by blast
next
  case False
  then have "res = zero_result J" using assms(1) by (simp add: do_json_def do_json_loop.simps)
  moreover have "\<not> tr_ok c" using False by (auto simp: tr_ok_def attempts_positive)
  ultimately show ?thesis using assms(2) by (simp add: zero_result_def)
qed

lemma do_json_delivered:
  assumes "tr_ok c" "do_json E J c meth base path body ct auth st = ((res, None), st')"
  shows "\<exists>rq. last (st_trace st') = Sent rq \<and> st_trace st' \<noteq> [] \<and> delivered J c rq res"
  using do_json_answer [OF assms(2)] assms(1) by auto

lemma do_json_ok_delivered:
  assumes "do_json E J c meth base path body ct auth st = ((res, None), st')" "rs_ok res \<or> tr_ok c"
  shows "\<exists>rq. delivered J c rq res"
  using do_json_answer [OF assms] by blast

lemma do_json_error_zero:
  "do_json_loop E J c meth base path body ct auth attempts i le st = ((res, Some e), st') \<Longrightarrow> res = zero_result J"
proof (induction E J c meth base path body ct auth attempts i le st arbitrary: rule: do_json_loop.induct)
  case (1 E J c meth base path body ct auth attempts i le st)
  then show ?case
    by (subst (asm) (3) do_json_loop.simps)
      (auto split: if_splits prod.splits option.splits)
qed


section \<open>The establishment operations\<close>

abbreviation establish_url :: "('j, 'w) client \<Rightarrow> string" where
  "establish_url c \<equiv> trim_right (CHR ''/'') (cf_establishment_url (cl_cfg c)) @ api_prefix @ ''/establish''"

abbreviation establish_event :: "('j, 'w) client \<Rightarrow> event \<Rightarrow> bool" where
  "establish_event c \<equiv> json_event ''GET'' (establish_url c) None True"

lemma extends_cache_set: "establishment_ok est \<Longrightarrow> extends allowed st (st\<lparr>st_cache := Some est\<rparr>)"
  by (simp add: extends_def cache_ok_def)

lemma establish_cases:
  fixes J :: "'j ojson"
  assumes "establish E J c cols st = (r, st')"
  obtains (failed) e where "r = Some e" "st_cache st' = st_cache st" "extends (establish_event c) st st'"
  | (fetched) res est where "r = None" "parse_establishment J res = Inr est"
      "validate_catalog (Some est) cols = (None :: 'j err option)" "st_cache st' = Some est"
      "extends (establish_event c) st st'" "tr_ok c \<longrightarrow> (\<exists>rq. delivered J c rq res)"
proof -
  obtain res err st1 where d: "do_json E J c ''GET'' (cf_establishment_url (cl_cfg c))
      (api_prefix @ ''/establish'') None [] True st = ((res, err), st1)" by (metis surj_pair)
  have same: "st_cache st1 = st_cache st" using json_call.cache_same [OF d] .
  have ext: "extends (establish_event c) st st1"
    using json_call.run_extends_to [OF d] .
  show thesis
  proof (cases err)
    case (Some e)
    then show thesis using assms d same ext failed by (auto simp: establish_def)
  next
    case None
    then have del: "tr_ok c \<longrightarrow> (\<exists>rq. delivered J c rq res)" using do_json_delivered [of c] d by blast
    show thesis
    proof (cases "parse_establishment J res")
      case (Inl e)
      then show thesis using assms d None same ext failed by (auto simp: establish_def)
    next
      case (Inr est)
      show thesis
      proof (cases "validate_catalog (Some est) cols :: 'j err option")
        case (Some e)
        then have "r = Some e" "st' = st1" using assms d None Inr by (simp_all add: establish_def)
        then show thesis using failed same ext by simp
      next
        case ok: None
        then have "r = None" "st' = st1\<lparr>st_cache := Some est\<rparr>"
          using assms d None Inr by (auto simp: establish_def)
        then show thesis
          using fetched [OF _ Inr ok] extends_trans [OF ext extends_cache_set] parse_establishment_ok [OF Inr] del
          by simp
      qed
    qed
  qed
qed

interpretation establish_op: client_op "establish_event c" "establish E J c cols" for E J c cols
proof (unfold_locales, goal_cases)
  case (1 st)
  obtain r st' where o: "establish E J c cols st = (r, st')" by (metis surj_pair)
  then show ?case by (rule establish_cases) (simp_all add: o)
qed

lemma establish_failed_cache: "establish E J c cols st = (Some e, st') \<Longrightarrow> st_cache st' = st_cache st"
  by (erule establish_cases) simp_all

lemma establish_None_cache: "establish E J c cols st = (None, st') \<Longrightarrow> \<exists>est. st_cache st' = Some est \<and> establishment_ok est"
  by (erule establish_cases) (simp_all add: parse_establishment_ok)

text \<open>A successful Establish ends with the answer to a request of its own.\<close>

lemma establish_answer:
  assumes "establish E J c cols st = (None, st')" "tr_ok c"
  shows "\<exists>evs rq res est. st_trace st' = st_trace st @ evs @ [Sent rq] \<and> delivered J c rq res
    \<and> json_request ''GET'' (establish_url c) None True rq \<and> parse_establishment J res = Inr est
    \<and> st_cache st' = Some est"
proof -
  obtain res err st1 where d: "do_json E J c ''GET'' (cf_establishment_url (cl_cfg c))
      (api_prefix @ ''/establish'') None [] True st = ((res, err), st1)" by (metis surj_pair)
  then obtain est where "err = None" "parse_establishment J res = Inr est" "st' = st1\<lparr>st_cache := Some est\<rparr>"
    using assms(1) by (auto simp: establish_def split: option.splits sum.splits)
  then show ?thesis using do_json_answer [of E J c] d assms(2) by fastforce
qed

lemma ensure_established_frame:
  assumes "ensure_established E J c st = (r, st')"
  shows "extends (establish_event c) st st'"
    "r = Inr est \<Longrightarrow> st_cache st' = Some est"
    "r = Inl e \<Longrightarrow> st_cache st = None \<and> st_cache st' = None"
    "st_cache st = Some est' \<Longrightarrow> r = Inr est' \<and> st' = st"
proof -
  have "extends (establish_event c) st st' \<and> (r = Inr est \<longrightarrow> st_cache st' = Some est)
    \<and> (r = Inl e \<longrightarrow> st_cache st = None \<and> st_cache st' = None)
    \<and> (st_cache st = Some est' \<longrightarrow> r = Inr est' \<and> st' = st)"
  proof (cases "st_cache st")
    case None
    obtain r1 st1 where o: "establish E J c [] st = (r1, st1)" by (metis surj_pair)
    then show ?thesis
      by (rule establish_cases) (use assms None o in \<open>auto simp: ensure_established_def\<close>)
  qed (use assms in \<open>auto simp: ensure_established_def\<close>)
  then show "extends (establish_event c) st st'" "r = Inr est \<Longrightarrow> st_cache st' = Some est"
    "r = Inl e \<Longrightarrow> st_cache st = None \<and> st_cache st' = None"
    "st_cache st = Some est' \<Longrightarrow> r = Inr est' \<and> st' = st" by blast+
qed

interpretation ensure_op: client_op "establish_event c" "ensure_established E J c" for E J c
proof (unfold_locales, goal_cases)
  case (1 st)
  obtain r st' where "ensure_established E J c st = (r, st')" by (metis surj_pair)
  then show ?case using ensure_established_frame(1) by (metis snd_conv)
qed

text \<open>The base address of the establishment server; the panic branch is never taken.\<close>

lemma establishment_base_frame:
  assumes "establishment_base E J c st = (r, st')"
  shows "extends (establish_event c) st st'" "r = Inl e \<Longrightarrow> establish E J c [] st = (Some e, st')"
    "r = Inr b \<Longrightarrow> \<exists>est. st_cache st' = Some est"
proof -
  have "extends (establish_event c) st st' \<and> (r = Inl e \<longrightarrow> establish E J c [] st = (Some e, st'))
    \<and> (r = Inr b \<longrightarrow> (\<exists>est. st_cache st' = Some est))"
  proof (cases "st_cache st")
    case None
    obtain r1 st1 where o: "establish E J c [] st = (r1, st1)" by (metis surj_pair)
    then show ?thesis
      by (rule establish_cases) (use assms None o in \<open>auto simp: establishment_base_def Let_def split: if_splits\<close>)
  qed (use assms in \<open>auto simp: establishment_base_def Let_def split: if_splits\<close>)
  then show "extends (establish_event c) st st'" "r = Inl e \<Longrightarrow> establish E J c [] st = (Some e, st')"
    "r = Inr b \<Longrightarrow> \<exists>est. st_cache st' = Some est" by blast+
qed

text \<open>Any request of a client operation that must be authorised is.\<close>

fun event_authorised :: "event \<Rightarrow> bool" where
  "event_authorised (Sent rq) = authorised rq"
| "event_authorised _ = True"

lemma json_event_authorised: "json_event meth url body True ev \<Longrightarrow> event_authorised ev"
  by (cases ev) (auto simp: json_request_def)

lemma establish_authorised [op_intro]: "client_op event_authorised (establish E J c cols)"
  by (rule op_mono [OF establish_op.client_op_axioms]) (rule json_event_authorised)

lemma ensure_authorised [op_intro]: "client_op event_authorised (ensure_established E J c)"
  by (rule op_mono [OF ensure_op.client_op_axioms]) (rule json_event_authorised)

lemma base_authorised [op_intro]: "client_op event_authorised (establishment_base E J c)"
proof (unfold_locales, goal_cases)
  case (1 st)
  obtain r st' where b: "establishment_base E J c st = (r, st')" by (metis surj_pair)
  show ?case
    using extends_mono [OF establishment_base_frame(1) [OF b] json_event_authorised] b by simp
qed

lemma json_authorised [op_intro]: "client_op event_authorised (do_json E J c meth base path body ct True)"
  by (rule op_mono [OF json_call.client_op_axioms]) (rule json_event_authorised)

lemma wait_authorised [op_intro]: "client_op event_authorised (wait_timer E d)"
  by unfold_locales (auto simp: wait_timer_def log_event_def extends_def cache_ok_def split: prod.splits)

interpretation schema_op: client_op event_authorised "schema E J c collection version" for E J c collection version
  unfolding schema_def by (intro op_intro)

section \<open>A scripted network for the witnesses\<close>

text \<open>The world is the list of the coming outcomes with the bytes each takes from the body.\<close>

type_synonym script = "((string + response) \<times> nat) list"

fun script_http :: "script http" where
  "script_http rq [] = (Inl ''refused'', 0, [])"
| "script_http rq ((out, n) # w) = (out, n, w)"

definition script_env :: "script env" where
  "script_env = \<lparr>en_default_http = script_http, en_new_request = (\<lambda>m u. None),
     en_wait = (\<lambda>d w. (None, w)), en_ulid = (\<lambda>w. (''01ULID'', w)),
     en_boundary = (\<lambda>w. (''b0'', w)), en_reads_content = (\<lambda>rq w. True)\<rparr>"

definition script_config :: "(js, script) config" where
  "script_config = \<lparr>cf_establishment_url = ''http://e'', cf_token = ''t'', cf_token_source = None,
     cf_http_client = None, cf_base_url_rewrite = (\<lambda>_. None), cf_prefer_server = [],
     cf_wrong_machine_retries = 0, cf_transport_retries = 0, cf_create_verify_delay = -1,
     cf_user_agent = []\<rparr>"

definition script_client :: "int \<Rightarrow> int \<Rightarrow> (js, script) client" where
  "script_client wm tr = \<lparr>cl_cfg = script_config, cl_http = script_http, cl_tokens = StaticToken ''t'',
     cl_user_agent = ''datorium-client-go'', cl_wm_retries = wm, cl_tr_retries = tr\<rparr>"

definition answer :: "string \<Rightarrow> (string + response) \<times> nat" where
  "answer text = (Inr \<lparr>rp_status = 200, rp_headers = [], rp_body = text, rp_read_error = None\<rparr>, 1000)"

definition lost :: "(string + response) \<times> nat" where
  "lost = (Inl ''connection reset'', 1000)"

definition wrong_machine_doc :: js where
  "wrong_machine_doc = JObj [(''ok'', JBool False), (''errors'', JArr [JObj [(''code'', JStr ''wrongMachine'')]])]"

definition script_reader :: "string \<Rightarrow> string + js" where
  "script_reader t = (case map_of [(''E'', sample_env), (''W'', wrong_machine_doc),
      (''K'', JObj [(''ok'', JBool True)]), (''S'', JObj [(''ok'', JBool True), (''sot'', JObj [(''#'', JStr ''v1'')])]),
      (''X'', JObj [(''ok'', JBool False), (''errors'', JArr [JObj [(''code'', JStr ''documentExists'')]])]),
      (''1'', JObj [(''ok'', JBool True), (''sot'', JObj [(''next'', JStr ''@__Todos__abcdef.2'')])]),
      (''2'', JObj [(''ok'', JBool True), (''sot'', JObj [(''next'', JStr ''@__Todos__abcdef.3'')])]),
      (''3'', JObj [(''ok'', JBool True), (''sot'', JObj [])]),
      (''V'', JObj [(''ok'', JBool False), (''errors'', JArr [JObj [(''code'', JStr ''versionMismatch'')]])])] t of
     None \<Rightarrow> Inl ''bad json'' | Some v \<Rightarrow> Inr v)"

abbreviation SJ :: "js ojson" where "SJ \<equiv> sample_json script_reader"

definition script_state :: "js establishment option \<Rightarrow> script \<Rightarrow> (js, script) state" where
  "script_state cache w = \<lparr>st_cache = cache, st_trace = [], st_world = w\<rparr>"

lemma trim_t: "trim_space ''t'' = ''t''"
  by (rule trim_space_no_blank) (simp_all add: is_space_def)

lemma trim_e [simp]: "trim_right (CHR ''/'') ''http://e'' = ''http://e''"
  by (simp add: trim_right_def)

lemma script_bearer: "bearer (script_client wm tr) st = (Inr ''t'', st)"
  by (simp add: bearer_def script_client_def trim_t trim_prefix_def)

lemma read_answer:
  "length t \<le> 10 \<Longrightarrow> read_response J \<lparr>rp_status = 200, rp_headers = [], rp_body = t, rp_read_error = None\<rparr>
     = (case decode_result J t of Inl e \<Rightarrow> Inl (ETransport 200 t (Some e)) | Inr res \<Rightarrow> Inr res)"
  by (cases "decode_result J t") (simp_all add: read_response_def Let_def max_response_body_bytes_def)

definition json_rq :: "(js, script) client \<Rightarrow> string \<Rightarrow> string \<Rightarrow> string \<Rightarrow> string \<Rightarrow> string option \<Rightarrow> request" where
  "json_rq c meth base path ct body = \<lparr>rq_method = meth, rq_url = trim_right (CHR ''/'') base @ path,
     rq_headers = base_headers c ct @ [(''Authorization'', ''Bearer t'')], rq_body = body,
     rq_body_error = None\<rparr>"

text \<open>One attempt against the script.\<close>

lemma script_once:
  "do_json_once script_env J (script_client wm tr) meth base path body ct True st =
     (case st_world st of
        [] \<Rightarrow> ((zero_result J, Some (ETransport 0 [] (Some (EExt ''refused'')))), map_option (drop 0) body,
               st\<lparr>st_trace := st_trace st @ [Sent (json_rq (script_client wm tr) meth base path ct body)]\<rparr>)
      | (out, n) # w \<Rightarrow>
          (case out of
             Inl e \<Rightarrow> (zero_result J, Some (ETransport 0 [] (Some (EExt e))))
           | Inr rp \<Rightarrow> (case read_response J rp of Inl e \<Rightarrow> (zero_result J, Some e) | Inr res \<Rightarrow> (res, None)),
           map_option (drop n) body,
           st\<lparr>st_world := w, st_trace := st_trace st @ [Sent (json_rq (script_client wm tr) meth base path ct body)]\<rparr>))"
proof -
  have http: "cl_http (script_client wm tr) = script_http" by (simp add: script_client_def)
  show ?thesis
    by (cases "st_world st")
      (auto simp: do_json_once_def script_env_def auth_header_def script_bearer http_do_def log_event_def
        Let_def json_rq_def http split: sum.splits)
qed

lemma script_wait: "wait_timer script_env d st = (None, log_event (Waited d) st)"
  by (simp add: wait_timer_def script_env_def)

lemma script_loop:
  "i < attempts \<Longrightarrow> do_json_loop script_env J (script_client wm tr) meth base path body ct True attempts i le st =
     (case do_json_once script_env J (script_client wm tr) meth base path body ct True st of
        ((res, None), body', st') \<Rightarrow> ((res, None), st')
      | ((res, Some e), body', st') \<Rightarrow>
          if \<not> as_transport e then ((zero_result J, Some e), st')
          else do_json_loop script_env J (script_client wm tr) meth base path body' ct True attempts (i + 1) (Some e)
            (if i + 1 < attempts then log_event (Waited (backoff i)) st' else st'))"
  by (subst do_json_loop.simps) (auto simp: script_wait split: prod.splits option.splits)

lemma script_loop_end:
  "do_json_loop E J c meth base path body ct auth attempts attempts le st = ((zero_result J, le), st)"
  by (simp add: do_json_loop.simps)

lemma script_do_json_one:
  "do_json script_env J (script_client wm 0) meth base path body ct True st =
     (case do_json_once script_env J (script_client wm 0) meth base path body ct True st of
        ((res, None), body', st') \<Rightarrow> ((res, None), st')
      | ((res, Some e), body', st') \<Rightarrow> ((zero_result J, Some e), st'))"
  using script_loop_end [of script_env J "script_client wm 0" meth base path _ ct True 1]
  by (simp add: do_json_def script_client_def [of wm 0] script_loop [of 0 1, unfolded script_client_def]
      split: prod.splits option.splits)

section \<open>Properties\<close>

text \<open>C31: The retry schedule of a JSON request. With a retry count n at or above zero, whatever the
  network does, the loop hands at most n + 1 requests to the transport, all with the method and
  address asked for and each with a suffix of the given body; the timers it awaits are 100 ms,
  200 ms, and so on, at most n of them and one between two requests; what is sent before the first
  timer carries the whole body; and the establishment cache is untouched.\<close>

theorem do_json_schedule:
  assumes "tr_ok c" "do_json E J c meth base path body ct auth st = (out, st')"
  shows "\<exists>evs. st_trace st' = st_trace st @ evs \<and> st_cache st' = st_cache st
    \<and> int (length (sents evs)) \<le> cl_tr_retries c + 1
    \<and> int (length (waits evs)) \<le> cl_tr_retries c \<and> length (sents evs) \<le> length (waits evs) + 1
    \<and> (\<forall>pre rq post. evs = pre @ Sent rq # post \<and> waits pre = [] \<longrightarrow> rq_body rq = body)
    \<and> (\<forall>k < length (waits evs). waits evs ! k = int64_wrap (100000000 * (int k + 1)))
    \<and> (\<forall>rq \<in> set (sents evs). rq_method rq = meth \<and> rq_url rq = trim_right (CHR ''/'') base @ path
         \<and> (\<exists>n. rq_body rq = map_option (drop n) body))"
proof -
  have sent: "rq \<in> set (sents evs) \<Longrightarrow> Sent rq \<in> set evs" for rq evs
    by (induction evs rule: sents.induct) auto
  obtain evs where "st_cache st' = st_cache st" "st_trace st' = st_trace st @ evs"
    and log: "retry_log meth (trim_right (CHR ''/'') base @ path) body auth 0 (cl_tr_retries c + 1) evs"
    using do_json_frame [OF assms(2)] assms(1) by (auto simp: attempts_positive tr_ok_def)
  moreover have "int (length (waits evs)) \<le> cl_tr_retries c" "int (length (sents evs)) \<le> cl_tr_retries c + 1"
    using log assms(1) by (cases "evs = []"; auto simp: retry_log_def tr_ok_def)+
  moreover have "json_request meth (trim_right (CHR ''/'') base @ path) body auth rq" if "rq \<in> set (sents evs)" for rq
    using sent [OF that] log by (auto simp: retry_log_def list_all_iff)
  moreover have "length (sents evs) \<le> length (waits evs) + 1" using log by (simp add: retry_log_def)
  moreover have "rq_body rq = body" if "evs = pre @ Sent rq # post" "waits pre = []" for pre rq post
  proof -
    have "until_wait evs = pre @ Sent rq # until_wait post"
      using that(2) unfolding that(1) by (induction pre rule: waits.induct) auto
    then show ?thesis using log by (simp add: retry_log_def)
  qed
  moreover have "waits evs = map (\<lambda>k. backoff (int k)) [0..<length (waits evs)]"
    using log by (simp add: retry_log_def)
  then have "waits evs ! k = int64_wrap (100000000 * (int k + 1))" if "k < length (waits evs)" for k
    using that by (metis add_0 backoff_def length_map mult.commute nth_map nth_upt length_upt minus_nat.diff_0)
  ultimately show ?thesis by (auto simp: json_request_def)
qed

text \<open>C32: A nil error of a JSON request means a delivered response. With a sound retry count the
  result is the decoding of a response with a 2xx status whose whole body was read without
  error, is at most 8 MiB and is a JSON object; a failed request gives the zero result.\<close>

theorem do_json_result:
  assumes "tr_ok c" "do_json E J c meth base path body ct auth st = ((res, err), st')"
  shows "case err of
      None \<Rightarrow> (\<exists>rq w rp n w'. last (st_trace st') = Sent rq \<and> cl_http c rq w = (Inr rp, n, w')
        \<and> 200 \<le> rp_status rp \<and> rp_status rp < 300 \<and> length (rp_body rp) \<le> max_response_body_bytes
        \<and> rp_read_error rp = None \<and> decode_result J (rp_body rp) = Inr res \<and> oj_is_object J (rs_env res))
    | Some e \<Rightarrow> res = zero_result J"
proof (cases err)
  case None
  obtain rq w rp n w' where
    "last (st_trace st') = Sent rq" "cl_http c rq w = (Inr rp, n, w')" "read_response J rp = Inr res"
    using do_json_delivered [OF assms(1) assms(2) [unfolded None]] unfolding delivered_def by blast
  moreover from this(3) have "oj_is_object J (rs_env res)"
    using decode_result_Inr read_response_Inr(5) by blast
  ultimately show ?thesis using None read_response_Inr [of J rp res] by auto
next
  case (Some e)
  then show ?thesis using assms(2) do_json_error_zero [of E J c meth base path body ct auth _ 0 None st res e st']
    by (simp add: do_json_def)
qed

text \<open>The retry count of the configuration is used as it is. When it is negative, or so large
  that adding one wraps around, the loop does not run: nothing is sent and the caller gets the
  zero result with a nil error.\<close>

lemma do_json_silent:
  assumes "- (2 ^ 63) \<le> cl_tr_retries c" "cl_tr_retries c \<le> max_int64" "\<not> tr_ok c"
  shows "do_json E J c meth base path body ct auth st = ((zero_result J, None), st)"
proof -
  have "int64_wrap (cl_tr_retries c + 1) \<le> 0"
  proof (cases "cl_tr_retries c = max_int64")
    case True
    then show ?thesis by (simp add: int64_wrap_overflow)
  next
    case False
    then have "cl_tr_retries c < 0" using assms by (simp add: tr_ok_def)
    then show ?thesis using assms by (simp add: max_int64_def)
  qed
  then show ?thesis by (simp add: do_json_def do_json_loop.simps)
qed

text \<open>A retry sends what the failed attempt left of the body. After a lost connection that had
  consumed a body of at most 1000 bytes, the second attempt of a one-retry client sends the same
  request with an empty body.\<close>

lemma retry_loses_body:
  assumes "length body \<le> 1000"
  shows "map rq_body (sents (st_trace (snd (do_json script_env SJ (script_client 3 1) ''POST'' base path (Some body) ct True
      (script_state None [lost, answer ''K''])))))
    = [Some body, Some []]"
proof -
  have tr: "int64_wrap (cl_tr_retries (script_client 3 1) + 1) = 2" by (simp add: script_client_def)
  show ?thesis
    using assms
    by (simp add: do_json_def tr script_loop script_once script_state_def lost_def answer_def log_event_def
        json_rq_def read_answer decode_result_def script_reader_def Let_def)
qed

lemma script_tr_ok: "0 \<le> tr \<Longrightarrow> tr < max_int64 \<Longrightarrow> tr_ok (script_client wm tr)"
  by (simp add: tr_ok_def script_client_def)

lemma script_two:
  "do_json script_env SJ (script_client 3 1) ''GET'' ''http://e'' ''/p'' None [] True (script_state None [lost, answer ''K''])
   = ((\<lparr>rs_ok = True, rs_errors = [], rs_env = JObj [(''ok'', JBool True)], rs_body = ''K''\<rparr>, None),
      \<lparr>st_cache = None,
       st_trace = [Sent (json_rq (script_client 3 1) ''GET'' ''http://e'' ''/p'' [] None), Waited (backoff 0),
                   Sent (json_rq (script_client 3 1) ''GET'' ''http://e'' ''/p'' [] None)], st_world = []\<rparr>)"
proof -
  have tr: "int64_wrap (cl_tr_retries (script_client 3 1) + 1) = 2" by (simp add: script_client_def)
  show ?thesis
    by (simp add: do_json_def tr script_loop script_once script_state_def lost_def answer_def log_event_def
        read_answer decode_result_def script_reader_def Let_def)
qed

theorem do_json_schedule_witness:
  "waits [Sent (json_rq (script_client 3 1) ''GET'' ''http://e'' ''/p'' [] None), Waited (backoff 0),
      Sent (json_rq (script_client 3 1) ''GET'' ''http://e'' ''/p'' [] None)] ! 0 = 100000000"
proof -
  have "tr_ok (script_client 3 1)" by (rule script_tr_ok) (simp_all add: max_int64_def)
  from do_json_schedule [OF this script_two] have "backoff 0 = int64_wrap (100000000 * (int 0 + 1))"
    by (simp add: script_state_def script_client_def)
  then show ?thesis by (simp add: int64_wrap_def)
qed

theorem do_json_result_witness:
  "\<exists>rq w rp n w'. script_http rq w = (Inr rp, n, w') \<and> 200 \<le> rp_status rp \<and> rp_status rp < 300
     \<and> decode_result SJ (rp_body rp)
        = Inr \<lparr>rs_ok = True, rs_errors = [], rs_env = JObj [(''ok'', JBool True)], rs_body = ''K''\<rparr>"
proof -
  have "tr_ok (script_client 3 1)" by (rule script_tr_ok) (simp_all add: max_int64_def)
  from do_json_result [OF this script_two] show ?thesis
    by (simp add: script_client_def) blast
qed

text \<open>C8: Fetching the establishment document is all or nothing. Establish fails and leaves the
  cache as it was, or succeeds and the cache holds a document that a delivered ok:true response
  decodes to, that is well-formed (its shard map empty or covering every slot once), and that
  passes the catalog check for the collections the caller declared.\<close>

theorem establish_atomic:
  assumes "establish E J c cols st = (r, st')"
  shows "(r \<noteq> None \<longrightarrow> st_cache st' = st_cache st)
    \<and> (r = None \<longrightarrow> (\<exists>res est. st_cache st' = Some est \<and> rs_ok res \<and> parse_establishment J res = Inr est
         \<and> establishment_ok est \<and> (tr_ok c \<longrightarrow> (\<exists>rq. delivered J c rq res))
         \<and> (\<forall>col. Some col \<in> set cols \<longrightarrow>
              map_option sc_version (map_of (es_schemas est) (cr_name col)) = Some (cr_version col))))"
  using assms
proof (cases rule: establish_cases)
  case (fetched res est)
  have "rs_ok res" by (rule parse_establishment_Inr [OF fetched(2)])
  moreover have "catalog_mismatches est cols = []"
    using fetched(3) by (cases "cols = []") (auto simp: validate_catalog_def Let_def split: if_splits)
  ultimately show ?thesis
    using fetched parse_establishment_ok [OF fetched(2)] by (auto simp: catalog_mismatches_Nil col_mismatch_None)
qed simp

lemma script_establish:
  "establish script_env SJ (script_client wm 0) [] (script_state cache [answer ''E''])
   = (None, \<lparr>st_cache = Some sample_est, st_trace = [Sent (json_rq (script_client wm 0) ''GET'' ''http://e''
        (api_prefix @ ''/establish'') [] None)], st_world = []\<rparr>)"
proof -
  have "decode_result SJ ''E'' = Inr \<lparr>rs_ok = True, rs_errors = [], rs_env = sample_env, rs_body = ''E''\<rparr>"
    by (simp add: decode_result_def script_reader_def sample_env_def Let_def)
  moreover have "cf_establishment_url (cl_cfg (script_client wm 0)) = ''http://e''"
    by (simp add: script_client_def script_config_def)
  ultimately show ?thesis
    by (simp add: establish_def script_do_json_one script_once script_state_def answer_def read_answer
        sample_parse_any validate_catalog_def)
qed

theorem establish_atomic_witness:
  "establishment_ok sample_est \<and> (\<exists>rq res. delivered SJ (script_client 3 0) rq res
     \<and> parse_establishment SJ res = Inr sample_est)"
proof -
  have "tr_ok (script_client 3 0)" by (rule script_tr_ok) (simp_all add: max_int64_def)
  then show ?thesis
    using establish_atomic [OF script_establish [of 3 None]] by auto
qed

text \<open>Credentials. A request made with authorization carries a header with a non-empty bearer
  token; a request made without, as those of Health and Ready are, has no Authorization header.\<close>

lemma credentials:
  assumes "do_json E J c meth base path body ct auth st = (out, st')"
    and "Sent rq \<in> set (drop (length (st_trace st)) (st_trace st'))"
  shows "if auth then authorised rq else ''Authorization'' \<notin> fst ` set (rq_headers rq)"
  using json_call.logged_allowed [OF assms] by (auto simp: json_request_def split: if_splits)

text \<open>Construction. New refuses a configuration exactly when the establishment URL is blank or
  there is neither a token source nor a token; otherwise the client has a bounce bound of at
  least one, a non-empty user agent, an establishment URL without trailing slash, and the
  caller's transport retry count unchanged.\<close>

lemma new_client_exact:
  "(case new_client E cfg of
      Inl e \<Rightarrow> trim_space (cf_establishment_url cfg) = [] \<or> cf_token_source cfg = None \<and> cf_token cfg = []
    | Inr c \<Rightarrow> trim_space (cf_establishment_url cfg) \<noteq> [] \<and> \<not> (cf_token_source cfg = None \<and> cf_token cfg = [])
        \<and> 1 \<le> cl_wm_retries c \<and> cl_user_agent c \<noteq> []
        \<and> trim_right (CHR ''/'') (cf_establishment_url (cl_cfg c)) = cf_establishment_url (cl_cfg c)
        \<and> cl_wm_retries c = (if 0 < cf_wrong_machine_retries cfg then cf_wrong_machine_retries cfg else 3)
        \<and> cl_tr_retries c = cf_transport_retries cfg)"
  by (auto simp: new_client_def Let_def default_wrong_machine_max_def split: option.splits)

end
