(* ===== verification/Routing.thy ===== *)
theory Routing
  imports Client
begin

text \<open>
  Routing (routing.go): which server a document command and a bucket search go to, from the
  cached establishment document and the configured preference.
\<close>

section \<open>Data\<close>

text \<open>\<open>RouteKind\<close> is a Go \<open>int\<close>; a value that is neither constant is \<open>RouteOther\<close>.\<close>

datatype route_kind = RouteWrite | RouteRead | RouteOther int

record route =
  rt_server_name :: string
  rt_base_url :: string
  rt_slot :: byte
  rt_slot_hex :: string

fun show_kind :: "route_kind \<Rightarrow> string" where
  "show_kind RouteWrite = ''0''"
| "show_kind RouteRead = ''1''"
| "show_kind (RouteOther i) = show_int i"

section \<open>Choosing a member\<close>

text \<open>A range loop that returns the first name equal to the preference.\<close>

fun find_name :: "string \<Rightarrow> string list \<Rightarrow> string option" where
  "find_name prefer [] = None"
| "find_name prefer (n # ns) = (if n = prefer then Some n else find_name prefer ns)"

definition pick_read_member :: "shard_assignment \<Rightarrow> string \<Rightarrow> string" where
  "pick_read_member a prefer =
     (let fallback = (case sa_read_members a of [] \<Rightarrow> [] | n # _ \<Rightarrow> n) in
      if prefer \<noteq> [] then
        (case find_name prefer (sa_read_members a) of
           Some n \<Rightarrow> n
         | None \<Rightarrow>
             if sa_sot_member a = prefer then
               (case find_name prefer (sa_read_members a) of Some n \<Rightarrow> n | None \<Rightarrow> fallback)
             else fallback)
      else fallback)"

section \<open>Routes\<close>

definition route_document :: "('j, 'w) client \<Rightarrow> 'j establishment \<Rightarrow> string \<Rightarrow> route_kind \<Rightarrow> 'j err + route" where
  "route_document c est document_id kind =
     (if document_id = [] \<or> document_id = ''null'' then
        (let name = (if cf_prefer_server (cl_cfg c) \<noteq> [] then cf_prefer_server (cl_cfg c)
                     else gc_establishment_server (es_general est));
             u = server_base_url (Some est) name;
             u' = (if u = [] then cf_establishment_url (cl_cfg c) else u) in
         Inr \<lparr>rt_server_name = name, rt_base_url = rewrite_url c name u', rt_slot = 0, rt_slot_hex = []\<rparr>)
      else
        (let s = slot document_id in
         case assignment_for_slot (Some est) s of
           None \<Rightarrow> Inl (EMsg ''datorium: no shard assignment for slot %02X'' [hex2 s])
         | Some a \<Rightarrow>
             (case (case kind of
                      RouteWrite \<Rightarrow> Inr (sa_sot_member a)
                    | RouteRead \<Rightarrow> Inr (pick_read_member a (cf_prefer_server (cl_cfg c)))
                    | RouteOther _ \<Rightarrow> Inl (EMsg ''datorium: unknown route kind'' [])) of
                Inl e \<Rightarrow> Inl e
              | Inr name \<Rightarrow>
                  if name = [] then
                    Inl (EMsg ''datorium: no server for slot %02X kind %v'' [hex2 s, show_kind kind])
                  else
                    (let u = server_base_url (Some est) name in
                     if u = [] then Inl (EMsg ''datorium: missing baseURL for server %q'' [name])
                     else Inr \<lparr>rt_server_name = name, rt_base_url = rewrite_url c name u,
                               rt_slot = s, rt_slot_hex = slot_hex document_id\<rparr>))))"

definition route_search :: "('j, 'w) client \<Rightarrow> 'j establishment \<Rightarrow> byte \<Rightarrow> 'j err + route" where
  "route_search c est s =
     (case assignment_for_slot (Some est) s of
        None \<Rightarrow> Inl (EMsg ''datorium: no shard assignment for search slot %02X'' [hex2 s])
      | Some a \<Rightarrow>
          (let prefer = cf_prefer_server (cl_cfg c);
               name = (if prefer \<noteq> [] then
                         (if prefer = sa_sot_member a then prefer
                          else (case find_name prefer (sa_read_members a) of
                                  Some n \<Rightarrow> n | None \<Rightarrow> sa_sot_member a))
                       else sa_sot_member a);
               name' = (case sa_read_members a of
                          n # _ \<Rightarrow> if name = [] then n else name | [] \<Rightarrow> name) in
           if name' = [] then Inl (EMsg ''datorium: no server for search slot %02X'' [hex2 s])
           else
             (let u = server_base_url (Some est) name' in
              if u = [] then Inl (EMsg ''datorium: missing baseURL for server %q'' [name'])
              else Inr \<lparr>rt_server_name = name', rt_base_url = rewrite_url c name' u,
                        rt_slot = s, rt_slot_hex = hex2 s\<rparr>)))"

section \<open>Lemmas\<close>

lemma find_name_eq: "find_name p ns = (if p \<in> set ns then Some p else None)"
  by (induction ns) auto

text \<open>The second loop of \<open>pickReadMember\<close> never finds what the first did not.\<close>

lemma pick_read_member_spec:
  "pick_read_member a prefer =
     (if prefer \<noteq> [] \<and> prefer \<in> set (sa_read_members a) then prefer
      else case sa_read_members a of [] \<Rightarrow> [] | n # _ \<Rightarrow> n)"
  by (simp add: pick_read_member_def Let_def find_name_eq)

lemma pick_read_member_listed:
  "pick_read_member a prefer \<noteq> [] \<Longrightarrow> pick_read_member a prefer \<in> set (sa_read_members a)"
  by (auto simp: pick_read_member_spec split: list.splits if_splits)

text \<open>A route for a document or a search bucket: what the server it names must satisfy.\<close>

definition route_for :: "('j, 'w) client \<Rightarrow> 'j establishment \<Rightarrow> byte \<Rightarrow> string \<Rightarrow> route" where
  "route_for c est s name =
     \<lparr>rt_server_name = name, rt_base_url = rewrite_url c name (server_base_url (Some est) name),
      rt_slot = s, rt_slot_hex = hex2 s\<rparr>"

definition document_member :: "('j, 'w) client \<Rightarrow> shard_assignment \<Rightarrow> route_kind \<Rightarrow> string" where
  "document_member c a kind =
     (if kind = RouteWrite then sa_sot_member a else pick_read_member a (cf_prefer_server (cl_cfg c)))"

lemma route_document_Inr:
  assumes "document_id \<noteq> []" "document_id \<noteq> ''null''"
  shows "route_document c est document_id kind = Inr r \<longleftrightarrow>
    (\<exists>a. assignment_for_slot (Some est) (slot document_id) = Some a \<and> kind \<in> {RouteWrite, RouteRead}
       \<and> document_member c a kind \<noteq> [] \<and> server_base_url (Some est) (document_member c a kind) \<noteq> []
       \<and> r = route_for c est (slot document_id) (document_member c a kind))"
  using assms
  by (cases kind)
    (auto simp: route_document_def Let_def route_for_def document_member_def slot_hex_def
      split: option.splits if_splits)

definition search_member :: "('j, 'w) client \<Rightarrow> shard_assignment \<Rightarrow> string" where
  "search_member c a =
     (let prefer = cf_prefer_server (cl_cfg c) in
      if prefer \<noteq> [] \<and> (prefer = sa_sot_member a \<or> prefer \<in> set (sa_read_members a)) then prefer
      else if sa_sot_member a \<noteq> [] then sa_sot_member a
      else case sa_read_members a of [] \<Rightarrow> [] | n # _ \<Rightarrow> n)"

lemma route_search_Inr:
  "route_search c est s = Inr r \<longleftrightarrow>
    (\<exists>a. assignment_for_slot (Some est) s = Some a
       \<and> search_member c a \<noteq> [] \<and> server_base_url (Some est) (search_member c a) \<noteq> []
       \<and> r = route_for c est s (search_member c a))"
  by (cases "assignment_for_slot (Some est) s")
    (auto simp: route_search_def Let_def route_for_def search_member_def find_name_eq
      split: option.splits list.splits if_splits)

lemma route_document_same_slot:
  assumes "slot x = slot y" "x \<notin> {[], ''null''}" "y \<notin> {[], ''null''}"
  shows "route_document c est x kind = route_document c est y kind"
proof -
  have "slot_hex x = slot_hex y" using assms(1) by (simp add: slot_hex_def)
  moreover have "(x = [] \<or> x = ''null'') = False" "(y = [] \<or> y = ''null'') = False"
    using assms by simp_all
  ultimately show ?thesis
    unfolding route_document_def assms(1) by (simp only: if_False)
qed

section \<open>Properties\<close>

text \<open>C12: Document routing is exact. A command for a real document id goes to the SOT member of the
  assignment of its slot when it writes and to a read member when it reads (the preferred server
  when it is listed, the first one otherwise), at the rewritten address of that server; there is
  a route exactly when the member has a name and an address. A proxy member that is not a read
  member is never chosen for a read.\<close>

theorem route_document_exact:
  assumes "document_id \<noteq> []" "document_id \<noteq> ''null''" "kind \<in> {RouteWrite, RouteRead}"
    "assignment_for_slot (Some est) (slot document_id) = Some a"
  shows "let prefer = cf_prefer_server (cl_cfg c);
      member = (if kind = RouteWrite then sa_sot_member a
        else if prefer \<noteq> [] \<and> prefer \<in> set (sa_read_members a) then prefer
        else case sa_read_members a of [] \<Rightarrow> [] | n # _ \<Rightarrow> n);
      u = server_base_url (Some est) member in
    ((\<exists>r. route_document c est document_id kind = Inr r) \<longleftrightarrow> member \<noteq> [] \<and> u \<noteq> [])
    \<and> (\<forall>r. route_document c est document_id kind = Inr r \<longrightarrow>
         rt_server_name r = member \<and> rt_base_url r = rewrite_url c member u
         \<and> rt_slot r = slot document_id \<and> rt_slot_hex r = slot_hex document_id
         \<and> (kind = RouteRead \<longrightarrow> rt_server_name r \<in> set (sa_read_members a)))"
proof -
  have "document_member c a kind = (if kind = RouteWrite then sa_sot_member a
        else if cf_prefer_server (cl_cfg c) \<noteq> [] \<and> cf_prefer_server (cl_cfg c) \<in> set (sa_read_members a)
          then cf_prefer_server (cl_cfg c)
        else case sa_read_members a of [] \<Rightarrow> [] | n # _ \<Rightarrow> n)"
    by (simp add: document_member_def pick_read_member_spec)
  note member = this [symmetric]
  show ?thesis
    unfolding Let_def member
    using assms pick_read_member_listed [of a "cf_prefer_server (cl_cfg c)"]
    by (auto simp: route_document_Inr route_for_def document_member_def slot_hex_def)
qed

lemma script_slot: "slot ''abcdef.1'' = 0xEF"
proof -
  have "runes_of ''abcdef.1'' = map of_char ''abcdef.1''" by (simp add: runes_of_ascii)
  then have "sharding_prefix ''abcdef.1'' = ''abcdef''"
    by (simp add: sharding_prefix_def Let_def char_eval)
  then show ?thesis by (simp add: slot_def crc_eval)
qed

lemma sample_assignments:
  "assignment_for_slot (Some sample_est) 0xEF = Some (sample_assignment ''b'')"
  "assignment_for_slot (Some sample_est) 0 = Some (sample_assignment ''a'')"
  by (simp_all add: assignment_for_slot_def sample_est_def find_assignment_step raw_covers_def range_of_def
      sample_ranges contains_def)

lemma sample_urls:
  "server_base_url (Some sample_est) ''a'' = ''http://a''" "server_base_url (Some sample_est) ''b'' = ''http://b/''"
  by (simp_all add: server_base_url_def sample_est_def)

lemma script_rewrite:
  "rewrite_url (script_client wm tr) n ''http://a'' = ''http://a''"
  "rewrite_url (script_client wm tr) n ''http://b/'' = ''http://b''"
  by (simp_all add: rewrite_url_def script_client_def script_config_def trim_right_def)

lemma script_prefer [simp]: "cf_prefer_server (cl_cfg (script_client wm tr)) = []"
  by (simp add: script_client_def script_config_def)

lemma script_route:
  "route_document (script_client wm tr) sample_est ''abcdef.1'' RouteWrite
     = Inr \<lparr>rt_server_name = ''b'', rt_base_url = ''http://b'', rt_slot = 0xEF, rt_slot_hex = ''EF''\<rparr>"
  "route_document (script_client wm tr) sample_est ''abcdef.1'' RouteRead
     = Inr \<lparr>rt_server_name = ''b'', rt_base_url = ''http://b'', rt_slot = 0xEF, rt_slot_hex = ''EF''\<rparr>"
  by (simp_all add: route_document_Inr script_slot sample_assignments route_for_def document_member_def
      sample_assignment_def sample_urls script_rewrite pick_read_member_spec hex2_def hex_byte_def
      hex_digit_def char_eval)

theorem route_document_exact_witness:
  "\<exists>r. route_document (script_client 3 0) sample_est ''abcdef.1'' RouteRead = Inr r
     \<and> rt_server_name r = ''b'' \<and> rt_base_url r = ''http://b''"
  using route_document_exact [of "''abcdef.1''" RouteRead sample_est "sample_assignment ''b''" "script_client 3 0"]
  by (simp add: script_slot sample_assignments sample_assignment_def sample_urls script_rewrite Let_def) blast

text \<open>Co-located documents share a server. Two ids whose first six or more runes before a period
  are the same are routed to the same place, for reads and for writes, in every establishment
  document.\<close>

lemma colocated_routes:
  assumes "list_all valid_rune p" "6 \<le> length p" "\<forall>j < length p. 6 \<le> j \<longrightarrow> p ! j \<noteq> 0x2E"
  shows "route_document c est (encode_runes p @ CHR ''.'' # x) kind
       = route_document c est (encode_runes p @ CHR ''.'' # y) kind"
proof (rule route_document_same_slot)
  have "q @ CHR ''.'' # z \<noteq> ''null''" for q z
  proof
    assume "q @ CHR ''.'' # z = ''null''"
    then have "CHR ''.'' \<in> set ''null''" by (metis in_set_conv_decomp)
    then show False by simp
  qed
  then show "encode_runes p @ CHR ''.'' # x \<notin> {[], ''null''}" "encode_runes p @ CHR ''.'' # y \<notin> {[], ''null''}"
    by simp_all
qed (simp only: slot_of_colocated [OF assms])

text \<open>C28: Bucket routing. A search goes to the preferred server when it is the SOT member or a read
  member of the bucket's slot, and otherwise to the SOT member, or to the first read member when
  no SOT member is named; it fails exactly when there is no such name or no address for it.\<close>

theorem route_search_exact:
  assumes "assignment_for_slot (Some est) s = Some a"
  shows "let prefer = cf_prefer_server (cl_cfg c);
      name = (if prefer \<noteq> [] \<and> prefer \<in> insert (sa_sot_member a) (set (sa_read_members a)) then prefer
              else if sa_sot_member a \<noteq> [] then sa_sot_member a
              else case sa_read_members a of [] \<Rightarrow> [] | n # _ \<Rightarrow> n) in
    ((\<exists>r. route_search c est s = Inr r) \<longleftrightarrow> name \<noteq> [] \<and> server_base_url (Some est) name \<noteq> [])
    \<and> (\<forall>r. route_search c est s = Inr r \<longrightarrow> rt_server_name r = name \<and> rt_slot r = s
         \<and> rt_base_url r = rewrite_url c name (server_base_url (Some est) name))"
proof -
  have "search_member c a = (if cf_prefer_server (cl_cfg c) \<noteq> [] \<and> cf_prefer_server (cl_cfg c) \<in> insert (sa_sot_member a) (set (sa_read_members a))
      then cf_prefer_server (cl_cfg c) else if sa_sot_member a \<noteq> [] then sa_sot_member a
      else case sa_read_members a of [] \<Rightarrow> [] | n # _ \<Rightarrow> n)"
    by (auto simp: search_member_def Let_def)
  from this [symmetric] show ?thesis
    unfolding Let_def using assms by (auto simp: route_search_Inr route_for_def simp del: insert_iff)
qed

theorem route_search_exact_witness:
  "\<exists>r. route_search (script_client 3 0) sample_est 0 = Inr r \<and> rt_server_name r = ''a''"
  using route_search_exact [of sample_est 0 "sample_assignment ''a''" "script_client 3 0"]
  by (simp add: sample_assignments sample_assignment_def sample_urls Let_def) blast

end
