(* ===== verification/Command.thy ===== *)
theory Command
  imports Routing
begin

text \<open>
  Commands (command.go, ordered_command.go): the four-field command text, operation ids, the
  unrouted command, and the routed one with its \<open>wrongMachine\<close> bounce loop. The loop is also
  given as a state machine (an inductive step relation), which the code's loop refines.
\<close>

section \<open>Command texts\<close>

definition json_field :: "string \<Rightarrow> string" where
  "json_field name = dquote # name @ [dquote, CHR '':'']"

definition marshal_command_request :: "string \<Rightarrow> string \<Rightarrow> string \<Rightarrow> string \<Rightarrow> 'j err + string" where
  "marshal_command_request command target parameter detail_json =
     (case json_marshal (GStr command) of
        Inl e \<Rightarrow> Inl (EExt e)
      | Inr cmd \<Rightarrow>
          (case json_marshal (GStr target) of
             Inl e \<Rightarrow> Inl (EExt e)
           | Inr tgt \<Rightarrow>
               (case json_marshal (GStr parameter) of
                  Inl e \<Rightarrow> Inl (EExt e)
                | Inr parm \<Rightarrow>
                    Inr (CHR ''{'' # json_field ''command'' @ cmd
                         @ CHR '','' # json_field ''target'' @ tgt
                         @ CHR '','' # json_field ''parameter'' @ parm
                         @ CHR '','' # json_field ''detail'' @ detail_json @ ''}''))))"

definition build_command :: "string \<Rightarrow> string \<Rightarrow> string \<Rightarrow> goany \<Rightarrow> 'j err + string" where
  "build_command word target parm detail =
     (if word = [] \<or> target = [] \<or> parm = [] then
        Inl (EMsg ''datorium: word, target, and parm are required'' [])
      else
        (case json_marshal (if detail = GNil then GMap [] else detail) of
           Inl e \<Rightarrow> Inl (EWrap ''datorium: marshal detail: %w'' [] (EExt e))
         | Inr raw \<Rightarrow>
             if length raw = 0 \<or> hd raw \<noteq> CHR ''{'' then
               Inl (EMsg ''datorium: detail must be a JSON object'' [])
             else marshal_command_request word target parm raw))"

definition build_command_ordered :: "'j ojson \<Rightarrow> string \<Rightarrow> string \<Rightarrow> string \<Rightarrow> 'j \<Rightarrow> 'j err + string" where
  "build_command_ordered J word target parm detail =
     (if word = [] \<or> target = [] \<or> parm = [] then
        Inl (EMsg ''datorium: word, target, and parm are required'' [])
      else
        (let detail' = (if oj_is_missing J detail then oj_new_object J else detail) in
         if \<not> oj_is_object J detail' then
           Inl (EMsg ''datorium: detail must be a JSON object, got %s'' [oj_kind J detail'])
         else
           (let raw = oj_json J detail' in
            if length raw = 0 \<or> hd raw \<noteq> CHR ''{'' then
              Inl (EMsg ''datorium: detail must be a JSON object'' [])
            else marshal_command_request word target parm raw)))"

section \<open>Ids\<close>

definition new_ulid :: "'w env \<Rightarrow> ('j, 'w) state \<Rightarrow> string \<times> ('j, 'w) state" where
  "new_ulid E st = (case en_ulid E (st_world st) of (s, w) \<Rightarrow> (s, log_event (Minted s) (st\<lparr>st_world := w\<rparr>)))"

definition new_operation_id :: "'w env \<Rightarrow> ('j, 'w) state \<Rightarrow> string \<times> ('j, 'w) state" where
  "new_operation_id E st = new_ulid E st"

definition new_document_id :: "'w env \<Rightarrow> ('j, 'w) state \<Rightarrow> string \<times> ('j, 'w) state" where
  "new_document_id E st = new_ulid E st"

text \<open>A nil map is the empty map; an entry is added at an arbitrary place.\<close>

definition ensure_operation_id :: "'w env \<Rightarrow> (string \<times> goany) list \<Rightarrow> ('j, 'w) state
    \<Rightarrow> (string \<times> goany) list \<times> ('j, 'w) state" where
  "ensure_operation_id E detail st =
     (case map_of detail ''operationId'' of
        Some _ \<Rightarrow> (detail, st)
      | None \<Rightarrow> (case new_operation_id E st of (s, st') \<Rightarrow> (detail @ [(''operationId'', GStr s)], st')))"

definition ensure_operation_id_value :: "'w env \<Rightarrow> 'j ojson \<Rightarrow> 'j \<Rightarrow> ('j, 'w) state \<Rightarrow> 'j \<times> ('j, 'w) state" where
  "ensure_operation_id_value E J detail st =
     (if \<not> oj_is_object J detail then (detail, st)
      else if \<not> oj_has_field J detail ''operationId'' then
        (case new_operation_id E st of (s, st') \<Rightarrow> (oj_set J detail ''operationId'' (oj_new_string J s), st'))
      else (detail, st))"

section \<open>Posting\<close>

definition post_command :: "'w env \<Rightarrow> 'j ojson \<Rightarrow> ('j, 'w) client \<Rightarrow> string \<Rightarrow> string \<Rightarrow> ('j, 'w) state
    \<Rightarrow> ('j result \<times> 'j err option) \<times> ('j, 'w) state" where
  "post_command E J c base_url body st =
     (let body' = trim_space body in
      if length body' = 0 then ((zero_result J, Some (EMsg ''datorium: empty command'' [])), st)
      else (case do_json E J c ''POST'' base_url (api_prefix @ ''/command'') (Some body') ''application/json'' True st of
              ((res, Some e), st') \<Rightarrow> ((zero_result J, Some e), st')
            | ((res, None), st') \<Rightarrow> ((res, None), st')))"

definition command :: "'w env \<Rightarrow> 'j ojson \<Rightarrow> ('j, 'w) client \<Rightarrow> string \<Rightarrow> string \<Rightarrow> ('j, 'w) state
    \<Rightarrow> ('j result \<times> 'j err option) \<times> ('j, 'w) state" where
  "command E J c base_url body st =
     post_command E J c (if base_url = [] then cf_establishment_url (cl_cfg c) else base_url) body st"

section \<open>The bounce loop\<close>

type_synonym 'j resolver = "'j establishment \<Rightarrow> 'j err + route"

function execute_loop :: "'w env \<Rightarrow> 'j ojson \<Rightarrow> ('j, 'w) client \<Rightarrow> string \<Rightarrow> 'j resolver option
    \<Rightarrow> int \<Rightarrow> string \<Rightarrow> 'j result \<Rightarrow> ('j, 'w) state \<Rightarrow> ('j result \<times> 'j err option) \<times> ('j, 'w) state" where
  "execute_loop E J c body resolve attempt base last_res st =
     (if attempt \<le> cl_wm_retries c then
        (case post_command E J c base body st of
           ((res, Some e), st1) \<Rightarrow> ((zero_result J, Some e), st1)
         | ((res, None), st1) \<Rightarrow>
             if rs_ok res then ((res, None), st1)
             else
               (let ae = app_error_from_result J res in
                if ap_code ae \<noteq> code_wrong_machine then ((res, Some (EApp ae)), st1)
                else if attempt = cl_wm_retries c then ((res, Some (EApp ae)), st1)
                else
                  (case establish E J c [] st1 of
                     (Some e, st2) \<Rightarrow> ((res, Some e), st2)
                   | (None, st2) \<Rightarrow>
                       (case (st_cache st2, resolve) of
                          (Some est, Some route_of) \<Rightarrow>
                            (case route_of est of
                               Inl e \<Rightarrow> ((res, Some e), st2)
                             | Inr route \<Rightarrow>
                                 if rt_base_url route = [] then ((res, Some (EApp ae)), st2)
                                 else execute_loop E J c body resolve (attempt + 1) (rt_base_url route) res st2)
                        | _ \<Rightarrow> ((res, Some (EApp ae)), st2)))))
      else ((last_res, Some (EApp (app_error_from_result J last_res))), st))"
  by pat_completeness auto

termination
  by (relation "measure (\<lambda>(E, J, c, body, resolve, attempt, base, l, st). nat (cl_wm_retries c + 1 - attempt))") auto

declare execute_loop.simps [simp del]

definition execute_routed :: "'w env \<Rightarrow> 'j ojson \<Rightarrow> ('j, 'w) client \<Rightarrow> route \<Rightarrow> string \<Rightarrow> 'j resolver option
    \<Rightarrow> ('j, 'w) state \<Rightarrow> ('j result \<times> 'j err option) \<times> ('j, 'w) state" where
  "execute_routed E J c initial body resolve st =
     execute_loop E J c body resolve 0
       (if rt_base_url initial = [] then cf_establishment_url (cl_cfg c) else rt_base_url initial)
       (zero_result J) st"

section \<open>Command texts determine their fields\<close>

definition command_text :: "string \<Rightarrow> string \<Rightarrow> string \<Rightarrow> string \<Rightarrow> string" where
  "command_text w t p d = CHR ''{'' # json_field ''command'' @ json_quote w
     @ CHR '','' # json_field ''target'' @ json_quote t
     @ CHR '','' # json_field ''parameter'' @ json_quote p
     @ CHR '','' # json_field ''detail'' @ d @ ''}''"

lemma marshal_command_text: "marshal_command_request w t p d = Inr (command_text w t p d)"
  by (simp add: marshal_command_request_def command_text_def)

lemma marshal_command_inj:
  assumes "marshal_command_request w t p d = (Inr b :: 'j err + string)"
    "marshal_command_request w' t' p' d' = (Inr b :: 'k err + string)"
    "utf8_valid w" "utf8_valid w'" "utf8_valid t" "utf8_valid t'" "utf8_valid p" "utf8_valid p'"
  shows "w = w' \<and> t = t' \<and> p = p' \<and> d = d'"
proof -
  have "command_text w t p d = b" "command_text w' t' p' d' = b"
    using assms(1,2) by (simp_all add: marshal_command_text)
  then have "command_text w t p d = command_text w' t' p' d'" by simp
  then have w: "json_quote w @ CHR '','' # json_field ''target'' @ json_quote t
      @ CHR '','' # json_field ''parameter'' @ json_quote p @ CHR '','' # json_field ''detail'' @ d @ ''}''
    = json_quote w' @ CHR '','' # json_field ''target'' @ json_quote t'
      @ CHR '','' # json_field ''parameter'' @ json_quote p' @ CHR '','' # json_field ''detail'' @ d' @ ''}''"
    by (simp add: command_text_def)
  note w = json_text.front_determined [OF assms(3,4) w]
  then have t: "json_quote t
      @ CHR '','' # json_field ''parameter'' @ json_quote p @ CHR '','' # json_field ''detail'' @ d @ ''}''
    = json_quote t'
      @ CHR '','' # json_field ''parameter'' @ json_quote p' @ CHR '','' # json_field ''detail'' @ d' @ ''}''"
    by simp
  note t = json_text.front_determined [OF assms(5,6) t]
  then have p: "json_quote p @ CHR '','' # json_field ''detail'' @ d @ ''}''
    = json_quote p' @ CHR '','' # json_field ''detail'' @ d' @ ''}''"
    by simp
  note p = json_text.front_determined [OF assms(7,8) p]
  with w t show ?thesis by simp
qed

lemma visible_braces: "byte_val (CHR ''{'') < 128" "\<not> is_space (byte_val (CHR ''{''))"
  "byte_val (CHR ''}'') < 128" "\<not> is_space (byte_val (CHR ''}''))"
  by (simp_all add: is_space_def)

lemma trim_command [simp]: "trim_space (command_text w t p d) = command_text w t p d" "command_text w t p d \<noteq> []"
proof -
  obtain m where "command_text w t p d = CHR ''{'' # m @ [CHR ''}'']"
    by (simp add: command_text_def)
  then show "trim_space (command_text w t p d) = command_text w t p d" "command_text w t p d \<noteq> []"
    using trim_space_framed [OF visible_braces, of m] by simp_all
qed

lemma build_command_Inr:
  "build_command w t p d = (Inr b :: 'j err + string) \<longleftrightarrow> w \<noteq> [] \<and> t \<noteq> [] \<and> p \<noteq> []
     \<and> (\<exists>raw. json_marshal (if d = GNil then GMap [] else d) = Inr (CHR ''{'' # raw)
          \<and> marshal_command_request w t p (CHR ''{'' # raw) = (Inr b :: 'j err + string))"
proof -
  have hd: "length raw \<noteq> 0 \<and> hd raw = CHR ''{'' \<longleftrightarrow> (\<exists>r. raw = CHR ''{'' # r)" for raw
    by (cases raw) auto
  show ?thesis
    using hd
    by (cases "json_marshal (if d = GNil then GMap [] else d)") (auto simp: build_command_def simp del: json_marshal.simps)
qed

lemma build_command_trim: "build_command w t p d = Inr b \<Longrightarrow> trim_space b = b \<and> b \<noteq> []"
  by (auto simp: build_command_Inr marshal_command_text)

lemma build_command_ordered_Inr:
  "build_command_ordered J w t p d = (Inr b :: 'j err + string) \<Longrightarrow> w \<noteq> [] \<and> t \<noteq> [] \<and> p \<noteq> []
     \<and> marshal_command_request w t p (oj_json J (if oj_is_missing J d then oj_new_object J else d)) = (Inr b :: 'j err + string)"
  by (auto simp: build_command_ordered_def Let_def split: if_splits)

lemma build_command_ordered_trim: "build_command_ordered J w t p d = Inr b \<Longrightarrow> trim_space b = b \<and> b \<noteq> []"
  by (drule build_command_ordered_Inr) (auto simp: marshal_command_text)

section \<open>Properties\<close>

text \<open>C29: A command text determines the command. When two commands with UTF-8 fields build the same
  text they have the same word, target and parameter, and their details marshal to the same
  bytes: no field can be made to look like another, whatever quotes or braces it contains.\<close>

theorem command_text_injective:
  assumes "build_command w t p d = (Inr b :: 'j err + string)"
    "build_command w' t' p' d' = (Inr b :: 'j err + string)"
    "list_all utf8_valid [w, t, p, w', t', p']"
  shows "w = w' \<and> t = t' \<and> p = p'
    \<and> json_marshal (if d = GNil then GMap [] else d) = json_marshal (if d' = GNil then GMap [] else d')"
proof -
  obtain raw where raw: "json_marshal (if d = GNil then GMap [] else d) = Inr (CHR ''{'' # raw)"
    "marshal_command_request w t p (CHR ''{'' # raw) = (Inr b :: 'j err + string)"
    using assms(1) by (simp add: build_command_Inr) blast
  obtain raw' where raw': "json_marshal (if d' = GNil then GMap [] else d') = Inr (CHR ''{'' # raw')"
    "marshal_command_request w' t' p' (CHR ''{'' # raw') = (Inr b :: 'j err + string)"
    using assms(2) by (simp add: build_command_Inr) blast
  show ?thesis using marshal_command_inj [OF raw(2) raw'(2)] raw(1) raw'(1) assms(3) by simp
qed

theorem command_text_injective_witness:
  "\<exists>b. build_command ''read'' ''Users'' ''a\",\"x'' GNil = (Inr b :: unit err + string)
     \<and> build_command ''read'' ''Users'' ''a\",\"x'' (GMap []) = (Inr b :: unit err + string)
     \<and> json_marshal (if (GNil :: goany) = GNil then GMap [] else GNil) = json_marshal (if GMap [] = GNil then GMap [] else GMap [])"
proof -
  obtain b where b: "build_command ''read'' ''Users'' ''a\",\"x'' GNil = (Inr b :: unit err + string)"
    "build_command ''read'' ''Users'' ''a\",\"x'' (GMap []) = (Inr b :: unit err + string)"
    by (simp add: build_command_def json_object_def marshal_command_text)
  have "list_all utf8_valid [''read'', ''Users'', ''a\",\"x'', ''read'', ''Users'', ''a\",\"x'']" by (simp add: utf8_valid_ascii)
  with command_text_injective [OF b] b show ?thesis by blast
qed

text \<open>Marshalling a detail map does not depend on the order of the map's entries: a retry that
  marshals an equal map again sends the same bytes.\<close>

lemma command_map_order:
  assumes "distinct (map fst kvs)" "mset kvs = mset kvs'"
  shows "build_command w t p (GMap kvs) = build_command w t p (GMap kvs')"
  by (simp only: build_command_def json_marshal_map_order [OF assms] goany.distinct if_False)

end
