(* ===== verification/Bounce.thy ===== *)
theory Bounce
  imports Command
begin

text \<open>
  The \<open>wrongMachine\<close> bounce loop of \<open>executeRouted\<close> as a state machine: its step relation, the
  invariants of the reachable states, and the refinement of the machine by the loop. The lemmas
  on routed commands that the operations use are derived from it.
\<close>

section \<open>Posting one command\<close>

abbreviation command_url :: "string \<Rightarrow> string" where
  "command_url base \<equiv> trim_right (CHR ''/'') base @ api_prefix @ ''/command''"

text \<open>
  What a routed command may log: the requests for a fresh establishment document, and authorised
  posts of (a suffix of) the command to one of the given bases.
\<close>

definition command_event :: "('j, 'w) client \<Rightarrow> string \<Rightarrow> (string \<Rightarrow> bool) \<Rightarrow> event \<Rightarrow> bool" where
  "command_event c body bases ev \<longleftrightarrow> establish_event c ev
     \<or> (\<exists>b. bases b \<and> json_event ''POST'' (command_url b) (Some (trim_space body)) True ev)"

lemma command_event_authorised: "command_event c body bases ev \<Longrightarrow> event_authorised ev"
  by (auto simp: command_event_def dest: json_event_authorised)

lemma post_command_frame:
  assumes "post_command E J c base body st = ((res, err), st')"
  shows "st_cache st' = st_cache st"
    "extends (json_event ''POST'' (command_url base) (Some (trim_space body)) True) st st'"
    "err = Some e \<Longrightarrow> res = zero_result J"
    "err = None \<Longrightarrow> rs_ok res \<Longrightarrow> \<exists>rq. delivered J c rq res"
    "err = None \<Longrightarrow> tr_ok c \<Longrightarrow> \<exists>rq. delivered J c rq res"
proof -
  have "st_cache st' = st_cache st
    \<and> extends (json_event ''POST'' (command_url base) (Some (trim_space body)) True) st st'
    \<and> (err = Some e \<longrightarrow> res = zero_result J) \<and> (err = None \<and> rs_ok res \<longrightarrow> (\<exists>rq. delivered J c rq res))
    \<and> (err = None \<and> tr_ok c \<longrightarrow> (\<exists>rq. delivered J c rq res))"
  proof (cases "trim_space body = []")
    case True
    then show ?thesis using assms by (auto simp: post_command_def Let_def)
  next
    case False
    obtain res1 err1 st1 where d: "do_json E J c ''POST'' base (api_prefix @ ''/command'') (Some (trim_space body))
        ''application/json'' True st = ((res1, err1), st1)" by (metis surj_pair)
    have del: "\<exists>rq. delivered J c rq res1" if n: "err1 = None" "rs_ok res1 \<or> tr_ok c"
      using do_json_ok_delivered [OF d [unfolded n(1)] n(2)] .
    note frame = json_call.cache_same [OF d] json_call.run_extends_to [OF d]
    show ?thesis
    proof (cases err1)
      case None
      then have "st' = st1 \<and> err = None \<and> res = res1"
        using assms d False by (simp add: post_command_def Let_def)
      then show ?thesis using frame del None by simp
    next
      case (Some e1)
      then have "st' = st1 \<and> err = Some e1 \<and> res = zero_result J"
        using assms d False by (simp add: post_command_def Let_def)
      then show ?thesis using frame by simp
    qed
  qed
  then show "st_cache st' = st_cache st"
    "extends (json_event ''POST'' (command_url base) (Some (trim_space body)) True) st st'"
    "err = Some e \<Longrightarrow> res = zero_result J"
    "err = None \<Longrightarrow> rs_ok res \<Longrightarrow> \<exists>rq. delivered J c rq res"
    "err = None \<Longrightarrow> tr_ok c \<Longrightarrow> \<exists>rq. delivered J c rq res" by blast+
qed

text \<open>An accepted post is the answer to the last request of the log, a post of this command.\<close>

lemma post_command_answer:
  assumes "post_command E J c base body st = ((res, None), st')" "rs_ok res"
  shows "\<exists>evs rq. st_trace st' = st_trace st @ evs @ [Sent rq] \<and> delivered J c rq res
    \<and> json_request ''POST'' (command_url base) (Some (trim_space body)) True rq
    \<and> (cl_tr_retries c = 0 \<longrightarrow> rq_body rq = Some (trim_space body))"
proof -
  obtain res1 err1 st1 where d: "do_json E J c ''POST'' base (api_prefix @ ''/command'') (Some (trim_space body))
      ''application/json'' True st = ((res1, err1), st1)" by (metis surj_pair)
  then have "err1 = None \<and> res1 = res \<and> st1 = st'"
    using assms(1) by (cases err1) (auto simp: post_command_def Let_def split: if_splits)
  then show ?thesis using do_json_answer [of E J c] d assms(2) by blast
qed

interpretation post_op: request_op "json_event ''POST'' (command_url base) (Some (trim_space body)) True"
  "post_command E J c base body" for E J c base body
proof (unfold_locales, goal_cases)
  case (1 st)
  obtain res err st' where "post_command E J c base body st = ((res, err), st')" by (metis surj_pair)
  then show ?case using post_command_frame(2) by (metis snd_conv)
next
  case (2 st)
  obtain res err st' where "post_command E J c base body st = ((res, err), st')" by (metis surj_pair)
  then show ?case using post_command_frame(1) by (metis snd_conv)
qed

section \<open>Counting requests\<close>

definition sent_count :: "('j, 'w) state \<Rightarrow> int" where
  "sent_count st = int (length (sents (st_trace st)))"

definition attempts_max :: "('j, 'w) client \<Rightarrow> int" where
  "attempts_max c = max 0 (int64_wrap (cl_tr_retries c + 1))"

lemma do_json_count:
  "do_json E J c meth base path body ct auth st = (out, st') \<Longrightarrow> sent_count st' \<le> sent_count st + attempts_max c"
  using do_json_frame [of E J c meth base path body ct auth st out st']
  by (auto simp: sent_count_def attempts_max_def retry_log_def)

lemma post_command_count:
  assumes "post_command E J c base body st = (out, st')"
  shows "sent_count st' \<le> sent_count st + attempts_max c"
proof (cases "trim_space body = []")
  case False
  obtain res1 err1 st1 where d: "do_json E J c ''POST'' base (api_prefix @ ''/command'') (Some (trim_space body))
      ''application/json'' True st = ((res1, err1), st1)" by (metis surj_pair)
  then have "st' = st1" using assms False by (cases err1) (auto simp: post_command_def Let_def)
  then show ?thesis using do_json_count [OF d] by simp
qed (use assms in \<open>auto simp: post_command_def Let_def attempts_max_def\<close>)

lemma establish_count:
  assumes "establish E J c cols st = (r, st')"
  shows "sent_count st' \<le> sent_count st + attempts_max c"
proof -
  obtain res err st1 where d: "do_json E J c ''GET'' (cf_establishment_url (cl_cfg c))
      (api_prefix @ ''/establish'') None [] True st = ((res, err), st1)" by (metis surj_pair)
  then have "st_trace st' = st_trace st1"
    using assms by (auto simp: establish_def split: option.splits sum.splits)
  then show ?thesis using do_json_count [OF d] by (simp add: sent_count_def)
qed

section \<open>The machine\<close>

datatype 'j phase =
    Posting int string
  | Bounced int "'j result"
  | Finished "'j result" "'j err option"

text \<open>
  \<open>Posting k b\<close>: about to post attempt \<open>k\<close> to base \<open>b\<close>. \<open>Bounced k res\<close>: attempt \<open>k\<close>
  was answered \<open>wrongMachine\<close> and another is allowed.
\<close>

inductive bounce_step :: "'w env \<Rightarrow> 'j ojson \<Rightarrow> ('j, 'w) client \<Rightarrow> string \<Rightarrow> 'j resolver option
    \<Rightarrow> 'j phase \<times> ('j, 'w) state \<Rightarrow> 'j phase \<times> ('j, 'w) state \<Rightarrow> bool"
  for E J c body resolve where
  post_failed: "post_command E J c base body st = ((res, Some e), st') \<Longrightarrow>
    bounce_step E J c body resolve (Posting k base, st) (Finished (zero_result J) (Some e), st')"
| post_accepted: "post_command E J c base body st = ((res, None), st') \<Longrightarrow> rs_ok res \<Longrightarrow>
    bounce_step E J c body resolve (Posting k base, st) (Finished res None, st')"
| post_refused: "post_command E J c base body st = ((res, None), st') \<Longrightarrow> \<not> rs_ok res \<Longrightarrow>
    first_error_code res \<noteq> code_wrong_machine \<or> k = cl_wm_retries c \<Longrightarrow>
    bounce_step E J c body resolve (Posting k base, st) (Finished res (Some (EApp (app_error_from_result J res))), st')"
| post_bounced: "post_command E J c base body st = ((res, None), st') \<Longrightarrow> \<not> rs_ok res \<Longrightarrow>
    first_error_code res = code_wrong_machine \<Longrightarrow> k \<noteq> cl_wm_retries c \<Longrightarrow>
    bounce_step E J c body resolve (Posting k base, st) (Bounced k res, st')"
| refresh_failed: "establish E J c [] st = (Some e, st') \<Longrightarrow>
    bounce_step E J c body resolve (Bounced k res, st) (Finished res (Some e), st')"
| no_route: "establish E J c [] st = (None, st') \<Longrightarrow> st_cache st' = Some est \<Longrightarrow> resolve = Some f \<Longrightarrow> f est = Inl e \<Longrightarrow>
    bounce_step E J c body resolve (Bounced k res, st) (Finished res (Some e), st')"
| dead_end: "establish E J c [] st = (None, st') \<Longrightarrow>
    st_cache st' = None \<or> resolve = None \<or>
      (\<exists>est f r. st_cache st' = Some est \<and> resolve = Some f \<and> f est = Inr r \<and> rt_base_url r = []) \<Longrightarrow>
    bounce_step E J c body resolve (Bounced k res, st) (Finished res (Some (EApp (app_error_from_result J res))), st')"
| rehop: "establish E J c [] st = (None, st') \<Longrightarrow> st_cache st' = Some est \<Longrightarrow> resolve = Some f \<Longrightarrow> f est = Inr r \<Longrightarrow>
    rt_base_url r \<noteq> [] \<Longrightarrow>
    bounce_step E J c body resolve (Bounced k res, st) (Posting (k + 1) (rt_base_url r), st')"

abbreviation bounce_steps where
  "bounce_steps E J c body resolve \<equiv> (bounce_step E J c body resolve)\<^sup>*\<^sup>*"

inductive_cases bounce_posting: "bounce_step E J c body resolve (Posting k base, st) x"
inductive_cases bounce_bounced: "bounce_step E J c body resolve (Bounced k res, st) x"
inductive_simps bounce_finished [simp]: "bounce_step E J c body resolve (Finished res err, st) x"

lemma bounce_deterministic:
  assumes "bounce_step E J c body resolve x y" "bounce_step E J c body resolve x z"
  shows "y = z"
  using assms
proof (cases rule: bounce_step.cases)
  case (post_failed base st res e st' k)
  then show ?thesis using assms(2) by (auto elim!: bounce_posting)
next
  case (post_accepted base st res st' k)
  then show ?thesis using assms(2) by (auto elim!: bounce_posting)
next
  case (post_refused base st res st' k)
  then show ?thesis using assms(2) by (auto elim!: bounce_posting)
next
  case (post_bounced base st res st' k)
  then show ?thesis using assms(2) by (auto elim!: bounce_posting)
next
  case (refresh_failed st e st' k res)
  then show ?thesis using assms(2) by (auto elim!: bounce_bounced)
next
  case (no_route st st' est f e k res)
  then show ?thesis using assms(2) by (auto elim!: bounce_bounced)
next
  case (dead_end st st' k res)
  then show ?thesis using assms(2) by (auto elim!: bounce_bounced)
next
  case (rehop st st' est f r k res)
  then show ?thesis using assms(2) by (auto elim!: bounce_bounced)
qed

text \<open>The end of a run is unique.\<close>

lemma bounce_end_unique:
  assumes "bounce_steps E J c body resolve x (Finished r e, s)" "bounce_steps E J c body resolve x (Finished r' e', s')"
  shows "r = r' \<and> e = e' \<and> s = s'"
  using assms
proof (induction rule: converse_rtranclp_induct)
  case base
  then show ?case by (auto elim: converse_rtranclpE)
next
  case (step x y)
  from step.prems show ?case
  proof (cases rule: converse_rtranclpE)
    case base
    then show ?thesis using step.hyps(1) by simp
  next
    case (step z)
    then show ?thesis using bounce_deterministic [OF \<open>bounce_step E J c body resolve x y\<close>] \<open>_ \<Longrightarrow> _\<close> by blast
  qed
qed

section \<open>The loop refines the machine\<close>

lemma execute_loop_refines:
  assumes "execute_loop E J c body resolve k base l st = ((r, e), st')" "k \<le> cl_wm_retries c"
  shows "bounce_steps E J c body resolve (Posting k base, st) (Finished r e, st')"
  using assms
proof (induction E J c body resolve k base l st arbitrary: r e st' rule: execute_loop.induct)
  case (1 E J c body resolve k base l st)
  note loop = "1.prems"(1) [unfolded execute_loop.simps [of E J c body resolve k]]
  let ?step = "bounce_step E J c body resolve"
  obtain res err st1 where p: "post_command E J c base body st = ((res, err), st1)" by (metis surj_pair)
  note loop1 = loop [simplified "1.prems"(2) p if_True prod.case]
  show ?case
  proof (cases err)
    case (Some e1)
    then have "?step (Posting k base, st) (Finished (zero_result J) (Some e1), st1)"
      using p by (auto intro: post_failed)
    then show ?thesis using loop1 Some by auto
  next
    case None
    note p = p [unfolded None]
    show ?thesis
    proof (cases "rs_ok res \<or> first_error_code res \<noteq> code_wrong_machine \<or> k = cl_wm_retries c")
      case True
      then have "(rs_ok res \<and> (r, e, st') = (res, None, st1)) \<or>
          (\<not> rs_ok res \<and> (first_error_code res \<noteq> code_wrong_machine \<or> k = cl_wm_retries c)
             \<and> (r, e, st') = (res, Some (EApp (app_error_from_result J res)), st1))"
        using loop1 None by (auto simp: Let_def wrong_machine_iff split: if_splits)
      then have "?step (Posting k base, st) (Finished r e, st')"
        using post_accepted [OF p] post_refused [OF p] by auto
      then show ?thesis by auto
    next
      case False
      then have bounced: "?step (Posting k base, st) (Bounced k res, st1)"
        using post_bounced [OF p] by simp
      obtain er st2 where es: "establish E J c [] st1 = (er, st2)" by (metis surj_pair)
      note loop2 = loop1 [unfolded None, simplified False es wrong_machine_iff Let_def if_False prod.case option.case]
      have "?step (Bounced k res, st1) (Finished r e, st') \<or>
        (\<exists>b. ?step (Bounced k res, st1) (Posting (k + 1) b, st2)
           \<and> execute_loop E J c body resolve (k + 1) b res st2 = ((r, e), st'))"
      proof (cases er)
        case (Some e2)
        then show ?thesis using loop2 False es by (auto simp: wrong_machine_iff intro: refresh_failed)
      next
        case n: None
        then obtain est where est: "st_cache st2 = Some est"
          using es establish_None_cache by blast
        show ?thesis
        proof (cases resolve)
          case r: None
          then show ?thesis
            using loop2 False es n est by (auto simp: wrong_machine_iff intro: dead_end)
        next
          case (Some f)
          then show ?thesis
            using loop2 False es n est
            by (cases "f est") (auto simp: wrong_machine_iff intro: no_route dead_end rehop split: if_splits)
        qed
      qed
      then show ?thesis
      proof
        assume "?step (Bounced k res, st1) (Finished r e, st')"
        with bounced show ?thesis by (meson converse_rtranclp_into_rtranclp r_into_rtranclp)
      next
        assume "\<exists>b. ?step (Bounced k res, st1) (Posting (k + 1) b, st2)
           \<and> execute_loop E J c body resolve (k + 1) b res st2 = ((r, e), st')"
        then obtain b where b: "?step (Bounced k res, st1) (Posting (k + 1) b, st2)"
          "execute_loop E J c body resolve (k + 1) b res st2 = ((r, e), st')" by blast
        from b(1) obtain est f rt where rt: "establish E J c [] st1 = (None, st2)" "st_cache st2 = Some est"
          "resolve = Some f" "f est = Inr rt" "rt_base_url rt \<noteq> []" "b = rt_base_url rt"
          by (auto elim: bounce_bounced)
        have "bounce_steps E J c body resolve (Posting (k + 1) b, st2) (Finished r e, st')"
          unfolding rt(6)
          by (rule "1.IH" [OF "1.prems"(2) p [symmetric] refl refl _ refl _ _ rt(1) [symmetric] refl refl rt(2) rt(3) rt(4)])
            (use False rt b(2) "1.prems"(2) in \<open>auto simp: wrong_machine_iff\<close>)
        with bounced b(1) show ?thesis by (meson converse_rtranclp_into_rtranclp)
      qed
    qed
  qed
qed

section \<open>Invariants of the reachable states\<close>

text \<open>
  The bases a command may be posted to: the one it starts with, and those the resolver computes
  from a well-formed establishment document. Nothing of a bounce answer is among them.
\<close>

definition resolved_base :: "'j resolver option \<Rightarrow> 'j establishment \<Rightarrow> string \<Rightarrow> bool" where
  "resolved_base resolve est b \<longleftrightarrow> establishment_ok est
     \<and> (\<exists>f r. resolve = Some f \<and> f est = Inr r \<and> b = rt_base_url r \<and> b \<noteq> [])"

definition hop_ok :: "string \<Rightarrow> 'j resolver option \<Rightarrow> string \<Rightarrow> bool" where
  "hop_ok base0 resolve b \<longleftrightarrow> b = base0 \<or> (\<exists>est. resolved_base resolve est b)"

fun phase_inv :: "'j ojson \<Rightarrow> ('j, 'w) client \<Rightarrow> string \<Rightarrow> 'j resolver option \<Rightarrow> ('j, 'w) state
    \<Rightarrow> 'j phase \<times> ('j, 'w) state \<Rightarrow> bool" where
  "phase_inv J c base0 resolve st0 (Posting k b, st) \<longleftrightarrow> 0 \<le> k \<and> k \<le> cl_wm_retries c
     \<and> (k = 0 \<and> b = base0 \<or> (\<exists>est. st_cache st = Some est \<and> resolved_base resolve est b))
     \<and> sent_count st \<le> sent_count st0 + 2 * k * attempts_max c"
| "phase_inv J c base0 resolve st0 (Bounced k res, st) \<longleftrightarrow> 0 \<le> k \<and> k < cl_wm_retries c
     \<and> \<not> rs_ok res \<and> first_error_code res = code_wrong_machine
     \<and> sent_count st \<le> sent_count st0 + (2 * k + 1) * attempts_max c"
| "phase_inv J c base0 resolve st0 (Finished res err, st) \<longleftrightarrow>
     (err = None \<longrightarrow> rs_ok res \<and> (\<exists>rq. delivered J c rq res)) \<and> (err \<noteq> None \<longrightarrow> \<not> rs_ok res)
     \<and> sent_count st \<le> sent_count st0 + (2 * cl_wm_retries c + 1) * attempts_max c"

lemma attempts_max_mono: "k \<le> m \<Longrightarrow> k * attempts_max c \<le> m * attempts_max c"
  by (simp add: mult_right_mono attempts_max_def)

lemma bounce_step_inv:
  assumes "bounce_step E J c body resolve x y" "phase_inv J c base0 resolve st0 x"
  shows "phase_inv J c base0 resolve st0 y"
  using assms
proof (cases rule: bounce_step.cases)
  case (post_failed base st res e st' k)
  then show ?thesis
    using assms(2) post_command_count [OF post_failed(3)] attempts_max_mono [of "2 * k + 1" "2 * cl_wm_retries c + 1" c]
    by (auto simp: zero_result_def algebra_simps)
next
  case (post_accepted base st res st' k)
  then show ?thesis
    using assms(2) post_command_count [OF post_accepted(3)] attempts_max_mono [of "2 * k + 1" "2 * cl_wm_retries c + 1" c]
      post_command_frame(4) [OF post_accepted(3)]
    by (auto simp: algebra_simps)
next
  case (post_refused base st res st' k)
  then show ?thesis
    using assms(2) post_command_count [OF post_refused(3)] attempts_max_mono [of "2 * k + 1" "2 * cl_wm_retries c + 1" c]
    by (auto simp: algebra_simps)
next
  case (post_bounced base st res st' k)
  then show ?thesis
    using assms(2) post_command_count [OF post_bounced(3)] by (auto simp: algebra_simps)
next
  case (refresh_failed st e st' k res)
  then show ?thesis
    using assms(2) establish_count [OF refresh_failed(3)] attempts_max_mono [of "2 * k + 2" "2 * cl_wm_retries c + 1" c]
    by (auto simp: algebra_simps)
next
  case (no_route st st' est f e k res)
  then show ?thesis
    using assms(2) establish_count [OF no_route(3)] attempts_max_mono [of "2 * k + 2" "2 * cl_wm_retries c + 1" c]
    by (auto simp: algebra_simps)
next
  case (dead_end st st' k res)
  then show ?thesis
    using assms(2) establish_count [OF dead_end(3)] attempts_max_mono [of "2 * k + 2" "2 * cl_wm_retries c + 1" c]
    by (auto simp: algebra_simps)
next
  case (rehop st st' est f r k res)
  then have "resolved_base resolve est (rt_base_url r)"
    using establish_None_cache [OF rehop(3)] by (auto simp: resolved_base_def)
  then show ?thesis
    using assms(2) rehop establish_count [OF rehop(3)] by (auto simp: algebra_simps)
qed

lemma bounce_steps_inv:
  "bounce_steps E J c body resolve x y \<Longrightarrow> phase_inv J c base0 resolve st0 x \<Longrightarrow> phase_inv J c base0 resolve st0 y"
  by (induction rule: rtranclp_induct) (auto intro: bounce_step_inv)

lemma bounce_step_extends:
  assumes "bounce_step E J c body resolve x y" "phase_inv J c base0 resolve st0 x"
  shows "extends (command_event c body (hop_ok base0 resolve)) (snd x) (snd y)"
proof -
  have post: "extends (command_event c body (hop_ok base0 resolve)) st st'"
    if "post_command E J c b body st = (out, st')" "hop_ok base0 resolve b" for b st out st'
    by (rule extends_mono [OF post_op.run_extends_to [OF that(1)]])
      (use that(2) in \<open>auto simp: command_event_def\<close>)
  have est: "extends (command_event c body (hop_ok base0 resolve)) st st'"
    if "establish E J c [] st = (r, st')" for st r st'
    by (rule extends_mono [OF establish_op.run_extends_to [OF that]]) (simp add: command_event_def)
  have hop: "hop_ok base0 resolve b" if "x = (Posting k b, st)" for k b st
    using assms(2) that by (auto simp: hop_ok_def)
  from assms(1) consider (posted) k b st ph st' out where "x = (Posting k b, st)" "y = (ph, st')"
      "post_command E J c b body st = (out, st')"
    | (refreshed) k res st ph st' r where "x = (Bounced k res, st)" "y = (ph, st')"
      "establish E J c [] st = (r, st')"
    by (cases rule: bounce_step.cases) blast+
  then show ?thesis
  proof cases
    case posted
    then show ?thesis using post [OF posted(3) hop [OF posted(1)]] by simp
  next
    case refreshed
    then show ?thesis using est [OF refreshed(3)] by simp
  qed
qed

lemma bounce_steps_extends:
  "bounce_steps E J c body resolve x y \<Longrightarrow> phase_inv J c base0 resolve st0 x \<Longrightarrow>
     extends (command_event c body (hop_ok base0 resolve)) (snd x) (snd y)"
  by (induction rule: rtranclp_induct) (auto intro: extends_trans bounce_step_extends bounce_steps_inv)

section \<open>Routed commands\<close>

definition start_base :: "('j, 'w) client \<Rightarrow> route \<Rightarrow> string" where
  "start_base c initial = (if rt_base_url initial = [] then cf_establishment_url (cl_cfg c) else rt_base_url initial)"

lemma execute_routed_steps:
  assumes "execute_routed E J c initial body resolve st = ((r, e), st')" "0 \<le> cl_wm_retries c"
  shows "bounce_steps E J c body resolve (Posting 0 (start_base c initial), st) (Finished r e, st')"
  using assms execute_loop_refines unfolding execute_routed_def start_base_def by blast

lemma execute_routed_inv:
  assumes "execute_routed E J c initial body resolve st = ((r, e), st')" "0 \<le> cl_wm_retries c"
  shows "phase_inv J c (start_base c initial) resolve st (Finished r e, st')"
    "extends (command_event c body (hop_ok (start_base c initial) resolve)) st st'"
proof -
  have init: "phase_inv J c (start_base c initial) resolve st (Posting 0 (start_base c initial), st)"
    using assms(2) by simp
  show "phase_inv J c (start_base c initial) resolve st (Finished r e, st')"
    by (rule bounce_steps_inv [OF execute_routed_steps [OF assms] init])
  show "extends (command_event c body (hop_ok (start_base c initial) resolve)) st st'"
    using bounce_steps_extends [OF execute_routed_steps [OF assms] init] by simp
qed

lemma execute_routed_success:
  "execute_routed E J c initial body resolve st = ((r, None), st') \<Longrightarrow> 0 \<le> cl_wm_retries c \<Longrightarrow>
     rs_ok r \<and> (\<exists>rq. delivered J c rq r)"
  using execute_routed_inv(1) by fastforce

text \<open>The request that a result answers: the last one of the log, a post of the command.\<close>

definition answered_last :: "'j ojson \<Rightarrow> ('j, 'w) client \<Rightarrow> string \<Rightarrow> ('j, 'w) state \<Rightarrow> ('j, 'w) state \<Rightarrow> 'j result \<Rightarrow> bool" where
  "answered_last J c cmd st st' res \<longleftrightarrow>
     (\<exists>evs rq n. st_trace st' = st_trace st @ evs @ [Sent rq] \<and> delivered J c rq res
        \<and> rq_method rq = ''POST'' \<and> authorised rq \<and> rq_body rq = Some (drop n cmd) \<and> (cl_tr_retries c = 0 \<longrightarrow> n = 0))"

lemma answered_later: "answered_last J c cmd st1 st' res \<Longrightarrow> extends allowed st st1 \<Longrightarrow> answered_last J c cmd st st' res"
  unfolding answered_last_def extends_def by (metis append_assoc)

lemma execute_routed_answer:
  assumes "execute_routed E J c initial body resolve st = ((r, None), st')" "0 \<le> cl_wm_retries c"
  shows "answered_last J c (trim_space body) st st' r"
proof -
  have init: "phase_inv J c (start_base c initial) resolve st (Posting 0 (start_base c initial), st)"
    using assms(2) by simp
  from execute_routed_steps [OF assms] obtain y
    where run: "bounce_steps E J c body resolve (Posting 0 (start_base c initial), st) y"
      and fin: "bounce_step E J c body resolve y (Finished r None, st')"
    by (cases rule: rtranclp.cases) auto
  from fin obtain k b st1 where y: "y = (Posting k b, st1)"
    and post: "post_command E J c b body st1 = ((r, None), st')" "rs_ok r"
    by (cases rule: bounce_step.cases) auto
  from post_command_answer [OF post] have "answered_last J c (trim_space body) st1 st' r"
    unfolding answered_last_def json_request_def by (cases "cl_tr_retries c = 0") fastforce+
  then show ?thesis
    using answered_later bounce_steps_extends [OF run init] y by fastforce
qed

text \<open>Posting and the routed command keep the contract of the client; so do the id sources.\<close>

lemma post_authorised [op_intro]: "client_op event_authorised (post_command E J c base body)"
  by (rule op_mono [OF post_op.client_op_axioms]) (rule json_event_authorised)

lemma execute_authorised [op_intro]: "client_op event_authorised (execute_routed E J c initial body resolve)"
proof (unfold_locales, goal_cases)
  case (1 st)
  obtain r e st' where x: "execute_routed E J c initial body resolve st = ((r, e), st')" by (metis surj_pair)
  show ?case
  proof (cases "0 \<le> cl_wm_retries c")
    case True
    have "extends event_authorised st st'"
      by (rule extends_mono [OF execute_routed_inv(2) [OF x True]]) (rule command_event_authorised)
    then show ?thesis by (simp add: x)
  qed (simp add: execute_routed_def execute_loop.simps)
qed

lemma ulid_authorised [op_intro]: "client_op event_authorised (new_ulid E)"
  by unfold_locales (auto simp: new_ulid_def log_event_def extends_def cache_ok_def split: prod.splits)

lemma operation_id_authorised [op_intro]: "client_op event_authorised (ensure_operation_id E detail)"
  unfolding ensure_operation_id_def new_operation_id_def by (intro op_intro)

lemma operation_value_authorised [op_intro]: "client_op event_authorised (ensure_operation_id_value E J detail)"
  unfolding ensure_operation_id_value_def new_operation_id_def by (intro op_intro)

interpretation command_op: client_op event_authorised "command E J c base body" for E J c base body
  unfolding command_def by (intro op_intro)

section \<open>Request budgets\<close>

text \<open>
  The cost of an operation, in retry loops: with \<open>u\<close> the number of attempts of one loop, an
  operation of cost \<open>n\<close> hands at most \<open>n * u\<close> requests to the transport.
\<close>

locale budget_op =
  fixes u n :: int
    and run :: "('j, 'w) state \<Rightarrow> 'a \<times> ('j, 'w) state"
  assumes within: "sent_count (snd (run st)) \<le> sent_count st + n * u"
begin

lemma within_budget: "run st = (r, st') \<Longrightarrow> sent_count st' - sent_count st \<le> n * u"
  using within [of st] by simp

end

lemma budget_return: "0 \<le> u \<Longrightarrow> 0 \<le> n \<Longrightarrow> budget_op u n (\<lambda>st. (a, st))"
  by unfold_locales simp

lemma budget_bind:
  assumes "budget_op u m f" "\<And>a. budget_op u (n - m) (g a)"
  shows "budget_op u n (\<lambda>st. case f st of (a, st') \<Rightarrow> g a st')"
proof (unfold_locales, goal_cases)
  case (1 st)
  obtain a st' where f: "f st = (a, st')" by (metis surj_pair)
  show ?case
    using budget_op.within_budget [OF assms(1) f] budget_op.within [OF assms(2), of a st'] f
    by (simp add: algebra_simps)
qed

lemma budget_pair: "(\<And>x y. budget_op u n (f x y)) \<Longrightarrow> budget_op u n (\<lambda>st. case p of (x, y) \<Rightarrow> f x y st)"
  by (cases p) simp

lemma budget_if: "budget_op u n f \<Longrightarrow> budget_op u n g \<Longrightarrow> budget_op u n (\<lambda>st. if b then f st else g st)"
  by (cases b) simp_all

lemma budget_sum:
  "(\<And>e. budget_op u n (f e)) \<Longrightarrow> (\<And>x. budget_op u n (g x)) \<Longrightarrow>
     budget_op u n (\<lambda>st. case r of Inl e \<Rightarrow> f e st | Inr x \<Rightarrow> g x st)"
  by (cases r) simp_all

lemma budget_option:
  "budget_op u n f \<Longrightarrow> (\<And>x. budget_op u n (g x)) \<Longrightarrow>
     budget_op u n (\<lambda>st. case r of None \<Rightarrow> f st | Some x \<Rightarrow> g x st)"
  by (cases r) simp_all

lemmas budget_rules = budget_pair budget_if budget_sum budget_option

lemma attempts_max_nonneg [simp]: "0 \<le> attempts_max c"
  by (simp add: attempts_max_def)

lemma budget_more: "budget_op u n f \<Longrightarrow> n \<le> m \<Longrightarrow> 0 \<le> u \<Longrightarrow> budget_op u m f"
  unfolding budget_op_def by (meson add_left_mono mult_right_mono order_trans)

definition routed_cost :: "('j, 'w) client \<Rightarrow> int" where
  "routed_cost c = 2 * max 0 (cl_wm_retries c) + 1"

lemma routed_cost_pos [simp]: "0 \<le> routed_cost c" "1 \<le> routed_cost c"
  by (simp_all add: routed_cost_def)

interpretation establish_budget: budget_op "attempts_max c" 1 "establish E J c cols" for E J c cols
proof (unfold_locales, goal_cases)
  case (1 st)
  obtain r st' where "establish E J c cols st = (r, st')" by (metis surj_pair)
  then show ?case using establish_count [of E J c cols st r st'] by simp
qed

interpretation ensure_budget: budget_op "attempts_max c" 1 "ensure_established E J c" for E J c
proof (unfold_locales, goal_cases)
  case (1 st)
  obtain r st' where e: "establish E J c [] st = (r, st')" by (metis surj_pair)
  then show ?case
    using establish_count [OF e]
    by (cases "st_cache st") (auto simp: ensure_established_def split: option.splits)
qed

interpretation routed_budget_op: budget_op "attempts_max c" "routed_cost c" "execute_routed E J c initial body resolve"
  for E J c initial body resolve
proof (unfold_locales, goal_cases)
  case (1 st)
  obtain r e st' where x: "execute_routed E J c initial body resolve st = ((r, e), st')" by (metis surj_pair)
  show ?case
  proof (cases "0 \<le> cl_wm_retries c")
    case True
    then show ?thesis using execute_routed_inv(1) [OF x True] x by (simp add: routed_cost_def)
  next
    case False
    then have "st' = st" using x by (simp add: execute_routed_def execute_loop.simps)
    then show ?thesis by (simp add: x)
  qed
qed

interpretation ulid_budget: budget_op u 0 "new_ulid E" for u E
  by unfold_locales (simp add: new_ulid_def log_event_def sent_count_def split: prod.splits)

interpretation operation_id_budget: budget_op u 0 "ensure_operation_id E detail" for u E detail
  by unfold_locales (simp add: ensure_operation_id_def new_operation_id_def new_ulid_def log_event_def
      sent_count_def split: prod.splits option.splits)

interpretation wait_budget: budget_op u 0 "wait_timer E d" for u E d
  by unfold_locales (simp add: wait_timer_def log_event_def sent_count_def split: prod.splits)

section \<open>Scripted runs\<close>

definition ok_result :: "js result" where
  "ok_result = \<lparr>rs_ok = True, rs_errors = [], rs_env = JObj [(''ok'', JBool True)], rs_body = ''K''\<rparr>"

definition wrong_result :: "js result" where
  "wrong_result = \<lparr>rs_ok = False, rs_errors = [\<lparr>ae_code = ''wrongMachine'', ae_path = [], ae_message = [],
     ae_expected = JVoid, ae_actual = JVoid\<rparr>], rs_env = wrong_machine_doc, rs_body = ''W''\<rparr>"

lemma script_decode: "decode_result SJ ''K'' = Inr ok_result" "decode_result SJ ''W'' = Inr wrong_result"
  by (simp_all add: decode_result_def script_reader_def ok_result_def wrong_result_def wrong_machine_doc_def
      decode_api_error_def Let_def)

definition script_post :: "int \<Rightarrow> string \<Rightarrow> string \<Rightarrow> event" where
  "script_post wm base body = Sent (json_rq (script_client wm 0) ''POST'' base (api_prefix @ ''/command'')
     ''application/json'' (Some body))"

definition script_get :: "int \<Rightarrow> event" where
  "script_get wm = Sent (json_rq (script_client wm 0) ''GET'' ''http://e'' (api_prefix @ ''/establish'') [] None)"

lemma script_post_command:
  assumes "trim_space body = body" "body \<noteq> []" "length t \<le> 10" "decode_result SJ t = Inr res"
  shows "post_command script_env SJ (script_client wm 0) base body
      \<lparr>st_cache = cache, st_trace = tr, st_world = answer t # w\<rparr>
    = ((res, None), \<lparr>st_cache = cache, st_trace = tr @ [script_post wm base body], st_world = w\<rparr>)"
  using assms
  by (simp add: post_command_def Let_def script_do_json_one script_once answer_def read_answer script_post_def)

lemma script_establish_any:
  "establish script_env SJ (script_client wm 0) [] \<lparr>st_cache = cache, st_trace = tr, st_world = answer ''E'' # w\<rparr>
   = (None, \<lparr>st_cache = Some sample_est, st_trace = tr @ [script_get wm], st_world = w\<rparr>)"
proof -
  have "decode_result SJ ''E'' = Inr \<lparr>rs_ok = True, rs_errors = [], rs_env = sample_env, rs_body = ''E''\<rparr>"
    by (simp add: decode_result_def script_reader_def sample_env_def Let_def)
  moreover have "cf_establishment_url (cl_cfg (script_client wm 0)) = ''http://e''"
    by (simp add: script_client_def script_config_def)
  ultimately show ?thesis
    by (simp add: establish_def script_do_json_one script_once answer_def read_answer
        sample_parse_any validate_catalog_def script_get_def)
qed

definition script_start :: route where
  "script_start = \<lparr>rt_server_name = ''x'', rt_base_url = ''http://x'', rt_slot = 0, rt_slot_hex = []\<rparr>"

definition script_resolve :: "js resolver" where
  "script_resolve est = route_document (script_client 1 0) est ''abcdef.1'' RouteWrite"

lemma trim_braces: "trim_space ''{}'' = ''{}''"
  using trim_space_framed [OF visible_braces, of "[]"] by simp

lemma script_wm [simp]: "cl_wm_retries (script_client wm tr) = wm" "cl_tr_retries (script_client wm tr) = tr"
  by (simp_all add: script_client_def)

lemma script_results: "\<not> rs_ok wrong_result" "first_error_code wrong_result = code_wrong_machine" "rs_ok ok_result"
    "ap_code (app_error_from_result SJ wrong_result) = code_wrong_machine"
  unfolding wrong_machine_iff
  by (simp_all add: wrong_result_def ok_result_def first_error_code_def code_wrong_machine_def)

lemma script_bounce:
  "execute_routed script_env SJ (script_client 1 0) script_start ''{}'' (Some script_resolve)
     (script_state None [answer ''W'', answer ''E'', answer ''K''])
   = ((ok_result, None), \<lparr>st_cache = Some sample_est,
       st_trace = [script_post 1 ''http://x'' ''{}'', script_get 1, script_post 1 ''http://b'' ''{}''],
       st_world = []\<rparr>)"
proof -
  note w = script_results
  have "execute_loop script_env SJ (script_client 1 0) ''{}'' (Some script_resolve) 1 ''http://b'' wrong_result
     \<lparr>st_cache = Some sample_est, st_trace = [script_post 1 ''http://x'' ''{}'', script_get 1],
       st_world = [answer ''K'']\<rparr>
   = ((ok_result, None), \<lparr>st_cache = Some sample_est,
       st_trace = [script_post 1 ''http://x'' ''{}'', script_get 1, script_post 1 ''http://b'' ''{}''], st_world = []\<rparr>)"
    by (subst execute_loop.simps) (simp add: script_post_command trim_braces script_decode w)
  then show ?thesis
    unfolding execute_routed_def script_start_def script_state_def
    by (subst execute_loop.simps)
      (simp add: script_post_command trim_braces script_decode w Let_def script_establish_any
        script_resolve_def script_route)
qed

section \<open>Properties\<close>

text \<open>C1: The loop of executeRouted is the bounce machine: a routed command returns a result, an
  error and a state exactly when the machine started on the same route reaches that final
  state. In particular the machine always finishes, and in one way only.\<close>

theorem bounce_refinement:
  assumes "0 \<le> cl_wm_retries c"
  shows "execute_routed E J c initial body resolve st = ((r, e), st')
    \<longleftrightarrow> bounce_steps E J c body resolve (Posting 0 (start_base c initial), st) (Finished r e, st')"
proof
  assume "execute_routed E J c initial body resolve st = ((r, e), st')"
  then show "bounce_steps E J c body resolve (Posting 0 (start_base c initial), st) (Finished r e, st')"
    using assms by (rule execute_routed_steps)
next
  assume run: "bounce_steps E J c body resolve (Posting 0 (start_base c initial), st) (Finished r e, st')"
  obtain r1 e1 st1 where ex: "execute_routed E J c initial body resolve st = ((r1, e1), st1)" by (metis surj_pair)
  from bounce_end_unique [OF run execute_routed_steps [OF ex assms]] ex
  show "execute_routed E J c initial body resolve st = ((r, e), st')" by simp
qed

theorem bounce_refinement_witness:
  "bounce_steps script_env SJ (script_client 1 0) ''{}'' (Some script_resolve)
     (Posting 0 ''http://x'', script_state None [answer ''W'', answer ''E'', answer ''K''])
     (Finished ok_result None, \<lparr>st_cache = Some sample_est,
       st_trace = [script_post 1 ''http://x'' ''{}'', script_get 1, script_post 1 ''http://b'' ''{}''],
       st_world = []\<rparr>)"
  using bounce_refinement [THEN iffD1, OF _ script_bounce] by (simp add: start_base_def script_start_def)

text \<open>C2: Where a routed command may be sent. It is posted to the base of its initial route (or the
  establishment URL when that is empty) and, after a bounce, only to bases the resolver computes
  from a well-formed establishment document; between the posts only the establishment document
  is fetched. Every request carries a bearer token, and every post the same command.\<close>

theorem routed_hops:
  assumes "0 \<le> cl_wm_retries c" "execute_routed E J c initial body resolve st = ((r, e), st')"
    and "Sent rq \<in> set (drop (length (st_trace st)) (st_trace st'))"
  shows "authorised rq
    \<and> (rq_url rq = establish_url c \<and> rq_method rq = ''GET''
      \<or> (\<exists>b n. rq_url rq = command_url b \<and> rq_method rq = ''POST''
          \<and> rq_body rq = Some (drop n (trim_space body))
          \<and> (b = start_base c initial
             \<or> (\<exists>est f rt. establishment_ok est \<and> resolve = Some f \<and> f est = Inr rt \<and> b = rt_base_url rt))))"
proof -
  have "command_event c body (hop_ok (start_base c initial) resolve) (Sent rq)"
    using execute_routed_inv(2) [OF assms(2,1)] assms(3) by (auto simp: extends_def list_all_iff)
  then show ?thesis
  proof (unfold command_event_def, elim disjE exE conjE)
    fix b
    assume hop: "hop_ok (start_base c initial) resolve b"
      and "json_event ''POST'' (command_url b) (Some (trim_space body)) True (Sent rq)"
    then have "authorised rq" "rq_url rq = command_url b" "rq_method rq = ''POST''"
      "\<exists>n. rq_body rq = Some (drop n (trim_space body))"
      by (auto simp: json_request_def)
    then show ?thesis using hop unfolding hop_ok_def resolved_base_def by blast
  qed (simp add: json_request_def)
qed

theorem routed_hops_witness:
  "authorised (json_rq (script_client 1 0) ''POST'' ''http://b'' (api_prefix @ ''/command'') ''application/json'' (Some ''{}''))"
  using routed_hops [OF _ script_bounce, of "json_rq (script_client 1 0) ''POST'' ''http://b''
      (api_prefix @ ''/command'') ''application/json'' (Some ''{}'')"]
  by (simp add: script_state_def script_post_def)

text \<open>C33: A bounce is always followed by a fresh establishment document. Before every repeated post
  fewer than the configured number of bounces were taken, the last post was answered
  wrongMachine, and the establishment document was fetched after it: the last event of the log
  is the request for it, the cache holds what its answer decodes to, and the command is posted
  to the base that the resolver gives for exactly that document.\<close>

theorem rehop_fresh:
  assumes "tr_ok c" "0 \<le> cl_wm_retries c"
    and "bounce_steps E J c body resolve (Posting 0 base0, st) (Posting k b, st')"
  shows "k = 0 \<and> b = base0 \<and> st' = st
    \<or> 1 \<le> k \<and> k \<le> cl_wm_retries c
      \<and> (\<exists>b' s0 refusal s1 evs rq res est f rt.
           post_command E J c b' body s0 = ((refusal, None), s1) \<and> \<not> rs_ok refusal
         \<and> first_error_code refusal = ''wrongMachine'' \<and> establish E J c [] s1 = (None, st')
         \<and> st_trace st' = st_trace s1 @ evs @ [Sent rq] \<and> rq_method rq = ''GET'' \<and> rq_url rq = establish_url c
         \<and> delivered J c rq res \<and> parse_establishment J res = Inr est \<and> establishment_ok est
         \<and> st_cache st' = Some est \<and> resolve = Some f \<and> f est = Inr rt \<and> b = rt_base_url rt \<and> b \<noteq> [])"
  using assms(3)
proof (cases rule: rtranclp.cases)
  case rtrancl_refl
  then show ?thesis by simp
next
  case (rtrancl_into_rtrancl y)
  then obtain k' refusal s1 est f rt where y: "y = (Bounced k' refusal, s1)" "establish E J c [] s1 = (None, st')"
    and rt: "st_cache st' = Some est" "resolve = Some f" "f est = Inr rt" "b = rt_base_url rt" "b \<noteq> []" "k = k' + 1"
    by (auto elim: bounce_step.cases)
  from rtrancl_into_rtrancl(1) [unfolded y(1)] obtain b' s0 where refused:
    "post_command E J c b' body s0 = ((refusal, None), s1)" "\<not> rs_ok refusal" "first_error_code refusal = code_wrong_machine"
    by (cases rule: rtranclp.cases) (auto elim: bounce_step.cases)
  from establish_answer [OF y(2) assms(1)] rt(1) obtain evs rq res where
    "st_trace st' = st_trace s1 @ evs @ [Sent rq]" "delivered J c rq res"
    "json_request ''GET'' (establish_url c) None True rq" "parse_establishment J res = Inr est" by auto
  moreover have "0 \<le> k' \<and> k' < cl_wm_retries c"
    using bounce_steps_inv [OF rtrancl_into_rtrancl(1), of base0 st] y(1) assms(2) by simp
  ultimately show ?thesis
    using y(2) rt refused parse_establishment_ok
    by (intro disjI2 conjI exI [of _ b'] exI [of _ s0] exI [of _ refusal] exI [of _ s1] exI [of _ evs] exI [of _ rq]
        exI [of _ res] exI [of _ est] exI [of _ f] exI [of _ rt])
      (auto simp: json_request_def code_wrong_machine_def)
qed

lemma script_rehop:
  "bounce_steps script_env SJ (script_client 1 0) ''{}'' (Some script_resolve)
     (Posting 0 ''http://x'', script_state None [answer ''W'', answer ''E'', answer ''K''])
     (Posting 1 ''http://b'', \<lparr>st_cache = Some sample_est,
       st_trace = [script_post 1 ''http://x'' ''{}'', script_get 1], st_world = [answer ''K'']\<rparr>)"
proof -
  let ?step = "bounce_step script_env SJ (script_client 1 0) ''{}'' (Some script_resolve)"
  have "post_command script_env SJ (script_client 1 0) ''http://x'' ''{}''
      (script_state None [answer ''W'', answer ''E'', answer ''K''])
    = ((wrong_result, None), \<lparr>st_cache = None, st_trace = [script_post 1 ''http://x'' ''{}''],
        st_world = [answer ''E'', answer ''K'']\<rparr>)"
    by (simp add: script_state_def script_post_command trim_braces script_decode)
  then have "?step (Posting 0 ''http://x'', script_state None [answer ''W'', answer ''E'', answer ''K''])
      (Bounced 0 wrong_result, \<lparr>st_cache = None, st_trace = [script_post 1 ''http://x'' ''{}''],
        st_world = [answer ''E'', answer ''K'']\<rparr>)"
    by (rule post_bounced) (simp_all add: script_results)
  moreover have "?step (Bounced 0 wrong_result, \<lparr>st_cache = None, st_trace = [script_post 1 ''http://x'' ''{}''],
        st_world = [answer ''E'', answer ''K'']\<rparr>)
      (Posting (0 + 1) (rt_base_url \<lparr>rt_server_name = ''b'', rt_base_url = ''http://b'', rt_slot = 0xEF, rt_slot_hex = ''EF''\<rparr>),
       \<lparr>st_cache = Some sample_est,
       st_trace = [script_post 1 ''http://x'' ''{}''] @ [script_get 1], st_world = [answer ''K'']\<rparr>)"
    by (rule rehop [where est = sample_est and f = script_resolve, OF script_establish_any])
      (simp_all add: script_resolve_def script_route)
  ultimately show ?thesis by (simp add: converse_rtranclp_into_rtranclp)
qed

theorem rehop_fresh_witness:
  "\<exists>rq res. last [script_post 1 ''http://x'' ''{}'', script_get 1] = Sent rq \<and> rq_method rq = ''GET''
    \<and> delivered SJ (script_client 1 0) rq res \<and> parse_establishment SJ res = Inr sample_est"
proof -
  have "tr_ok (script_client 1 0)" by (rule script_tr_ok) (simp_all add: max_int64_def)
  from rehop_fresh [OF this _ script_rehop] obtain s1 evs rq res est where
    "[script_post 1 ''http://x'' ''{}'', script_get 1] = st_trace (s1 :: (js, script) state) @ evs @ [Sent rq]"
    "rq_method rq = ''GET''" "delivered SJ (script_client 1 0) rq res" "parse_establishment SJ res = Inr est"
    "Some sample_est = Some est" by auto
  then show ?thesis by (metis last_appendR last_snoc option.inject append_is_Nil_conv not_Cons_self2)
qed

text \<open>C35: A routed command ends within its budget: with at most m bounces and n transport retries it
  makes at most (2m + 1)(n + 1) requests, counting those for the establishment document.\<close>

theorem routed_budget:
  assumes "tr_ok c" "0 \<le> cl_wm_retries c" "execute_routed E J c initial body resolve st = ((r, e), st')"
  shows "sent_count st' - sent_count st \<le> (2 * cl_wm_retries c + 1) * (cl_tr_retries c + 1)"
  using execute_routed_inv(1) [OF assms(3,2)] assms(1)
  by (simp add: attempts_max_def tr_ok_def attempts_positive)

theorem routed_budget_witness:
  "sent_count \<lparr>st_cache = Some sample_est,
       st_trace = [script_post 1 ''http://x'' ''{}'', script_get 1, script_post 1 ''http://b'' ''{}''],
       st_world = [] :: script\<rparr> \<le> 3"
  using routed_budget [OF script_tr_ok _ script_bounce] by (simp add: max_int64_def script_state_def sent_count_def)

text \<open>C34: The error of a routed command agrees with its result: it is nil exactly when the result is
  ok:true, and an accepted result is the decoding of a response the transport delivered.\<close>

theorem routed_outcome:
  assumes "0 \<le> cl_wm_retries c" "execute_routed E J c initial body resolve st = ((r, e), st')"
  shows "(e = None \<longleftrightarrow> rs_ok r) \<and> (e = None \<longrightarrow> (\<exists>rq. delivered J c rq r))"
  using execute_routed_inv(1) [OF assms(2,1)] by auto

theorem routed_outcome_witness:
  "rs_ok ok_result \<and> (\<exists>rq. delivered SJ (script_client 1 0) rq ok_result)"
  using routed_outcome [OF _ script_bounce] by simp

end
