(* ===== verification/Crud.thy ===== *)
theory Crud
  imports Bounce
begin

text \<open>
  Document operations on raw maps (crud.go) and the resolution of ambiguous creates
  (create\_verify.go). Results are the summaries the code builds from an envelope; an operation
  that returns an error returns the zero summary with it, so its result is a sum.
\<close>

section \<open>Results\<close>

record 'j replication_note =
  rn_code :: string
  rn_message :: string
  rn_required :: "string list"
  rn_acknowledged :: "string list"
  rn_unacknowledged :: "string list"
  rn_timeout_ms :: int
  rn_raw :: 'j

record 'j write_result =
  wr_result :: "'j result"
  wr_collection :: string
  wr_id :: string
  wr_schema :: string
  wr_version :: string
  wr_version_before :: string
  wr_operation_id :: string
  wr_distribution_complete :: bool
  wr_note :: "'j replication_note option"

record 'j read_result =
  rr_result :: "'j result"
  rr_collection :: string
  rr_id :: string
  rr_sot :: 'j
  rr_extra_fields :: 'j
  rr_cache_summaries :: 'j

record read_options =
  ro_extra_fields :: bool
  ro_cache_summaries :: bool

definition string_slice_field :: "'j ojson \<Rightarrow> 'j \<Rightarrow> string \<Rightarrow> string list" where
  "string_slice_field J obj key =
     (let arr = oj_get J obj key in
      if \<not> oj_is_array J arr then []
      else map (oj_str J) (filter (oj_is_string J) (oj_items J arr)))"

definition int_field_from_value :: "'j ojson \<Rightarrow> 'j \<Rightarrow> int" where
  "int_field_from_value J v =
     (if oj_is_missing J v then 0 else (case oj_int J v of Inl _ \<Rightarrow> 0 | Inr n \<Rightarrow> n))"

definition replication_note_from :: "'j ojson \<Rightarrow> 'j \<Rightarrow> 'j replication_note option" where
  "replication_note_from J v =
     (if \<not> oj_is_object J v then None
      else Some \<lparr>rn_code = oj_str J (oj_get J v ''code''),
                 rn_message = oj_str J (oj_get J v ''message''),
                 rn_required = string_slice_field J v ''required'',
                 rn_acknowledged = string_slice_field J v ''acknowledged'',
                 rn_unacknowledged = string_slice_field J v ''unacknowledged'',
                 rn_timeout_ms = int_field_from_value J (oj_get J v ''timeoutMs''),
                 rn_raw = v\<rparr>)"

definition write_result_from :: "'j ojson \<Rightarrow> 'j result \<Rightarrow> 'j write_result" where
  "write_result_from J res =
     (let wr = \<lparr>wr_result = res,
                wr_collection = string_field J res ''collection'',
                wr_id = string_field J res ''id'',
                wr_schema = string_field J res ''$'',
                wr_version = string_field J res ''#'',
                wr_version_before = [],
                wr_operation_id = string_field J res ''operationId'',
                wr_distribution_complete = bool_field J res ''distributionComplete'',
                wr_note = replication_note_from J (value_field J res ''note'')\<rparr>;
          versions = value_field J res ''versions'' in
      if oj_is_object J versions then
        (let after = oj_str J (oj_get J versions ''after'') in
         wr\<lparr>wr_version_before := oj_str J (oj_get J versions ''before''),
            wr_version := (if after \<noteq> [] then after else wr_version wr)\<rparr>)
      else wr)"

definition read_result_from :: "'j ojson \<Rightarrow> 'j result \<Rightarrow> 'j read_result" where
  "read_result_from J res =
     \<lparr>rr_result = res,
      rr_collection = string_field J res ''collection'',
      rr_id = string_field J res ''id'',
      rr_sot = value_field J res ''sot'',
      rr_extra_fields = value_field J res ''extraFields'',
      rr_cache_summaries = value_field J res ''cacheSummaries''\<rparr>"

text \<open>Copying a map, entry by entry; \<open>None\<close> is the nil map.\<close>

fun copy_entries :: "(string \<times> goany) list \<Rightarrow> (string \<times> goany) list \<Rightarrow> (string \<times> goany) list" where
  "copy_entries [] out = out"
| "copy_entries ((k, v) # rest) out = copy_entries rest (AList.update k v out)"

definition clone_map :: "(string \<times> goany) list option \<Rightarrow> (string \<times> goany) list" where
  "clone_map m = (case m of None \<Rightarrow> [] | Some kvs \<Rightarrow> copy_entries kvs [])"

section \<open>Routed document commands\<close>

text \<open>
  The tail the document operations share: route by the document id, then execute with a
  resolver that routes by the same id.
\<close>

definition run_document_command :: "'w env \<Rightarrow> 'j ojson \<Rightarrow> ('j, 'w) client \<Rightarrow> 'j establishment \<Rightarrow> string
    \<Rightarrow> route_kind \<Rightarrow> string \<Rightarrow> ('j, 'w) state \<Rightarrow> ('j result \<times> 'j err option) \<times> ('j, 'w) state" where
  "run_document_command E J c est document_id kind body st =
     (case route_document c est document_id kind of
        Inl e \<Rightarrow> ((zero_result J, Some e), st)
      | Inr route \<Rightarrow>
          execute_routed E J c route body (Some (\<lambda>est'. route_document c est' document_id kind)) st)"

section \<open>Reading\<close>

definition read_detail :: "read_options option \<Rightarrow> (string \<times> goany) list" where
  "read_detail opts =
     (case opts of
        None \<Rightarrow> []
      | Some ro \<Rightarrow>
          (if ro_extra_fields ro then [(''extraFields'', GBool True)] else [])
          @ (if ro_cache_summaries ro then [(''cacheSummaries'', GBool True)] else []))"

definition read_doc :: "'w env \<Rightarrow> 'j ojson \<Rightarrow> ('j, 'w) client \<Rightarrow> string \<Rightarrow> string \<Rightarrow> read_options option
    \<Rightarrow> ('j, 'w) state \<Rightarrow> ('j err + 'j read_result) \<times> ('j, 'w) state" where
  "read_doc E J c collection document_id opts st =
     (if collection = [] \<or> document_id = [] then
        (Inl (EMsg ''datorium: collection and id are required'' []), st)
      else
        (case ensure_established E J c st of
           (Inl e, st1) \<Rightarrow> (Inl e, st1)
         | (Inr est, st1) \<Rightarrow>
             (case build_command ''read'' collection document_id (GMap (read_detail opts)) of
                Inl e \<Rightarrow> (Inl e, st1)
              | Inr body \<Rightarrow>
                  (case run_document_command E J c est document_id RouteRead body st1 of
                     ((res, Some e), st2) \<Rightarrow> (Inl e, st2)
                   | ((res, None), st2) \<Rightarrow> (Inr (read_result_from J res), st2)))))"

section \<open>Creating\<close>

definition default_create_verify_delay :: int where
  "default_create_verify_delay = 3000000000"

definition create_verify_delay :: "('j, 'w) client \<Rightarrow> int" where
  "create_verify_delay c =
     (let d = cf_create_verify_delay (cl_cfg c) in
      if d < 0 then 0 else if d = 0 then default_create_verify_delay else d)"

definition write_result_from_existing :: "'w env \<Rightarrow> 'j ojson \<Rightarrow> ('j, 'w) client \<Rightarrow> string \<Rightarrow> string
    \<Rightarrow> ('j, 'w) state \<Rightarrow> 'j write_result option \<times> ('j, 'w) state" where
  "write_result_from_existing E J c collection document_id st =
     (case read_doc E J c collection document_id None st of
        (Inl e, st1) \<Rightarrow> (None, st1)
      | (Inr rr, st1) \<Rightarrow>
          (Some \<lparr>wr_result = rr_result rr, wr_collection = collection, wr_id = document_id,
                 wr_schema = oj_str J (oj_get J (rr_sot rr) ''$''),
                 wr_version = oj_str J (oj_get J (rr_sot rr) ''#''),
                 wr_version_before = [],
                 wr_operation_id = string_field J (rr_result rr) ''operationId'',
                 wr_distribution_complete = False, wr_note = None\<rparr>, st1))"

definition verify_create_after_delay :: "'w env \<Rightarrow> 'j ojson \<Rightarrow> ('j, 'w) client \<Rightarrow> string \<Rightarrow> string
    \<Rightarrow> ('j, 'w) state \<Rightarrow> 'j write_result option \<times> ('j, 'w) state" where
  "verify_create_after_delay E J c collection document_id st =
     (if 0 < create_verify_delay c then
        (case wait_timer E (create_verify_delay c) st of
           (Some ctx_err, st1) \<Rightarrow> (None, st1)
         | (None, st1) \<Rightarrow> write_result_from_existing E J c collection document_id st1)
      else write_result_from_existing E J c collection document_id st)"

definition execute_create :: "'w env \<Rightarrow> 'j ojson \<Rightarrow> ('j, 'w) client \<Rightarrow> string \<Rightarrow> string \<Rightarrow> string
    \<Rightarrow> ('j, 'w) state \<Rightarrow> ('j err + 'j write_result) \<times> ('j, 'w) state" where
  "execute_create E J c collection document_id body st =
     (case ensure_established E J c st of
        (Inl e, st1) \<Rightarrow> (Inl e, st1)
      | (Inr est, st1) \<Rightarrow>
          (case route_document c est document_id RouteWrite of
             Inl e \<Rightarrow> (Inl e, st1)
           | Inr route \<Rightarrow>
               (case execute_routed E J c route body (Some (\<lambda>est'. route_document c est' document_id RouteWrite)) st1 of
                  ((res, None), st2) \<Rightarrow> (Inr (write_result_from J res), st2)
                | ((res, Some e), st2) \<Rightarrow>
                    if is_app_code e code_document_exists then
                      (case write_result_from_existing E J c collection document_id st2 of
                         (Some wr, st3) \<Rightarrow> (Inr wr, st3)
                       | (None, st3) \<Rightarrow> (Inl e, st3))
                    else if errors_as_transport e then
                      (case verify_create_after_delay E J c collection document_id st2 of
                         (Some wr, st3) \<Rightarrow> (Inr wr, st3)
                       | (None, st3) \<Rightarrow> (Inl e, st3))
                    else (Inl e, st2))))"

definition create_doc :: "'w env \<Rightarrow> 'j ojson \<Rightarrow> ('j, 'w) client \<Rightarrow> string \<Rightarrow> string
    \<Rightarrow> (string \<times> goany) list option \<Rightarrow> ('j, 'w) state \<Rightarrow> ('j err + 'j write_result) \<times> ('j, 'w) state" where
  "create_doc E J c collection document_id content st =
     (if collection = [] then (Inl (EMsg ''datorium: collection is required'' []), st)
      else
        (case (if document_id = [] then new_document_id E st else (document_id, st)) of
           (rid, st1) \<Rightarrow>
             (case ensure_operation_id E (clone_map content) st1 of
                (detail, st2) \<Rightarrow>
                  (case build_command ''create'' collection rid (GMap detail) of
                     Inl e \<Rightarrow> (Inl e, st2)
                   | Inr body \<Rightarrow> execute_create E J c collection rid body st2))))"

section \<open>Patching and deleting\<close>

definition patch_doc :: "'w env \<Rightarrow> 'j ojson \<Rightarrow> ('j, 'w) client \<Rightarrow> string \<Rightarrow> string
    \<Rightarrow> (string \<times> goany) list option \<Rightarrow> ('j, 'w) state \<Rightarrow> ('j err + 'j write_result) \<times> ('j, 'w) state" where
  "patch_doc E J c collection document_id detail st =
     (if collection = [] \<or> document_id = [] then
        (Inl (EMsg ''datorium: collection and id are required'' []), st)
      else
        (case ensure_established E J c st of
           (Inl e, st1) \<Rightarrow> (Inl e, st1)
         | (Inr est, st1) \<Rightarrow>
             (case ensure_operation_id E (clone_map detail) st1 of
                (detail', st2) \<Rightarrow>
                  (case build_command ''patch'' collection document_id (GMap detail') of
                     Inl e \<Rightarrow> (Inl e, st2)
                   | Inr body \<Rightarrow>
                       (case run_document_command E J c est document_id RouteWrite body st2 of
                          ((res, Some e), st3) \<Rightarrow> (Inl e, st3)
                        | ((res, None), st3) \<Rightarrow> (Inr (write_result_from J res), st3))))))"

definition delete_doc :: "'w env \<Rightarrow> 'j ojson \<Rightarrow> ('j, 'w) client \<Rightarrow> string \<Rightarrow> string
    \<Rightarrow> (string \<times> goany) list option \<Rightarrow> ('j, 'w) state \<Rightarrow> ('j err + 'j write_result) \<times> ('j, 'w) state" where
  "delete_doc E J c collection document_id detail st =
     (if collection = [] \<or> document_id = [] then
        (Inl (EMsg ''datorium: collection and id are required'' []), st)
      else
        (case ensure_established E J c st of
           (Inl e, st1) \<Rightarrow> (Inl e, st1)
         | (Inr est, st1) \<Rightarrow>
             (case ensure_operation_id E (clone_map detail) st1 of
                (detail', st2) \<Rightarrow>
                  (case build_command ''delete'' collection document_id (GMap detail') of
                     Inl e \<Rightarrow> (Inl e, st2)
                   | Inr body \<Rightarrow>
                       (case run_document_command E J c est document_id RouteWrite body st2 of
                          ((res, Some e), st3) \<Rightarrow> (Inl e, st3)
                        | ((res, None), st3) \<Rightarrow> (Inr (write_result_from J res), st3))))))"

text \<open>The caller's \<open>build\<close> function may use and change its world.\<close>

type_synonym ('j, 'w) detail_builder = "'j \<Rightarrow> 'w \<Rightarrow> ('j err + (string \<times> goany) list option) \<times> 'w"

definition call_build :: "('j, 'w) detail_builder \<Rightarrow> 'j \<Rightarrow> ('j, 'w) state
    \<Rightarrow> ('j err + (string \<times> goany) list option) \<times> ('j, 'w) state" where
  "call_build build sot st = (case build sot (st_world st) of (r, w) \<Rightarrow> (r, st\<lparr>st_world := w\<rparr>))"

definition patch_with_version_retry :: "'w env \<Rightarrow> 'j ojson \<Rightarrow> ('j, 'w) client \<Rightarrow> string \<Rightarrow> string
    \<Rightarrow> ('j, 'w) detail_builder \<Rightarrow> ('j, 'w) state \<Rightarrow> ('j err + 'j write_result) \<times> ('j, 'w) state" where
  "patch_with_version_retry E J c collection document_id build st =
     (case read_doc E J c collection document_id None st of
        (Inl e, st1) \<Rightarrow> (Inl e, st1)
      | (Inr rr, st1) \<Rightarrow>
          (case call_build build (rr_sot rr) st1 of
             (Inl e, st2) \<Rightarrow> (Inl e, st2)
           | (Inr detail, st2) \<Rightarrow>
               (case patch_doc E J c collection document_id detail st2 of
                  (Inr wr, st3) \<Rightarrow> (Inr wr, st3)
                | (Inl e, st3) \<Rightarrow>
                    if \<not> is_app_code e code_version_mismatch then (Inl e, st3)
                    else
                      (case read_doc E J c collection document_id None st3 of
                         (Inl e', st4) \<Rightarrow> (Inl e', st4)
                       | (Inr rr', st4) \<Rightarrow>
                           (case call_build build (rr_sot rr') st4 of
                              (Inl e', st5) \<Rightarrow> (Inl e', st5)
                            | (Inr detail', st5) \<Rightarrow> patch_doc E J c collection document_id detail' st5)))))"

section \<open>The operations keep the contract of the client\<close>

lemma run_document_authorised [op_intro]:
  "client_op event_authorised (run_document_command E J c est document_id kind body)"
  unfolding run_document_command_def by (intro op_intro)

lemma read_authorised [op_intro]: "client_op event_authorised (read_doc E J c collection document_id opts)"
  unfolding read_doc_def by (intro op_intro)

lemma existing_authorised [op_intro]:
  "client_op event_authorised (write_result_from_existing E J c collection document_id)"
  unfolding write_result_from_existing_def by (intro op_intro)

lemma verify_authorised [op_intro]:
  "client_op event_authorised (verify_create_after_delay E J c collection document_id)"
  unfolding verify_create_after_delay_def by (intro op_intro)

lemma execute_create_authorised [op_intro]:
  "client_op event_authorised (execute_create E J c collection document_id body)"
  unfolding execute_create_def by (intro op_intro)

lemma patch_authorised [op_intro]: "client_op event_authorised (patch_doc E J c collection document_id detail)"
  unfolding patch_doc_def by (intro op_intro)

lemma build_authorised [op_intro]: "client_op event_authorised (call_build build sot)"
  by unfold_locales (auto simp: call_build_def split: prod.splits)

interpretation read_op: client_op event_authorised "read_doc E J c collection document_id opts"
  for E J c collection document_id opts
  by (rule read_authorised)

interpretation create_op: client_op event_authorised "create_doc E J c collection document_id content"
  for E J c collection document_id content
  unfolding create_doc_def new_document_id_def by (intro op_intro)

interpretation patch_op: client_op event_authorised "patch_doc E J c collection document_id detail"
  for E J c collection document_id detail
  by (rule patch_authorised)

interpretation delete_op: client_op event_authorised "delete_doc E J c collection document_id detail"
  for E J c collection document_id detail
  unfolding delete_doc_def by (intro op_intro)

interpretation version_retry_op: client_op event_authorised "patch_with_version_retry E J c collection document_id build"
  for E J c collection document_id build
  unfolding patch_with_version_retry_def by (intro op_intro)

section \<open>Request budgets\<close>

interpretation document_budget: budget_op "attempts_max c" "routed_cost c"
  "run_document_command E J c est document_id kind body" for E J c est document_id kind body
  unfolding run_document_command_def
  by (intro budget_rules budget_return routed_budget_op.budget_op_axioms attempts_max_nonneg routed_cost_pos)

text \<open>A read costs the establishment document and one routed command.\<close>

definition read_cost :: "('j, 'w) client \<Rightarrow> int" where
  "read_cost c = routed_cost c + 1"

lemma read_cost_pos [simp]: "0 \<le> read_cost c"
  using routed_cost_pos(1) [of c] by (simp add: read_cost_def)

interpretation read_budget: budget_op "attempts_max c" "read_cost c" "read_doc E J c collection document_id opts"
  for E J c collection document_id opts
  unfolding read_doc_def
  by (intro budget_rules budget_return budget_bind [OF ensure_budget.budget_op_axioms]
      budget_bind [OF document_budget.budget_op_axioms]) (simp_all add: read_cost_def)

interpretation existing_budget: budget_op "attempts_max c" "read_cost c"
  "write_result_from_existing E J c collection document_id" for E J c collection document_id
  unfolding write_result_from_existing_def
  by (intro budget_rules budget_return budget_bind [OF read_budget.budget_op_axioms]) simp_all

interpretation verify_budget: budget_op "attempts_max c" "read_cost c"
  "verify_create_after_delay E J c collection document_id" for E J c collection document_id
  unfolding verify_create_after_delay_def
  by (intro budget_rules budget_return budget_bind [OF wait_budget.budget_op_axioms]
      existing_budget.budget_op_axioms)
    (simp_all add: existing_budget.budget_op_axioms)

interpretation patch_budget: budget_op "attempts_max c" "read_cost c" "patch_doc E J c collection document_id detail"
  for E J c collection document_id detail
  unfolding patch_doc_def
  by (intro budget_rules budget_return budget_bind [OF ensure_budget.budget_op_axioms]
      budget_bind [OF operation_id_budget.budget_op_axioms]
      budget_bind [OF document_budget.budget_op_axioms]) (simp_all add: read_cost_def)

interpretation execute_create_budget: budget_op "attempts_max c" "2 * read_cost c"
  "execute_create E J c collection document_id body" for E J c collection document_id body
proof -
  have left: "budget_op (attempts_max c) (2 * read_cost c - 1 - routed_cost c) (write_result_from_existing E J c collection document_id)"
    "budget_op (attempts_max c) (2 * read_cost c - 1 - routed_cost c) (verify_create_after_delay E J c collection document_id)"
    by (simp_all add: read_cost_def existing_budget.budget_op_axioms [unfolded read_cost_def]
        verify_budget.budget_op_axioms [unfolded read_cost_def])
  show "budget_op (attempts_max c) (2 * read_cost c) (execute_create E J c collection document_id body)"
    unfolding execute_create_def
    by (intro budget_rules budget_return budget_bind [OF ensure_budget.budget_op_axioms]
        budget_bind [OF routed_budget_op.budget_op_axioms] budget_bind [OF left(1)] budget_bind [OF left(2)])
      (simp_all add: read_cost_def)
qed

interpretation build_budget: budget_op u 0 "call_build build sot" for u build sot
  by unfold_locales (simp add: call_build_def sent_count_def split: prod.splits)

interpretation version_retry_budget: budget_op "attempts_max c" "4 * read_cost c"
  "patch_with_version_retry E J c collection document_id build" for E J c collection document_id build
proof -
  have last: "budget_op (attempts_max c) (4 * read_cost c - read_cost c - 0 - read_cost c - read_cost c - 0)
      (patch_doc E J c collection document_id detail)" for detail
    by (simp add: patch_budget.budget_op_axioms)
  show "budget_op (attempts_max c) (4 * read_cost c) (patch_with_version_retry E J c collection document_id build)"
    unfolding patch_with_version_retry_def
    by (intro budget_rules budget_return budget_bind [OF read_budget.budget_op_axioms]
        budget_bind [OF patch_budget.budget_op_axioms] budget_bind [OF build_budget.budget_op_axioms] last)
      simp_all
qed

section \<open>What success and failure mean\<close>

lemma run_document_accepted:
  "run_document_command E J c est document_id kind body st = ((res, None), st') \<Longrightarrow> 0 \<le> cl_wm_retries c \<Longrightarrow>
     rs_ok res \<and> (\<exists>rq. delivered J c rq res)"
  by (auto simp: run_document_command_def split: sum.splits dest: execute_routed_success)

lemma read_doc_Inr:
  fixes J :: "'j ojson"
  assumes "read_doc E J c collection document_id opts st = (Inr rr, st')"
  obtains est st1 body res where "collection \<noteq> []" "document_id \<noteq> []"
    "ensure_established E J c st = (Inr est, st1)"
    "run_document_command E J c est document_id RouteRead body st1 = ((res, None), st')"
    "rr = read_result_from J res" "build_command ''read'' collection document_id (GMap (read_detail opts)) = (Inr body :: 'j err + string)"
  using assms by (auto simp: read_doc_def split: if_splits prod.splits sum.splits option.splits)

lemma read_doc_accepted:
  assumes "read_doc E J c collection document_id opts st = (Inr rr, st')" "0 \<le> cl_wm_retries c"
  shows "rs_ok (rr_result rr) \<and> (\<exists>rq. delivered J c rq (rr_result rr)) \<and> rr = read_result_from J (rr_result rr)"
  using assms(1)
proof (rule read_doc_Inr)
  fix est st1 body res
  assume run: "run_document_command E J c est document_id RouteRead body st1 = ((res, None), st')"
    and rr: "rr = read_result_from J res"
  have "rr_result rr = res" by (simp add: rr read_result_from_def)
  with run_document_accepted [OF run assms(2)] rr show ?thesis by simp
qed

text \<open>The answers are to requests for the document itself.\<close>

lemma run_document_answer:
  assumes "run_document_command E J c est document_id kind body st = ((res, None), st')" "0 \<le> cl_wm_retries c"
  shows "answered_last J c (trim_space body) st st' res"
  using assms by (auto simp: run_document_command_def split: sum.splits intro: execute_routed_answer)

lemma plain_read_text:
  "build_command ''read'' collection document_id (GMap []) = (Inr body :: 'j err + string) \<Longrightarrow>
     body = command_text ''read'' collection document_id ''{}''"
  by (simp add: build_command_def json_object_def marshal_command_text split: if_splits)

lemma read_doc_answer:
  assumes "read_doc E J c collection document_id None st = (Inr rr, st')" "0 \<le> cl_wm_retries c"
  shows "answered_last J c (command_text ''read'' collection document_id ''{}'') st st' (rr_result rr)"
  using assms(1)
proof (rule read_doc_Inr)
  fix est st1 body res
  assume en: "ensure_established E J c st = (Inr est, st1)"
    and run: "run_document_command E J c est document_id RouteRead body st1 = ((res, None), st')"
    and rr: "rr = read_result_from J res"
    and body: "build_command ''read'' collection document_id (GMap (read_detail None)) = (Inr body :: 'a err + string)"
  have "body = command_text ''read'' collection document_id ''{}''"
    by (rule plain_read_text) (use body in \<open>simp add: read_detail_def\<close>)
  then have "answered_last J c (command_text ''read'' collection document_id ''{}'') st1 st' res"
    using run_document_answer [OF run assms(2)] by simp
  from answered_later [OF this ensure_established_frame(1) [OF en]] show ?thesis
    by (simp add: rr read_result_from_def)
qed

abbreviation read_back :: "'j ojson \<Rightarrow> ('j, 'w) client \<Rightarrow> string \<Rightarrow> string \<Rightarrow> ('j, 'w) state \<Rightarrow> ('j, 'w) state \<Rightarrow> 'j write_result \<Rightarrow> bool" where
  "read_back J c collection rid st st' wr \<equiv> rs_ok (wr_result wr)
     \<and> answered_last J c (command_text ''read'' collection rid ''{}'') st st' (wr_result wr)
     \<and> wr = \<lparr>wr_result = wr_result wr, wr_collection = collection, wr_id = rid,
       wr_schema = oj_str J (oj_get J (value_field J (wr_result wr) ''sot'') ''$''),
       wr_version = oj_str J (oj_get J (value_field J (wr_result wr) ''sot'') ''#''), wr_version_before = [],
       wr_operation_id = string_field J (wr_result wr) ''operationId'', wr_distribution_complete = False, wr_note = None\<rparr>"

lemma existing_accepted:
  assumes "write_result_from_existing E J c collection document_id st = (Some wr, st')" "0 \<le> cl_wm_retries c"
  shows "read_back J c collection document_id st st' wr"
proof -
  from assms(1) obtain rr where rr: "read_doc E J c collection document_id None st = (Inr rr, st')"
    and wr: "wr = \<lparr>wr_result = rr_result rr, wr_collection = collection, wr_id = document_id,
      wr_schema = oj_str J (oj_get J (rr_sot rr) ''$''), wr_version = oj_str J (oj_get J (rr_sot rr) ''#''),
      wr_version_before = [], wr_operation_id = string_field J (rr_result rr) ''operationId'',
      wr_distribution_complete = False, wr_note = None\<rparr>"
    by (auto simp: write_result_from_existing_def split: prod.splits sum.splits)
  have ok: "rs_ok (rr_result rr)" "rr = read_result_from J (rr_result rr)" using read_doc_accepted [OF rr assms(2)] by auto
  from arg_cong [OF ok(2), of rr_sot] have "rr_sot rr = value_field J (rr_result rr) ''sot''"
    by (simp add: read_result_from_def)
  then show ?thesis using ok(1) read_doc_answer [OF rr assms(2)] by (simp add: wr)
qed

lemma verify_accepted:
  assumes "verify_create_after_delay E J c collection document_id st = (Some wr, st')" "0 \<le> cl_wm_retries c"
  shows "read_back J c collection document_id st st' wr"
proof (cases "0 < create_verify_delay c")
  case True
  obtain x st1 where w: "wait_timer E (create_verify_delay c) st = (x, st1)" by (metis surj_pair)
  then have "write_result_from_existing E J c collection document_id st1 = (Some wr, st')"
    using assms(1) True by (auto simp: verify_create_after_delay_def split: option.splits)
  moreover have "extends event_authorised st st1" using client_op.run_extends_to [OF wait_authorised w] .
  ultimately show ?thesis using existing_accepted [OF _ assms(2)] answered_later by blast
next
  case False
  then show ?thesis using assms existing_accepted by (simp add: verify_create_after_delay_def)
qed

lemma execute_create_Inr:
  assumes "execute_create E J c collection document_id body st = (Inr wr, st')" "0 \<le> cl_wm_retries c"
  shows "rs_ok (wr_result wr) \<and> answered_last J c (trim_space body) st st' (wr_result wr)
      \<and> wr = write_result_from J (wr_result wr)
    \<or> read_back J c collection document_id st st' wr"
proof -
  obtain est st1 where es: "ensure_established E J c st = (Inr est, st1)"
    using assms(1) by (auto simp: execute_create_def split: prod.splits sum.splits)
  obtain route where rt: "route_document c est document_id RouteWrite = Inr route"
    using assms(1) es by (auto simp: execute_create_def split: sum.splits)
  obtain res err st2 where x: "execute_routed E J c route body
      (Some (\<lambda>est'. route_document c est' document_id RouteWrite)) st1 = ((res, err), st2)" by (metis surj_pair)
  note ext1 = ensure_established_frame(1) [OF es]
  obtain ext2: "extends event_authorised st1 st2"
    using client_op.run_extends_to [OF execute_authorised x] by blast
  note later = answered_later [OF answered_later [OF _ ext2] ext1]
  show ?thesis
  proof (cases err)
    case None
    have "wr_result (write_result_from J res) = res" by (simp add: write_result_from_def Let_def)
    moreover have "wr = write_result_from J res" "st' = st2"
      using assms(1) es rt x None by (simp_all add: execute_create_def)
    ultimately show ?thesis
      using execute_routed_success [OF x [unfolded None] assms(2)] ext1
        answered_later [OF execute_routed_answer [OF x [unfolded None] assms(2)]] by metis
  next
    case (Some e)
    have "write_result_from_existing E J c collection document_id st2 = (Some wr, st')
        \<or> verify_create_after_delay E J c collection document_id st2 = (Some wr, st')"
      using assms(1) es rt x Some by (auto simp: execute_create_def split: prod.splits option.splits if_splits)
    then have "read_back J c collection document_id st2 st' wr"
      using existing_accepted [OF _ assms(2)] verify_accepted [OF _ assms(2)] by blast
    then show ?thesis using later by blast
  qed
qed

lemma create_doc_Inr:
  fixes J :: "'j ojson"
  assumes "create_doc E J c collection document_id content st = (Inr wr, st')"
  obtains rid st1 detail st2 body where "collection \<noteq> []"
    "(if document_id = [] then new_document_id E st else (document_id, st)) = (rid, st1)"
    "ensure_operation_id E (clone_map content) st1 = (detail, st2)"
    "build_command ''create'' collection rid (GMap detail) = (Inr body :: 'j err + string)"
    "execute_create E J c collection rid body st2 = (Inr wr, st')"
  using assms by (auto simp: create_doc_def split: if_splits prod.splits sum.splits)

lemma patch_doc_Inr:
  assumes "patch_doc E J c collection document_id detail st = (Inr wr, st')" "0 \<le> cl_wm_retries c"
  shows "rs_ok (wr_result wr) \<and> (\<exists>rq. delivered J c rq (wr_result wr))"
proof -
  have "wr_result (write_result_from J res) = res" for res by (simp add: write_result_from_def Let_def)
  then show ?thesis
    using assms(1)
    by (auto simp: patch_doc_def split: if_splits prod.splits sum.splits option.splits
        dest: run_document_accepted [OF _ assms(2)])
qed

lemma copy_entries_map_of: "map_of (copy_entries kvs out) k = (case map_of (rev kvs) k of None \<Rightarrow> map_of out k | Some v \<Rightarrow> Some v)"
  by (induction kvs out rule: copy_entries.induct)
    (auto simp: map_of_append map_add_def update_conv split: option.splits)

lemma map_of_rev_distinct: "distinct (map fst kvs) \<Longrightarrow> map_of (rev kvs) = map_of kvs"
  by (rule map_of_eqI) (auto simp: rev_map [symmetric] map_of_eq_Some_iff)

lemma clone_map_of: "distinct (map fst kvs) \<Longrightarrow> map_of (clone_map (Some kvs)) = map_of kvs"
  by (rule ext) (simp add: clone_map_def copy_entries_map_of map_of_rev_distinct split: option.split)

section \<open>Scripted runs\<close>

lemma script_exec_ok:
  assumes "trim_space body = body" "body \<noteq> []" "length t \<le> 10" "decode_result SJ t = Inr res" "rs_ok res"
    "0 \<le> wm" "rt_base_url r \<noteq> []"
  shows "execute_routed script_env SJ (script_client wm 0) r body resolve
      \<lparr>st_cache = cache, st_trace = tr, st_world = answer t # w\<rparr>
    = ((res, None), \<lparr>st_cache = cache, st_trace = tr @ [script_post wm (rt_base_url r) body], st_world = w\<rparr>)"
  using assms unfolding execute_routed_def
  by (subst execute_loop.simps) (simp add: script_post_command)

lemma script_exec_lost:
  assumes "trim_space body = body" "body \<noteq> []" "0 \<le> wm" "rt_base_url r \<noteq> []"
  shows "execute_routed script_env SJ (script_client wm 0) r body resolve
      \<lparr>st_cache = cache, st_trace = tr, st_world = lost # w\<rparr>
    = ((zero_result SJ, Some (ETransport 0 [] (Some (EExt ''connection reset'')))),
       \<lparr>st_cache = cache, st_trace = tr @ [script_post wm (rt_base_url r) body], st_world = w\<rparr>)"
  using assms unfolding execute_routed_def
  by (subst execute_loop.simps)
    (simp add: post_command_def Let_def script_do_json_one script_once lost_def script_post_def)

definition found_result :: "js result" where
  "found_result = \<lparr>rs_ok = True, rs_errors = [], rs_env = JObj [(''ok'', JBool True), (''sot'', JObj [(''#'', JStr ''v1'')])],
     rs_body = ''S''\<rparr>"

lemma found_decode: "decode_result SJ ''S'' = Inr found_result" "rs_ok found_result"
  by (simp_all add: decode_result_def script_reader_def found_result_def Let_def)

definition read_body :: string where "read_body = command_text ''read'' ''Todos'' ''abcdef.1'' ''{}''"

lemma read_body_trim [simp]: "trim_space read_body = read_body" "read_body \<noteq> []"
  by (simp_all add: read_body_def)

lemma read_command: "build_command ''read'' ''Todos'' ''abcdef.1'' (GMap []) = Inr read_body"
  by (simp add: build_command_def json_object_def marshal_command_text read_body_def)

lemma script_cached: "ensure_established E J c \<lparr>st_cache = Some est, st_trace = tr, st_world = w\<rparr>
    = (Inr est, \<lparr>st_cache = Some est, st_trace = tr, st_world = w\<rparr>)"
  by (simp add: ensure_established_def)

lemma script_read:
  "0 \<le> wm \<Longrightarrow> read_doc script_env SJ (script_client wm 0) ''Todos'' ''abcdef.1'' None
      \<lparr>st_cache = Some sample_est, st_trace = tr, st_world = answer ''S'' # w\<rparr>
    = (Inr (read_result_from SJ found_result),
       \<lparr>st_cache = Some sample_est, st_trace = tr @ [script_post wm ''http://b'' read_body], st_world = w\<rparr>)"
  by (simp add: read_doc_def script_cached read_detail_def read_command run_document_command_def script_route
      script_exec_ok [OF read_body_trim _ found_decode])

lemma script_delay: "create_verify_delay (script_client wm tr) = 0"
  by (simp add: create_verify_delay_def script_client_def script_config_def)

lemma script_existing:
  "0 \<le> wm \<Longrightarrow> write_result_from_existing script_env SJ (script_client wm 0) ''Todos'' ''abcdef.1''
      \<lparr>st_cache = Some sample_est, st_trace = tr, st_world = answer ''S'' # w\<rparr>
    = (Some \<lparr>wr_result = found_result, wr_collection = ''Todos'', wr_id = ''abcdef.1'', wr_schema = [],
          wr_version = ''v1'', wr_version_before = [], wr_operation_id = [],
          wr_distribution_complete = False, wr_note = None\<rparr>,
       \<lparr>st_cache = Some sample_est, st_trace = tr @ [script_post wm ''http://b'' read_body], st_world = w\<rparr>)"
  by (simp add: write_result_from_existing_def script_read read_result_from_def found_result_def value_field_def
      string_field_def json_value_as_string_def)

definition existing_summary :: "js write_result" where
  "existing_summary = \<lparr>wr_result = found_result, wr_collection = ''Todos'', wr_id = ''abcdef.1'', wr_schema = [],
     wr_version = ''v1'', wr_version_before = [], wr_operation_id = [], wr_distribution_complete = False, wr_note = None\<rparr>"

lemma script_lost_create:
  assumes "trim_space body = body" "body \<noteq> []" "0 \<le> wm"
  shows "execute_create script_env SJ (script_client wm 0) ''Todos'' ''abcdef.1'' body
      \<lparr>st_cache = Some sample_est, st_trace = [], st_world = [lost, answer ''S'']\<rparr>
    = (Inr existing_summary, \<lparr>st_cache = Some sample_est,
        st_trace = [script_post wm ''http://b'' body, script_post wm ''http://b'' read_body], st_world = []\<rparr>)"
  using assms
  by (simp add: execute_create_def script_cached script_route script_exec_lost verify_create_after_delay_def
      script_delay script_existing existing_summary_def)

section \<open>Properties\<close>

text \<open>A read that succeeds is one the server accepted: its summary is taken from an ok:true
  envelope that the transport delivered, and nothing else.\<close>

lemma read_sound:
  assumes "0 \<le> cl_wm_retries c" "read_doc E J c collection document_id opts st = (Inr rr, st')"
  shows "collection \<noteq> [] \<and> document_id \<noteq> [] \<and> rs_ok (rr_result rr)
    \<and> (\<exists>rq. delivered J c rq (rr_result rr)) \<and> rr = read_result_from J (rr_result rr)"
  using read_doc_accepted [OF assms(2,1)] assms(2) by (auto simp: read_doc_def split: if_splits)

text \<open>Every patch and delete detail carries an operation id, and only that is added: an id the
  caller gave is kept, and every other entry is the caller's.\<close>

lemma operation_id_added:
  assumes "distinct (map fst kvs)" "ensure_operation_id E (clone_map (Some kvs)) st = (detail, st')"
  shows "map_of detail ''operationId'' \<noteq> None
    \<and> (\<forall>k. k \<noteq> ''operationId'' \<longrightarrow> map_of detail k = map_of kvs k)
    \<and> (map_of kvs ''operationId'' \<noteq> None \<longrightarrow> map_of detail ''operationId'' = map_of kvs ''operationId'' \<and> st' = st)"
  using assms(2)
  by (auto simp: ensure_operation_id_def clone_map_of [OF assms(1)] map_of_append map_add_def
      split: option.splits prod.splits)


definition script_content :: "(string \<times> goany) list" where
  "script_content = [(''operationId'', GStr ''o1'')]"

lemma script_create:
  "\<exists>st'. create_doc script_env SJ (script_client 1 0) ''Todos'' ''abcdef.1'' (Some script_content)
     (script_state (Some sample_est) [lost, answer ''S'']) = (Inr existing_summary, st')"
proof -
  have detail: "ensure_operation_id script_env (clone_map (Some script_content)) st = (script_content, st)" for st :: "(js, script) state"
    by (simp add: clone_map_def script_content_def ensure_operation_id_def)
  obtain body where body: "build_command ''create'' ''Todos'' ''abcdef.1'' (GMap script_content) = (Inr body :: js err + string)"
    by (simp add: build_command_def script_content_def json_object_def marshal_command_text)
  show ?thesis
    using build_command_trim [OF body] script_lost_create [of body 1]
    by (simp add: create_doc_def detail body script_state_def)
qed


text \<open>A failed create reports its own error. The error of Create is the one of fetching the
  establishment document, of routing, or of the create command itself, never that of the
  follow-up read.\<close>

lemma create_error_own:
  assumes "execute_create E J c collection document_id body st = (Inl e, st')"
  shows "(\<exists>st1. ensure_established E J c st = (Inl e, st1))
    \<or> (\<exists>est st1. ensure_established E J c st = (Inr est, st1) \<and>
        (route_document c est document_id RouteWrite = Inl e
         \<or> (\<exists>route res st2. route_document c est document_id RouteWrite = Inr route
              \<and> execute_routed E J c route body (Some (\<lambda>est'. route_document c est' document_id RouteWrite)) st1
                = ((res, Some e), st2))))"
proof -
  obtain r st1 where es: "ensure_established E J c st = (r, st1)" by (metis surj_pair)
  show ?thesis
  proof (cases r)
    case (Inl e')
    then show ?thesis using assms es by (simp add: execute_create_def)
  next
    case (Inr est)
    show ?thesis
    proof (cases "route_document c est document_id RouteWrite")
      case (Inl e')
      then show ?thesis using assms es Inr by (auto simp: execute_create_def)
    next
      case rt: (Inr route)
      obtain res err st2 where x: "execute_routed E J c route body
          (Some (\<lambda>est'. route_document c est' document_id RouteWrite)) st1 = ((res, err), st2)" by (metis surj_pair)
      have "err = Some e"
        using assms es Inr rt x
        by (auto simp: execute_create_def split: option.splits prod.splits if_splits)
      then show ?thesis using es Inr rt x by blast
    qed
  qed
qed

lemma script_unreachable:
  "establish script_env SJ (script_client 1 0) [] (script_state None [])
     = (Some (ETransport 0 [] (Some (EExt ''refused''))),
        \<lparr>st_cache = None, st_trace = [script_get 1], st_world = []\<rparr>)"
proof -
  have "cf_establishment_url (cl_cfg (script_client 1 0)) = ''http://e''"
    by (simp add: script_client_def script_config_def)
  then show ?thesis
    by (simp add: establish_def script_do_json_one script_once script_state_def script_get_def)
qed

text \<open>A negative verify delay does not disable the follow-up read, it only removes the wait: the
  configuration comment says it disables it. With the delay at -1, a create whose answer is lost
  is followed at once by a read, and succeeds when that finds the document.\<close>

lemma negative_delay_reads:
  assumes "build_command ''create'' ''Todos'' ''abcdef.1'' detail = (Inr body :: js err + string)"
  shows "cf_create_verify_delay (cl_cfg (script_client 1 0)) = -1
    \<and> execute_create script_env SJ (script_client 1 0) ''Todos'' ''abcdef.1'' body
        (script_state (Some sample_est) [lost, answer ''S''])
      = (Inr existing_summary, \<lparr>st_cache = Some sample_est,
          st_trace = [script_post 1 ''http://b'' body, script_post 1 ''http://b'' read_body], st_world = []\<rparr>)"
  using build_command_trim [OF assms] script_lost_create [of body 1]
  by (simp add: script_state_def) (simp add: script_client_def script_config_def)

text \<open>PatchWithVersionRetry retries once: it makes at most the requests of two reads and two
  patches, each of them within the budget of a routed command and one establishment fetch.\<close>

lemma version_retry_bounded:
  assumes "tr_ok c" "0 \<le> cl_wm_retries c"
    and "patch_with_version_retry E J c collection document_id build st = (out, st')"
  shows "sent_count st' - sent_count st \<le> 8 * (cl_wm_retries c + 1) * (cl_tr_retries c + 1)"
proof -
  have "attempts_max c = cl_tr_retries c + 1"
    using assms(1) by (simp add: attempts_max_def tr_ok_def attempts_positive)
  then show ?thesis
    using version_retry_budget.within_budget [OF assms(3)] assms(2)
    by (simp add: read_cost_def routed_cost_def algebra_simps)
qed

end
