(* ===== verification/SearchPath.thy ===== *)
theory SearchPath
  imports Shard
begin

text \<open>
  Package searchpath (searchpath/searchpath.go): the encoding of search values as path
  segments and the slot of a search bucket.
\<close>

text \<open>The verb \<open>%x\<close> prints two lowercase digits for every byte.\<close>

definition hex_digit_lower :: "nat \<Rightarrow> char" where
  "hex_digit_lower n = (if n < 10 then char_of (48 + n) else char_of (87 + n))"

fun hex_lower :: "string \<Rightarrow> string" where
  "hex_lower [] = []"
| "hex_lower (c # cs) =
     hex_digit_lower (byte_val c div 16) # hex_digit_lower (byte_val c mod 16) # hex_lower cs"

definition encode_string_value :: "string \<Rightarrow> string" where
  "encode_string_value s = (if s = [] then ''empty'' else to_upper (hex_lower s))"

definition encode_truth :: "bool \<Rightarrow> string" where
  "encode_truth b = (if b then ''true'' else ''false'')"

definition encode_null :: string where
  "encode_null = ''null''"

definition shard_input :: "string list \<Rightarrow> string" where
  "shard_input segments = join_with (CHR ''/'') segments"

definition shard_slot :: "string list \<Rightarrow> byte" where
  "shard_slot segments = raw_slot (shard_input segments)"

definition equals_string_segments :: "string list \<Rightarrow> string list" where
  "equals_string_segments values = map encode_string_value values"

section \<open>The encoding is injective\<close>

text \<open>A reference decoder of the hexadecimal segments.\<close>

fun unhex :: "string \<Rightarrow> string option" where
  "unhex [] = Some []"
| "unhex [c] = None"
| "unhex (c # d # s) =
     (case (hex_val c, hex_val d, unhex s) of
        (Some m, Some n, Some t) \<Rightarrow> Some (char_of (16 * m + n) # t)
      | _ \<Rightarrow> None)"

definition decode_value :: "string \<Rightarrow> string option" where
  "decode_value s = (if s = ''empty'' then Some [] else unhex s)"

lemma upper_hex_lower: "n < 16 \<Longrightarrow> upper_char (hex_digit_lower n) = hex_digit n"
  by (auto simp: upper_char_def hex_digit_lower_def hex_digit_def)

lemma upper_hex_lower_string:
  "to_upper (hex_lower (c # s)) =
     hex_digit (byte_val c div 16) # hex_digit (byte_val c mod 16) # to_upper (hex_lower s)"
proof -
  have "byte_val c div 16 < 16" using byte_val_less [of c] by (rule less_mult_imp_div_less [of _ 16 16, simplified])
  then show ?thesis by (simp add: to_upper_def upper_hex_lower)
qed

lemma unhex_upper_hex: "unhex (to_upper (hex_lower s)) = Some s"
proof (induction s)
  case (Cons c s)
  have "byte_val c div 16 < 16"
    using byte_val_less [of c] by (rule less_mult_imp_div_less [of _ 16 16, simplified])
  with Cons show ?case
    by (simp only: upper_hex_lower_string unhex.simps) simp
qed (simp add: to_upper_def)

lemma upper_hex_digits:
  "c \<in> set (to_upper (hex_lower s)) \<Longrightarrow> hex_val c \<noteq> None"
proof (induction s)
  case (Cons d s)
  have "byte_val d div 16 < 16"
    using byte_val_less [of d] by (rule less_mult_imp_div_less [of _ 16 16, simplified])
  with Cons show ?case by (simp only: upper_hex_lower_string) auto
qed (simp add: to_upper_def)

lemma not_hex_char: "hex_val (CHR ''/'') = None" "hex_val (CHR ''m'') = None"
  "hex_val (CHR ''l'') = None" "hex_val (CHR ''u'') = None"
  by (simp_all add: hex_val_def)

lemma upper_hex_free: "hex_val c = None \<Longrightarrow> c \<notin> set (to_upper (hex_lower s))"
  by (auto dest!: upper_hex_digits)

lemma hex_string_ne:
  "c \<in> set w \<Longrightarrow> hex_val c = None \<Longrightarrow> to_upper (hex_lower s) \<noteq> w"
  by (auto dest: upper_hex_free [of c s])

lemma encode_value_ne:
  assumes "c \<in> set w" "hex_val c = None" "w \<noteq> ''empty''"
  shows "encode_string_value s \<noteq> w"
  using assms hex_string_ne by (auto simp: encode_string_value_def)

interpretation segment: codec encode_string_value decode_value "\<lambda>_. True"
proof unfold_locales
  fix s
  have "to_upper (hex_lower s) \<noteq> ''empty''"
    by (rule hex_string_ne [of "CHR ''m''"]) (simp_all add: not_hex_char)
  then show "decode_value (encode_string_value s) = Some s"
    by (simp add: decode_value_def encode_string_value_def unhex_upper_hex)
qed

lemma encode_value_clean:
  "encode_string_value s \<noteq> []" "CHR ''/'' \<notin> set (encode_string_value s)"
proof -
  have "to_upper (hex_lower s) \<noteq> []" if "s \<noteq> []"
    using that by (cases s) (simp_all add: to_upper_def)
  then show "encode_string_value s \<noteq> []" by (simp add: encode_string_value_def)
  show "CHR ''/'' \<notin> set (encode_string_value s)"
    using upper_hex_free [OF not_hex_char(1)] by (simp add: encode_string_value_def)
qed

text \<open>Joining segments that are not empty and hold no slash loses nothing.\<close>

lemma join_with_empty: "\<forall>r \<in> set rs. r \<noteq> [] \<Longrightarrow> join_with c rs = [] \<longleftrightarrow> rs = []"
  by (cases "(c, rs)" rule: join_with.cases) auto

definition clean_segments :: "char \<Rightarrow> string list \<Rightarrow> bool" where
  "clean_segments c ps = list_all (\<lambda>p. p \<noteq> [] \<and> c \<notin> set p) ps"

lemma split_join_clean: "clean_segments c ps \<Longrightarrow> ps \<noteq> [] \<Longrightarrow> split_on c (join_with c ps) = ps"
  by (rule split_on_join) (simp_all add: clean_segments_def list_all_iff)

lemma join_clean_empty: "clean_segments c ps \<Longrightarrow> join_with c ps = [] \<longleftrightarrow> ps = []"
  by (rule join_with_empty) (simp add: clean_segments_def list_all_iff)

lemma join_with_inj:
  assumes "clean_segments c ps" "clean_segments c qs" "join_with c ps = join_with c qs"
  shows "ps = qs"
proof (cases "ps = []")
  case True
  then have "join_with c qs = []" using assms(3) by simp
  then show ?thesis using True join_clean_empty [OF assms(2)] by simp
next
  case False
  then have "qs \<noteq> []" using assms(3) join_clean_empty [OF assms(1)] by auto
  with split_join_clean [OF assms(2)] have "qs = split_on c (join_with c qs)" by metis
  also have "\<dots> = split_on c (join_with c ps)" by (simp only: assms(3))
  also have "\<dots> = ps" by (rule split_join_clean [OF assms(1) False])
  finally show ?thesis by (rule sym)
qed

section \<open>Properties\<close>

text \<open>Path segments identify values: two strings with the same segment are equal, and the
  segments of strings, truth values and null are pairwise different. No segment is empty or
  holds a slash.\<close>

lemma segments_identify_values:
  "(encode_string_value s = encode_string_value t) = (s = t)
   \<and> encode_string_value s \<noteq> encode_truth b \<and> encode_string_value s \<noteq> encode_null
   \<and> encode_truth b \<noteq> encode_null \<and> (encode_truth a = encode_truth b) = (a = b)
   \<and> encode_string_value s \<noteq> [] \<and> CHR ''/'' \<notin> set (encode_string_value s)"
proof -
  have "encode_string_value s \<noteq> ''true''" "encode_string_value s \<noteq> ''null''"
    by (rule encode_value_ne [of "CHR ''u''"]; simp add: not_hex_char)+
  moreover have "encode_string_value s \<noteq> ''false''"
    by (rule encode_value_ne [of "CHR ''l''"]; simp add: not_hex_char)
  moreover have "(encode_string_value s = encode_string_value t) = (s = t)"
    using segment.enc_inj by blast
  ultimately show ?thesis
    using encode_value_clean by (simp add: encode_truth_def encode_null_def)
qed

text \<open>The bucket path of an equals search determines the searched values: two lists of
  values with the same shard input are the same list, so distinct searches are hashed on
  distinct texts, and the slot is the CRC-32 low byte of that text.\<close>

lemma bucket_path_injective:
  "(shard_input (equals_string_segments vs) = shard_input (equals_string_segments ws)) = (vs = ws)
   \<and> shard_slot (equals_string_segments vs)
       = ucast (crc32_spec (shard_input (equals_string_segments vs)))"
proof
  show "(shard_input (equals_string_segments vs) = shard_input (equals_string_segments ws)) = (vs = ws)"
  proof
    assume "shard_input (equals_string_segments vs) = shard_input (equals_string_segments ws)"
    then have "equals_string_segments vs = equals_string_segments ws"
      unfolding shard_input_def
      by (rule join_with_inj [rotated 2])
        (simp_all add: clean_segments_def equals_string_segments_def list_all_iff
          encode_value_clean)
    then show "vs = ws"
      using segment.enc_inj inj_map_eq_map [of encode_string_value vs ws]
      by (auto simp: equals_string_segments_def inj_def)
  qed simp
  show "shard_slot (equals_string_segments vs)
      = ucast (crc32_spec (shard_input (equals_string_segments vs)))"
    by (simp add: shard_slot_def raw_slot_def checksum_ieee_spec)
qed

end
