(* ===== verification/Search.thy ===== *)
theory Search
  imports Crud SearchPath
begin

text \<open>
  Searches (search.go) and the admin commands with their establishment refresh (admin.go).
\<close>

section \<open>Search\<close>

record 'j search_result =
  sr_result :: "'j result"
  sr_collection :: string
  sr_search :: string
  sr_matches :: "string list"

definition search_result_from :: "'j ojson \<Rightarrow> 'j result \<Rightarrow> 'j search_result" where
  "search_result_from J res =
     (let matches = value_field J res ''matches'' in
      \<lparr>sr_result = res,
       sr_collection = string_field J res ''collection'',
       sr_search = string_field J res ''search'',
       sr_matches = (if oj_is_array J matches then map (json_value_as_string J) (oj_items J matches) else [])\<rparr>)"

text \<open>
  The route of a search: by the slot of the bucket path when segments are given (not nil), else
  the preferred server or the establishment server. The code computes it once for the first
  post and again in the resolver.
\<close>

definition search_route :: "('j, 'w) client \<Rightarrow> string list option \<Rightarrow> 'j establishment \<Rightarrow> 'j err + route" where
  "search_route c path_segments est =
     (case path_segments of
        Some segments \<Rightarrow> route_search c est (shard_slot segments)
      | None \<Rightarrow>
          (let name = (if cf_prefer_server (cl_cfg c) \<noteq> [] then cf_prefer_server (cl_cfg c)
                       else gc_establishment_server (es_general est));
               u = server_base_url (Some est) name;
               u' = (if u = [] then cf_establishment_url (cl_cfg c) else u) in
           Inr \<lparr>rt_server_name = name, rt_base_url = rewrite_url c name u', rt_slot = 0, rt_slot_hex = []\<rparr>))"

definition search :: "'w env \<Rightarrow> 'j ojson \<Rightarrow> ('j, 'w) client \<Rightarrow> string \<Rightarrow> string
    \<Rightarrow> (string \<times> goany) list option \<Rightarrow> string list option \<Rightarrow> ('j, 'w) state
    \<Rightarrow> ('j err + 'j search_result) \<times> ('j, 'w) state" where
  "search E J c collection search_name vars path_segments st =
     (if collection = [] \<or> search_name = [] then
        (Inl (EMsg ''datorium: collection and searchName are required'' []), st)
      else
        (case ensure_established E J c st of
           (Inl e, st1) \<Rightarrow> (Inl e, st1)
         | (Inr est, st1) \<Rightarrow>
             (case build_command ''search'' collection search_name
                     (GMap (case vars of None \<Rightarrow> [] | Some kvs \<Rightarrow> kvs)) of
                Inl e \<Rightarrow> (Inl e, st1)
              | Inr body \<Rightarrow>
                  (case search_route c path_segments est of
                     Inl e \<Rightarrow> (Inl e, st1)
                   | Inr route \<Rightarrow>
                       (case execute_routed E J c route body (Some (search_route c path_segments)) st1 of
                          ((res, Some e), st2) \<Rightarrow> (Inl e, st2)
                        | ((res, None), st2) \<Rightarrow> (Inr (search_result_from J res), st2))))))"

section \<open>Admin commands\<close>

definition build_admin_command :: "string \<Rightarrow> string \<Rightarrow> string \<Rightarrow> goany \<Rightarrow> 'j err + string" where
  "build_admin_command cmd target parameter detail =
     (case json_marshal detail of
        Inl e \<Rightarrow> Inl (EWrap ''datorium: marshal detail: %w'' [] (EExt e))
      | Inr raw \<Rightarrow>
          if length raw = 0 \<or> hd raw \<noteq> CHR ''{'' then
            Inl (EMsg ''datorium: detail must be a JSON object'' [])
          else marshal_command_request cmd target parameter raw)"

definition post_admin_and_refresh :: "'w env \<Rightarrow> 'j ojson \<Rightarrow> ('j, 'w) client \<Rightarrow> string \<Rightarrow> ('j, 'w) state
    \<Rightarrow> ('j result \<times> 'j err option) \<times> ('j, 'w) state" where
  "post_admin_and_refresh E J c body st =
     (case command E J c (cf_establishment_url (cl_cfg c)) body st of
        ((res, Some e), st1) \<Rightarrow> ((zero_result J, Some e), st1)
      | ((res, None), st1) \<Rightarrow>
          (case establish E J c [] st1 of
             (Some e, st2) \<Rightarrow>
               ((res, Some (EWrap ''datorium: admin command succeeded but establish refresh failed: %w'' [] e)), st2)
           | (None, st2) \<Rightarrow> ((res, None), st2)))"

definition ensure_collection :: "'w env \<Rightarrow> 'j ojson \<Rightarrow> ('j, 'w) client \<Rightarrow> string
    \<Rightarrow> (string \<times> goany) list option \<Rightarrow> (string \<times> goany) list option \<Rightarrow> ('j, 'w) state
    \<Rightarrow> ('j result \<times> 'j err option) \<times> ('j, 'w) state" where
  "ensure_collection E J c collection schm upgrade st =
     (if collection = [] then ((zero_result J, Some (EMsg ''datorium: collection is required'' [])), st)
      else
        (case build_admin_command ''collectionEnsure'' collection []
                (GMap ((case schm of None \<Rightarrow> [] | Some s \<Rightarrow> [(''schema'', GMap s)])
                       @ (case upgrade of None \<Rightarrow> [] | Some u \<Rightarrow> [(''upgrade'', GMap u)]))) of
           Inl e \<Rightarrow> ((zero_result J, Some e), st)
         | Inr body \<Rightarrow> post_admin_and_refresh E J c body st))"

definition ensure_search :: "'w env \<Rightarrow> 'j ojson \<Rightarrow> ('j, 'w) client \<Rightarrow> string \<Rightarrow> string
    \<Rightarrow> (string \<times> goany) list option \<Rightarrow> ('j, 'w) state
    \<Rightarrow> ('j result \<times> 'j err option) \<times> ('j, 'w) state" where
  "ensure_search E J c collection search_name defn st =
     (if collection = [] \<or> search_name = [] then
        ((zero_result J, Some (EMsg ''datorium: collection and searchName are required'' [])), st)
      else
        (case build_admin_command ''searchEnsure'' collection search_name
                (GMap (case defn of None \<Rightarrow> [] | Some d \<Rightarrow> d)) of
           Inl e \<Rightarrow> ((zero_result J, Some e), st)
         | Inr body \<Rightarrow> post_admin_and_refresh E J c body st))"

definition delete_search :: "'w env \<Rightarrow> 'j ojson \<Rightarrow> ('j, 'w) client \<Rightarrow> string \<Rightarrow> string \<Rightarrow> ('j, 'w) state
    \<Rightarrow> ('j result \<times> 'j err option) \<times> ('j, 'w) state" where
  "delete_search E J c collection search_name st =
     (if collection = [] \<or> search_name = [] then
        ((zero_result J, Some (EMsg ''datorium: collection and searchName are required'' [])), st)
      else
        (case build_admin_command ''searchDelete'' collection search_name (GMap []) of
           Inl e \<Rightarrow> ((zero_result J, Some e), st)
         | Inr body \<Rightarrow> post_admin_and_refresh E J c body st))"

section \<open>The operations keep the contract of the client\<close>

interpretation search_op: client_op event_authorised "search E J c collection search_name vars path_segments"
  for E J c collection search_name vars path_segments
  unfolding search_def by (intro op_intro)

interpretation search_budget: budget_op "attempts_max c" "read_cost c"
  "search E J c collection search_name vars path_segments" for E J c collection search_name vars path_segments
  unfolding search_def
  by (intro budget_rules budget_return budget_bind [OF ensure_budget.budget_op_axioms]
      budget_bind [OF routed_budget_op.budget_op_axioms]) (simp_all add: read_cost_def)

lemma admin_authorised [op_intro]: "client_op event_authorised (post_admin_and_refresh E J c body)"
  unfolding post_admin_and_refresh_def by (intro op_intro command_op.client_op_axioms)

interpretation ensure_collection_op: client_op event_authorised "ensure_collection E J c collection schm upgrade"
  for E J c collection schm upgrade
  unfolding ensure_collection_def by (intro op_intro)

interpretation ensure_search_op: client_op event_authorised "ensure_search E J c collection search_name defn"
  for E J c collection search_name defn
  unfolding ensure_search_def by (intro op_intro)

interpretation delete_search_op: client_op event_authorised "delete_search E J c collection search_name"
  for E J c collection search_name
  unfolding delete_search_def by (intro op_intro)

section \<open>Lemmas\<close>

lemma search_Inr:
  assumes "search E J c collection search_name vars path_segments st = (Inr sr, st')"
  obtains est st1 body route res where "collection \<noteq> []" "search_name \<noteq> []"
    "ensure_established E J c st = (Inr est, st1)" "search_route c path_segments est = Inr route"
    "execute_routed E J c route body (Some (search_route c path_segments)) st1 = ((res, None), st')"
    "sr = search_result_from J res"
  using assms by (auto simp: search_def split: if_splits prod.splits sum.splits option.splits)

text \<open>A search by equal strings goes to the bucket of those strings.\<close>

lemma search_route_segments:
  "search_route c (Some (equals_string_segments vs)) est = Inr r \<Longrightarrow>
     \<exists>a. assignment_for_slot (Some est) (shard_slot (equals_string_segments vs)) = Some a
       \<and> rt_server_name r = search_member c a \<and> rt_slot r = shard_slot (equals_string_segments vs)"
  by (auto simp: search_route_def route_search_Inr route_for_def)

lemma post_admin_None:
  assumes "post_admin_and_refresh E J c body st = ((res, None), st')"
  shows "\<exists>st1. command E J c (cf_establishment_url (cl_cfg c)) body st = ((res, None), st1)
    \<and> establish E J c [] st1 = (None, st')"
  using assms
  by (auto simp: post_admin_and_refresh_def split: prod.splits option.splits)

section \<open>Properties\<close>

text \<open>A search that succeeds is one a server accepted: its matches are those of an ok:true envelope
  the transport delivered, in order.\<close>

lemma search_sound:
  assumes "0 \<le> cl_wm_retries c"
    and "search E J c collection search_name vars path_segments st = (Inr sr, st')"
  shows "rs_ok (sr_result sr) \<and> (\<exists>rq. delivered J c rq (sr_result sr)) \<and> sr = search_result_from J (sr_result sr)"
  using assms(2)
proof (rule search_Inr)
  fix est st1 body route res
  assume run: "execute_routed E J c route body (Some (search_route c path_segments)) st1 = ((res, None), st')"
    and sr: "sr = search_result_from J res"
  have "sr_result sr = res" by (simp add: sr search_result_from_def Let_def)
  with execute_routed_success [OF run assms(1)] sr show ?thesis by simp
qed

text \<open>C39: An admin command that returns no error has refreshed the cache: the cached establishment
  document is the one fetched after the command, and it is well-formed.\<close>

theorem admin_refreshes:
  assumes "post_admin_and_refresh E J c body st = ((res, None), st')"
  shows "\<exists>st1 est. command E J c (cf_establishment_url (cl_cfg c)) body st = ((res, None), st1)
    \<and> establish E J c [] st1 = (None, st') \<and> st_cache st' = Some est \<and> establishment_ok est"
  using post_admin_None [OF assms] establish_None_cache by blast

theorem admin_refreshes_witness:
  "establishment_ok sample_est \<and> (\<exists>st1. command script_env SJ (script_client 1 0) ''http://e'' ''{}''
     (script_state None [answer ''K'', answer ''E'']) = ((ok_result, None), st1))"
proof -
  have url: "cf_establishment_url (cl_cfg (script_client 1 0)) = ''http://e''"
    by (simp add: script_client_def script_config_def)
  then have "post_admin_and_refresh script_env SJ (script_client 1 0) ''{}'' (script_state None [answer ''K'', answer ''E''])
    = ((ok_result, None), \<lparr>st_cache = Some sample_est, st_trace = [script_post 1 ''http://e'' ''{}'', script_get 1], st_world = []\<rparr>)"
    by (simp add: post_admin_and_refresh_def command_def script_state_def script_post_command trim_braces
        script_decode script_establish_any)
  from admin_refreshes [OF this] show ?thesis by (auto simp: url)
qed

text \<open>The admin commands do not look at the envelope: a command the server refused with ok:false
  is followed by the refresh and reported without an error, unlike every routed command.\<close>

lemma admin_refusal_silent:
  assumes "collection \<noteq> []" "search_name \<noteq> []"
  shows "fst (delete_search script_env SJ (script_client 1 0) collection search_name
      (script_state None [answer ''X'', answer ''E'']))
    = (\<lparr>rs_ok = False, rs_errors = [\<lparr>ae_code = ''documentExists'', ae_path = [], ae_message = [],
         ae_expected = JVoid, ae_actual = JVoid\<rparr>],
        rs_env = JObj [(''ok'', JBool False), (''errors'', JArr [JObj [(''code'', JStr ''documentExists'')]])],
        rs_body = ''X''\<rparr>, None)"
proof -
  have body: "build_admin_command ''searchDelete'' collection search_name (GMap [])
      = (Inr (command_text ''searchDelete'' collection search_name ''{}'') :: js err + string)"
    by (simp add: build_admin_command_def json_object_def marshal_command_text)
  have "cf_establishment_url (cl_cfg (script_client 1 0)) = ''http://e''"
    by (simp add: script_client_def script_config_def)
  moreover have "decode_result SJ ''X'' = Inr \<lparr>rs_ok = False, rs_errors = [\<lparr>ae_code = ''documentExists'',
      ae_path = [], ae_message = [], ae_expected = JVoid, ae_actual = JVoid\<rparr>],
    rs_env = JObj [(''ok'', JBool False), (''errors'', JArr [JObj [(''code'', JStr ''documentExists'')]])], rs_body = ''X''\<rparr>"
    by (simp add: decode_result_def script_reader_def decode_api_error_def Let_def)
  ultimately show ?thesis
    using assms
    by (simp add: delete_search_def post_admin_and_refresh_def command_def script_state_def body
        script_post_command script_establish_any)
qed

end
