(* ===== verification/Refs.thy ===== *)
theory Refs
  imports Utf8 GoErrors
begin

text \<open>
  Package refs (refs/refs.go): parsing and formatting of document reference strings, and the
  two string formats that schema_formats.go registers on top of them.
\<close>

datatype ref_kind = Direct | Cached

text \<open>The Go constants are \<open>iota + 1\<close>; the kinds are ordered by their number.\<close>

fun ref_kind_num :: "ref_kind \<Rightarrow> nat" where
  "ref_kind_num Direct = 1"
| "ref_kind_num Cached = 2"

instantiation ref_kind :: linorder
begin

definition less_eq_ref_kind :: "ref_kind \<Rightarrow> ref_kind \<Rightarrow> bool" where
  "less_eq_ref_kind a b \<longleftrightarrow> ref_kind_num a \<le> ref_kind_num b"

definition less_ref_kind :: "ref_kind \<Rightarrow> ref_kind \<Rightarrow> bool" where
  "less_ref_kind a b \<longleftrightarrow> ref_kind_num a < ref_kind_num b"

instance
proof
  fix a b c :: ref_kind
  show "a \<le> b \<Longrightarrow> b \<le> a \<Longrightarrow> a = b"
    by (cases a; cases b) (simp_all add: less_eq_ref_kind_def)
qed (auto simp: less_eq_ref_kind_def less_ref_kind_def)

end

record ref =
  rf_kind :: ref_kind
  rf_collection :: string
  rf_id :: string
  rf_raw :: string

text \<open>
  \<open>Parse\<close>: \<open>Inl\<close> is the error return, \<open>Inr None\<close> is \<open>ok = false\<close>.
\<close>

definition parse_body :: "ref_kind \<Rightarrow> string \<Rightarrow> string \<Rightarrow> 'e gerr + ref option" where
  "parse_body kind s rest =
     (case index_of ''__'' rest of
        None \<Rightarrow> Inl (EMsg ''invalid reference %q'' [s])
      | Some idx \<Rightarrow>
          if idx = 0 \<or> length rest \<le> idx + 2 then Inl (EMsg ''invalid reference %q'' [s])
          else (let collection = take idx rest; rid = drop (idx + 2) rest in
                if collection = [] \<or> rid = [] then Inl (EMsg ''invalid reference %q'' [s])
                else Inr (Some \<lparr>rf_kind = kind, rf_collection = collection, rf_id = rid, rf_raw = s\<rparr>)))"

definition parse_ref :: "string \<Rightarrow> 'e gerr + ref option" where
  "parse_ref text =
     (let s = trim_space text in
      if s = [] then Inr None
      else if prefix ''@@__'' s then parse_body Cached s (trim_prefix ''@@__'' s)
      else if prefix ''@__'' s then parse_body Direct s (trim_prefix ''@__'' s)
      else Inr None)"

definition format_direct :: "string \<Rightarrow> string \<Rightarrow> string" where
  "format_direct collection rid = ''@__'' @ collection @ ''__'' @ rid"

definition format_cached :: "string \<Rightarrow> string \<Rightarrow> string" where
  "format_cached collection rid = ''@@__'' @ collection @ ''__'' @ rid"

section \<open>The registered string formats\<close>

definition validate_direct_ref :: "string \<Rightarrow> 'e gerr option" where
  "validate_direct_ref v =
     (case parse_ref v of
        Inl e \<Rightarrow> Some e
      | Inr None \<Rightarrow> Some (EMsg ''expected DatoriumDirectRef (@__Collection__id)'' [])
      | Inr (Some r) \<Rightarrow>
          if rf_kind r \<noteq> Direct then Some (EMsg ''expected DatoriumDirectRef (@__Collection__id)'' [])
          else None)"

definition validate_cached_ref :: "string \<Rightarrow> 'e gerr option" where
  "validate_cached_ref v =
     (case parse_ref v of
        Inl e \<Rightarrow> Some e
      | Inr None \<Rightarrow> Some (EMsg ''expected DatoriumCachedRef (@@__Collection__id)'' [])
      | Inr (Some r) \<Rightarrow>
          if rf_kind r \<noteq> Cached then Some (EMsg ''expected DatoriumCachedRef (@@__Collection__id)'' [])
          else None)"

section \<open>Lemmas\<close>

definition format_ref :: "ref_kind \<Rightarrow> string \<Rightarrow> string \<Rightarrow> string" where
  "format_ref k c i = (case k of Direct \<Rightarrow> format_direct c i | Cached \<Rightarrow> format_cached c i)"

text \<open>
  A collection and an id that can be written as a reference: the separator does not occur in
  the collection, nor across its end, and the id is not empty and ends in no white space.
\<close>

definition ref_ok :: "string \<Rightarrow> string \<Rightarrow> bool" where
  "ref_ok c i \<longleftrightarrow> utf8_valid c \<and> c \<noteq> [] \<and> \<not> sublist ''__'' (c @ ''_'') \<and> i \<noteq> []
     \<and> \<not> is_space (last (runes_of i))"

lemma sublist_drop: "prefix u (drop j v) \<Longrightarrow> sublist u v"
  by (metis append_take_drop_id sublist_appendI prefix_def sublist_append_leftI sublist_order.order_trans prefix_imp_sublist)

lemma separator_index:
  assumes "\<not> sublist ''__'' (c @ ''_'')"
  shows "index_of ''__'' (c @ ''__'' @ i) = Some (length c)"
proof (rule index_of_at)
  fix j assume j: "j < length c"
  show "\<not> prefix ''__'' (drop j (c @ ''__'' @ i))"
  proof
    assume p: "prefix ''__'' (drop j (c @ ''__'' @ i))"
    have "drop j (c @ ''__'' @ i) = drop j (c @ ''_'') @ ''_'' @ i"
      using j by simp
    moreover have "2 \<le> length (drop j (c @ ''_''))" using j by simp
    ultimately have "prefix ''__'' (drop j (c @ ''_''))"
      using p by (metis (no_types) length_Cons list.size(3) numeral_2_eq_2 prefixI prefix_length_prefix)
    with assms show False using sublist_drop by blast
  qed
qed

lemma parse_body_format:
  assumes "c \<noteq> []" "i \<noteq> []" "\<not> sublist ''__'' (c @ ''_'')"
  shows "parse_body k s (c @ ''__'' @ i) =
    Inr (Some \<lparr>rf_kind = k, rf_collection = c, rf_id = i, rf_raw = s\<rparr>)"
  using assms separator_index [OF assms(3), of i] by (simp add: parse_body_def)

lemma runes_of_at: "runes_of (CHR ''@'' # s) = 0x40 # runes_of s"
  by (simp add: runes_of_def)

lemma trim_format:
  assumes "ref_ok c i"
  shows "trim_space (format_ref k c i) = format_ref k c i"
proof -
  let ?u = "''__''"
  have "utf8_valid (c @ ?u)"
    using assms by (intro utf8_valid_append [OF _ utf8_valid_ascii]) (simp_all add: ref_ok_def)
  then have "runes_of ((c @ ?u) @ i) = runes_of (c @ ?u) @ runes_of i"
    by (rule runes_of_append_valid)
  moreover have "runes_of i \<noteq> []" using assms by (simp add: ref_ok_def)
  ultimately have l: "last (runes_of (c @ ?u @ i)) = last (runes_of i)" "runes_of (c @ ?u @ i) \<noteq> []"
    by simp_all
  have hd: "runes_of (''__'' @ t) = 0x5F # 0x5F # runes_of t" for t
    by (simp add: runes_of_def)
  show ?thesis
    using assms l
    by (intro trim_space_id; cases k)
      (auto simp: format_ref_def format_direct_def format_cached_def runes_of_at hd
        [simplified] ref_ok_def is_space_def)
qed

lemma parse_format:
  assumes "ref_ok c i"
  shows "parse_ref (format_ref k c i) =
    Inr (Some \<lparr>rf_kind = k, rf_collection = c, rf_id = i, rf_raw = format_ref k c i\<rparr>)"
proof (cases k)
  case Direct
  then show ?thesis
    using trim_format [OF assms, of k] parse_body_format [of c i Direct] assms
    by (simp add: parse_ref_def format_ref_def format_direct_def trim_prefix_def ref_ok_def)
next
  case Cached
  then show ?thesis
    using trim_format [OF assms, of k] parse_body_format [of c i Cached] assms
    by (simp add: parse_ref_def format_ref_def format_cached_def trim_prefix_def ref_ok_def)
qed

lemma parse_body_sound:
  assumes "parse_body k s rest = Inr (Some r)"
  shows "rf_kind r = k \<and> rf_raw r = s \<and> rest = rf_collection r @ ''__'' @ rf_id r
    \<and> rf_collection r \<noteq> [] \<and> rf_id r \<noteq> [] \<and> \<not> sublist ''__'' (rf_collection r)"
proof -
  from assms obtain idx where idx: "index_of ''__'' rest = Some idx"
    and r: "r = \<lparr>rf_kind = k, rf_collection = take idx rest, rf_id = drop (idx + 2) rest, rf_raw = s\<rparr>"
      "take idx rest \<noteq> []" "drop (idx + 2) rest \<noteq> []"
    by (auto simp: parse_body_def Let_def split: option.splits if_splits)
  define c where "c = take idx rest"
  from index_of_Some_split [OF idx] obtain t where t: "rest = c @ ''__'' @ t" "length c = idx"
    by (auto simp: c_def)
  then have "drop (idx + 2) rest = t" by simp
  moreover have "\<not> sublist ''__'' c"
  proof
    assume "sublist ''__'' c"
    then obtain a b where ab: "c = a @ ''__'' @ b" by (auto simp: sublist_def)
    then have "length a < idx" using t(2) by simp
    moreover have "prefix ''__'' (drop (length a) rest)"
      using ab t(1) by simp
    ultimately show False using index_of_first [OF idx] by blast
  qed
  ultimately show ?thesis using r t by (simp add: c_def [symmetric])
qed

lemma parse_ref_sound:
  assumes "parse_ref s = Inr (Some r)"
  shows "rf_raw r = trim_space s
    \<and> rf_raw r = format_ref (rf_kind r) (rf_collection r) (rf_id r)
    \<and> rf_collection r \<noteq> [] \<and> rf_id r \<noteq> [] \<and> \<not> sublist ''__'' (rf_collection r)"
proof -
  let ?t = "trim_space s"
  consider (c) "prefix ''@@__'' ?t" "parse_body Cached ?t (trim_prefix ''@@__'' ?t) = (Inr (Some r) :: 'a gerr + _)"
    | (d) "prefix ''@__'' ?t" "parse_body Direct ?t (trim_prefix ''@__'' ?t) = (Inr (Some r) :: 'a gerr + _)"
    using assms by (auto simp: parse_ref_def Let_def split: if_splits)
  then show ?thesis
  proof cases
    case c
    from parse_body_sound [OF c(2)] trim_prefix_prefix [OF c(1)] show ?thesis
      by (simp add: format_ref_def format_cached_def)
  next
    case d
    from parse_body_sound [OF d(2)] trim_prefix_prefix [OF d(1)] show ?thesis
      by (simp add: format_ref_def format_direct_def)
  qed
qed

lemma parse_format_direct:
  "ref_ok c i \<Longrightarrow> parse_ref (format_direct c i) = Inr (Some \<lparr>rf_kind = Direct,
     rf_collection = c, rf_id = i, rf_raw = format_direct c i\<rparr>)"
  using parse_format [where k = Direct] by (simp add: format_ref_def)

lemma parse_format_cached:
  "ref_ok c i \<Longrightarrow> parse_ref (format_cached c i) = Inr (Some \<lparr>rf_kind = Cached,
     rf_collection = c, rf_id = i, rf_raw = format_cached c i\<rparr>)"
  using parse_format [where k = Cached] by (simp add: format_ref_def)

text \<open>A reference is a codec for the pairs that can be written.\<close>

interpretation direct_ref: codec "\<lambda>(c, i). format_direct c i"
  "\<lambda>s. case parse_ref s of Inr (Some r) \<Rightarrow> Some (rf_collection r, rf_id r) | (_ :: unit gerr + _) \<Rightarrow> None"
  "\<lambda>(c, i). ref_ok c i"
  by unfold_locales (auto simp: parse_format_direct)

interpretation cached_ref: codec "\<lambda>(c, i). format_cached c i"
  "\<lambda>s. case parse_ref s of Inr (Some r) \<Rightarrow> Some (rf_collection r, rf_id r) | (_ :: unit gerr + _) \<Rightarrow> None"
  "\<lambda>(c, i). ref_ok c i"
  by unfold_locales (auto simp: parse_format_cached)

section \<open>Properties\<close>

text \<open>C14: Round trip of references: a formatted direct or cached reference parses back to its
  kind, collection and id, provided the collection is not empty, the separator does not occur
  in it nor across its end, and the id is not empty and does not end in white space.\<close>

theorem ref_roundtrip:
  assumes "ref_ok c i"
  shows "parse_ref (format_direct c i) = Inr (Some \<lparr>rf_kind = Direct, rf_collection = c,
           rf_id = i, rf_raw = format_direct c i\<rparr>)
    \<and> parse_ref (format_cached c i) = Inr (Some \<lparr>rf_kind = Cached, rf_collection = c,
           rf_id = i, rf_raw = format_cached c i\<rparr>)"
  using assms by (simp add: parse_format_direct parse_format_cached)

theorem ref_roundtrip_witness:
  "(parse_ref ''@__Users__abc123'' :: unit gerr + ref option) = Inr (Some \<lparr>rf_kind = Direct,
     rf_collection = ''Users'', rf_id = ''abc123'', rf_raw = ''@__Users__abc123''\<rparr>)"
proof -
  have "ref_ok ''Users'' ''abc123''"
    by (simp add: ref_ok_def utf8_valid_ascii runes_of_ascii is_space_def sublist_code
        sublist_Cons_right)
  then have "(parse_ref (format_direct ''Users'' ''abc123'') :: unit gerr + ref option) =
      Inr (Some \<lparr>rf_kind = Direct, rf_collection = ''Users'', rf_id = ''abc123'',
        rf_raw = format_direct ''Users'' ''abc123''\<rparr>)"
    by (rule ref_roundtrip [THEN conjunct1])
  then show ?thesis by (simp add: format_direct_def)
qed

text \<open>What the parser accepts is exactly a formatted reference: the trimmed text is the
  format of the returned kind, collection and id, neither part is empty, and the collection
  holds no separator (the text is split at its first separator).\<close>

lemma ref_parse_sound:
  assumes "parse_ref s = Inr (Some r)"
  shows "rf_raw r = trim_space s
    \<and> rf_raw r = format_ref (rf_kind r) (rf_collection r) (rf_id r)
    \<and> rf_collection r \<noteq> [] \<and> rf_id r \<noteq> [] \<and> \<not> sublist ''__'' (rf_collection r)"
  by (rule parse_ref_sound) (rule assms)

text \<open>A collection name that ends in an underscore cannot be referenced: its references
  are the references of the shorter name to another id, and the parser reads them so.\<close>

lemma ref_underscore_ambiguous:
  "format_direct (c @ ''_'') i = format_direct c (''_'' @ i)
   \<and> format_cached (c @ ''_'') i = format_cached c (''_'' @ i)
   \<and> (\<exists>r. (parse_ref (format_direct ''Foo_'' ''x'') :: 'e gerr + ref option) = Inr (Some r)
         \<and> rf_collection r = ''Foo'' \<and> rf_id r = ''_x'')"
proof -
  have "ref_ok ''Foo'' ''_x''"
    by (simp add: ref_ok_def utf8_valid_ascii runes_of_ascii is_space_def sublist_code
        sublist_Cons_right)
  then have "(parse_ref (format_direct ''Foo'' ''_x'') :: 'e gerr + ref option) =
      Inr (Some \<lparr>rf_kind = Direct, rf_collection = ''Foo'', rf_id = ''_x'',
        rf_raw = format_direct ''Foo'' ''_x''\<rparr>)"
    by (rule parse_format_direct)
  then show ?thesis
    by (simp add: format_direct_def format_cached_def)
qed

text \<open>The two registered string formats accept exactly the references of their kind, and no
  text is accepted by both.\<close>

lemma ref_formats_exact:
  "(validate_direct_ref v = (None :: 'e gerr option))
     = (\<exists>r. (parse_ref v :: 'e gerr + ref option) = Inr (Some r) \<and> rf_kind r = Direct)
   \<and> (validate_cached_ref v = (None :: 'e gerr option))
     = (\<exists>r. (parse_ref v :: 'e gerr + ref option) = Inr (Some r) \<and> rf_kind r = Cached)
   \<and> \<not> (validate_direct_ref v = (None :: 'e gerr option)
        \<and> validate_cached_ref v = (None :: 'e gerr option))"
  by (auto simp: validate_direct_ref_def validate_cached_ref_def split: sum.splits option.splits
      if_splits)

end
