(* ===== verification/Resolve.thy ===== *)
theory Resolve
  imports Crud Refs
begin

text \<open>
  References between documents: the patch details and summaries of cached references
  (frontpage.go) and the resolution of direct references (resolve.go).
\<close>

section \<open>Cached references\<close>

definition append_cached_ref_op :: "string \<Rightarrow> string \<Rightarrow> string \<Rightarrow> (string \<times> goany) list" where
  "append_cached_ref_op array_field collection rid =
     [(''op'', GStr ''add''),
      (''path'', GStr (CHR ''/'' # array_field @ ''/-'')),
      (''value'', GStr (format_cached collection rid))]"

definition patch_detail_appending_cached_ref :: "string \<Rightarrow> string \<Rightarrow> string \<Rightarrow> string \<Rightarrow> string
    \<Rightarrow> (string \<times> goany) list" where
  "patch_detail_appending_cached_ref schema_marker version array_field ref_collection ref_id =
     [(''$'', GStr schema_marker), (''#'', GStr version),
      (''RFC6902'', GSlice [GMap (append_cached_ref_op array_field ref_collection ref_id)])]"

fun summaries_loop :: "'j ojson \<Rightarrow> 'j \<Rightarrow> 'j list \<Rightarrow> 'j err + 'j list" where
  "summaries_loop J summaries [] = Inr []"
| "summaries_loop J summaries (elem # elems) =
     (if \<not> oj_is_string J elem then summaries_loop J summaries elems
      else
        (case parse_ref (oj_str J elem) of
           Inl e \<Rightarrow> Inl e
         | Inr None \<Rightarrow> summaries_loop J summaries elems
         | Inr (Some r) \<Rightarrow>
             if rf_kind r \<noteq> Cached then summaries_loop J summaries elems
             else
               (let coll = oj_get J summaries (rf_collection r); sum = oj_get J coll (rf_id r) in
                if \<not> oj_is_object J coll \<or> \<not> oj_is_object J sum
                   \<or> oj_is_missing J (oj_get J sum ''#'') \<or> oj_is_null J (oj_get J sum ''#'') then
                  summaries_loop J summaries elems
                else
                  (case summaries_loop J summaries elems of Inl e \<Rightarrow> Inl e | Inr out \<Rightarrow> Inr (sum # out)))))"

definition summaries_for_array_field :: "'j ojson \<Rightarrow> 'j read_result \<Rightarrow> string \<Rightarrow> 'j err + 'j list" where
  "summaries_for_array_field J rr array_field =
     (let field = oj_get J (rr_sot rr) array_field in
      if oj_is_missing J field then Inr []
      else if \<not> oj_is_array J field then
        Inl (EMsg ''datorium: sot field %q is not an array'' [array_field])
      else summaries_loop J (rr_cache_summaries rr) (oj_items J field))"

section \<open>Direct references\<close>

definition resolve_direct_ref :: "'w env \<Rightarrow> 'j ojson \<Rightarrow> ('j, 'w) client \<Rightarrow> string \<Rightarrow> read_options option
    \<Rightarrow> ('j, 'w) state \<Rightarrow> ('j err + 'j read_result) \<times> ('j, 'w) state" where
  "resolve_direct_ref E J c text opts st =
     (case parse_ref text of
        Inl e \<Rightarrow> (Inl e, st)
      | Inr None \<Rightarrow> (Inl (EMsg ''datorium: not a direct reference: %q'' [text]), st)
      | Inr (Some r) \<Rightarrow>
          if rf_kind r \<noteq> Direct then (Inl (EMsg ''datorium: not a direct reference: %q'' [text]), st)
          else read_doc E J c (rf_collection r) (rf_id r) opts st)"

text \<open>
  The recursive closure \<open>walk\<close>: the loop over the keys of one document, in the iteration
  order of its map, which descends into each document it reads. The two maps the closure
  writes are the list of seen keys and the results.
\<close>

record 'j walked =
  wk_seen :: "string list"
  wk_out :: "(string \<times> 'j read_result) list"

definition ref_key :: "ref \<Rightarrow> string" where
  "ref_key r = rf_collection r @ CHR ''/'' # rf_id r"

text \<open>The field of a key as a direct reference: \<open>None\<close> when the loop continues with the next.\<close>

definition direct_field :: "'j ojson \<Rightarrow> 'j \<Rightarrow> string \<Rightarrow> 'j err + ref option" where
  "direct_field J doc key =
     (let v = oj_get J doc key in
      if \<not> oj_is_string J v then Inr None
      else (case parse_ref (oj_str J v) of
              Inl e \<Rightarrow> Inl e
            | Inr None \<Rightarrow> Inr None
            | Inr (Some r) \<Rightarrow> if rf_kind r \<noteq> Direct then Inr None else Inr (Some r)))"

function walk_keys :: "'w env \<Rightarrow> 'j ojson \<Rightarrow> ('j, 'w) client \<Rightarrow> int \<Rightarrow> int \<Rightarrow> 'j \<Rightarrow> string list \<Rightarrow> 'j walked
    \<Rightarrow> ('j, 'w) state \<Rightarrow> ('j err option \<times> 'j walked) \<times> ('j, 'w) state" where
  "walk_keys E J c max_depth depth doc [] wk st = ((None, wk), st)"
| "walk_keys E J c max_depth depth doc (key # keys) wk st =
     (case direct_field J doc key of
        Inl e \<Rightarrow> ((Some e, wk), st)
      | Inr None \<Rightarrow> walk_keys E J c max_depth depth doc keys wk st
      | Inr (Some r) \<Rightarrow>
          if ref_key r \<in> set (wk_seen wk) then walk_keys E J c max_depth depth doc keys wk st
          else
            (let wk1 = wk\<lparr>wk_seen := wk_seen wk @ [ref_key r]\<rparr> in
             case read_doc E J c (rf_collection r) (rf_id r) None st of
               (Inl e, st1) \<Rightarrow> ((Some e, wk1), st1)
             | (Inr rr, st1) \<Rightarrow>
                 (let wk2 = wk1\<lparr>wk_out := AList.update (ref_key r) rr (wk_out wk1)\<rparr> in
                  case (if max_depth < depth + 1 \<or> \<not> oj_is_object J (rr_sot rr) then ((None, wk2), st1)
                        else walk_keys E J c max_depth (depth + 1) (rr_sot rr) (oj_keys J (rr_sot rr)) wk2 st1) of
                    ((Some e, wk3), st2) \<Rightarrow> ((Some e, wk3), st2)
                  | ((None, wk3), st2) \<Rightarrow> walk_keys E J c max_depth depth doc keys wk3 st2)))"
  by pat_completeness auto

termination
  by (relation "(\<lambda>(E, J, c, m, d, doc, keys, wk, st). nat (m - d)) <*mlex*>
      measure (\<lambda>(E, J, c, m, d, doc, keys, wk, st). length keys)")
    (auto simp: wf_mlex mlex_leq intro: mlex_less)

declare walk_keys.simps(2) [simp del]

definition resolve_refs_in_sot :: "'w env \<Rightarrow> 'j ojson \<Rightarrow> ('j, 'w) client \<Rightarrow> 'j \<Rightarrow> int \<Rightarrow> ('j, 'w) state
    \<Rightarrow> ((string \<times> 'j read_result) list \<times> 'j err option) \<times> ('j, 'w) state" where
  "resolve_refs_in_sot E J c sot max_depth st =
     (let m = (if max_depth < 1 then 1 else max_depth); wk = \<lparr>wk_seen = [], wk_out = []\<rparr> in
      if m < 1 \<or> \<not> oj_is_object J sot then (([], None), st)
      else (case walk_keys E J c m 1 sot (oj_keys J sot) wk st of
              ((err, wk'), st') \<Rightarrow> ((wk_out wk', err), st')))"

section \<open>What a walk does\<close>

text \<open>
  The results of a walk: no document twice, every result under a seen key, each an accepted
  read. A step of the walk keeps this, extends the seen keys, and pays one read per new key.
\<close>

definition walk_inv :: "'j ojson \<Rightarrow> ('j, 'w) client \<Rightarrow> 'j walked \<Rightarrow> bool" where
  "walk_inv J c wk \<longleftrightarrow> distinct (wk_seen wk) \<and> distinct (map fst (wk_out wk))
     \<and> set (map fst (wk_out wk)) \<subseteq> set (wk_seen wk)
     \<and> (\<forall>(k, rr) \<in> set (wk_out wk). rs_ok (rr_result rr) \<and> (\<exists>rq. delivered J c rq (rr_result rr)))"

text \<open>Reading references one after the other, and the reads of these that succeeded.\<close>

fun reads_in_turn :: "'w env \<Rightarrow> 'j ojson \<Rightarrow> ('j, 'w) client \<Rightarrow> ref list \<Rightarrow> ('j, 'w) state
    \<Rightarrow> ('j err + 'j read_result) list \<times> ('j, 'w) state" where
  "reads_in_turn E J c [] st = ([], st)"
| "reads_in_turn E J c (r # rs) st =
     (case read_doc E J c (rf_collection r) (rf_id r) None st of
        (x, st1) \<Rightarrow> (case reads_in_turn E J c rs st1 of (xs, st2) \<Rightarrow> (x # xs, st2)))"

fun read_successes :: "ref list \<Rightarrow> ('e + 'a) list \<Rightarrow> (string \<times> 'a) list" where
  "read_successes (r # rs) (Inr a # xs) = (ref_key r, a) # read_successes rs xs"
| "read_successes (r # rs) (Inl e # xs) = read_successes rs xs"
| "read_successes _ _ = []"

lemma reads_append:
  "reads_in_turn E J c (rs1 @ rs2) st = (case reads_in_turn E J c rs1 st of (xs, st1) \<Rightarrow>
     case reads_in_turn E J c rs2 st1 of (ys, st2) \<Rightarrow> (xs @ ys, st2))"
  by (induction rs1 arbitrary: st) (auto split: prod.splits)

lemma reads_length: "reads_in_turn E J c rs st = (xs, st') \<Longrightarrow> length xs = length rs"
  by (induction rs arbitrary: st xs) (auto split: prod.splits)

lemma reads_cost:
  "reads_in_turn E J c rs st = (xs, st') \<Longrightarrow>
     sent_count st' - sent_count st \<le> int (length rs) * (read_cost c * attempts_max c)"
proof (induction rs arbitrary: st xs)
  case (Cons r rs)
  obtain x st1 where x: "read_doc E J c (rf_collection r) (rf_id r) None st = (x, st1)" by (metis surj_pair)
  obtain ys where "reads_in_turn E J c rs st1 = (ys, st')" using Cons.prems x by (auto split: prod.splits)
  from Cons.IH [OF this] read_budget.within_budget [OF x] show ?case by (simp add: algebra_simps)
qed simp

lemma successes_append:
  "length xs = length rs \<Longrightarrow> read_successes (rs @ rs') (xs @ ys) = read_successes rs xs @ read_successes rs' ys"
  by (induction rs xs rule: read_successes.induct) auto

lemma successes_set:
  "length xs = length rs \<Longrightarrow> set (read_successes rs xs) = {(ref_key r, a) |r a. (r, Inr a) \<in> set (zip rs xs)}"
  by (induction rs xs rule: read_successes.induct) auto

text \<open>A string field of a document that is a direct reference, and the documents of results.\<close>

definition refers :: "'j ojson \<Rightarrow> 'j \<Rightarrow> string \<Rightarrow> ref \<Rightarrow> bool" where
  "refers J doc key r \<longleftrightarrow> oj_is_string J (oj_get J doc key) \<and> rf_kind r = Direct
     \<and> parse_ref (oj_str J (oj_get J doc key)) = (Inr (Some r) :: 'j err + ref option)"

lemma direct_field_refers: "direct_field J doc key = Inr (Some r) \<longleftrightarrow> refers J doc key r"
  by (auto simp: direct_field_def refers_def Let_def split: sum.splits option.splits if_splits)

definition found_docs :: "(string \<times> 'j read_result) list \<Rightarrow> 'j set" where
  "found_docs out = (\<lambda>p. rr_sot (snd p)) ` set out"

lemma found_docs_append [simp]: "found_docs (a @ b) = found_docs a \<union> found_docs b"
  by (auto simp: found_docs_def)

definition walk_rel :: "'w env \<Rightarrow> 'j ojson \<Rightarrow> ('j, 'w) client \<Rightarrow> 'j set \<Rightarrow> 'j walked \<Rightarrow> ('j, 'w) state \<Rightarrow> 'j walked \<Rightarrow> ('j, 'w) state \<Rightarrow> bool" where
  "walk_rel E J c docs wk st wk' st' \<longleftrightarrow> (walk_inv J c wk \<longrightarrow> walk_inv J c wk')
     \<and> (\<exists>refs xs. reads_in_turn E J c refs st = (xs, st') \<and> wk_seen wk' = wk_seen wk @ map ref_key refs
          \<and> (walk_inv J c wk \<longrightarrow> wk_out wk' = wk_out wk @ read_successes refs xs
               \<and> (\<forall>r \<in> set refs. \<exists>doc \<in> docs \<union> found_docs (wk_out wk'). \<exists>key. refers J doc key r)))"

lemma walk_rel_docs:
  assumes "walk_rel E J c docs' wk st wk' st'" "docs' \<subseteq> docs \<union> found_docs (wk_out wk)"
  shows "walk_rel E J c docs wk st wk' st'"
proof -
  from assms(1) obtain refs xs where "walk_inv J c wk \<longrightarrow> walk_inv J c wk'"
    "reads_in_turn E J c refs st = (xs, st')" "wk_seen wk' = wk_seen wk @ map ref_key refs"
    and out: "walk_inv J c wk \<longrightarrow> wk_out wk' = wk_out wk @ read_successes refs xs
      \<and> (\<forall>r \<in> set refs. \<exists>doc \<in> docs' \<union> found_docs (wk_out wk'). \<exists>key. refers J doc key r)"
    unfolding walk_rel_def by blast
  moreover from out assms(2) have "walk_inv J c wk \<longrightarrow>
      (\<forall>r \<in> set refs. \<exists>doc \<in> docs \<union> found_docs (wk_out wk'). \<exists>key. refers J doc key r)"
    by (auto 0 4)
  ultimately show ?thesis unfolding walk_rel_def by blast
qed

lemma walk_rel_refl [simp]: "walk_rel E J c docs wk st wk st"
  unfolding walk_rel_def by (intro conjI impI exI [of _ "[]"]) simp_all

lemma walk_rel_trans:
  assumes "walk_rel E J c docs wk st wk1 st1" "walk_rel E J c docs wk1 st1 wk2 st2"
  shows "walk_rel E J c docs wk st wk2 st2"
proof -
  from assms obtain refs1 xs1 refs2 xs2 where
    r1: "reads_in_turn E J c refs1 st = (xs1, st1)" "wk_seen wk1 = wk_seen wk @ map ref_key refs1"
      "walk_inv J c wk \<longrightarrow> wk_out wk1 = wk_out wk @ read_successes refs1 xs1
        \<and> (\<forall>r \<in> set refs1. \<exists>doc \<in> docs \<union> found_docs (wk_out wk1). \<exists>key. refers J doc key r)"
    and r2: "reads_in_turn E J c refs2 st1 = (xs2, st2)" "wk_seen wk2 = wk_seen wk1 @ map ref_key refs2"
      "walk_inv J c wk1 \<longrightarrow> wk_out wk2 = wk_out wk1 @ read_successes refs2 xs2
        \<and> (\<forall>r \<in> set refs2. \<exists>doc \<in> docs \<union> found_docs (wk_out wk2). \<exists>key. refers J doc key r)"
    unfolding walk_rel_def by blast
  have "reads_in_turn E J c (refs1 @ refs2) st = (xs1 @ xs2, st2)" using r1(1) r2(1) by (simp add: reads_append)
  moreover have "read_successes (refs1 @ refs2) (xs1 @ xs2) = read_successes refs1 xs1 @ read_successes refs2 xs2"
    using reads_length [OF r1(1)] by (rule successes_append)
  ultimately show ?thesis
    using assms r1(2,3) r2(2,3) unfolding walk_rel_def
    by (intro conjI exI [of _ "refs1 @ refs2"] exI [of _ "xs1 @ xs2"]) fastforce+
qed

lemma walk_read_failed:
  assumes "read_doc E J c (rf_collection r) (rf_id r) None st = (Inl e, st1)" "ref_key r \<notin> set (wk_seen wk)"
    "refers J doc key r"
  shows "walk_rel E J c {doc} wk st (wk\<lparr>wk_seen := wk_seen wk @ [ref_key r]\<rparr>) st1"
  using assms unfolding walk_rel_def
  by (intro conjI exI [of _ "[r]"] exI [of _ "[Inl e]"]) (auto simp: walk_inv_def)

lemma update_new: "k \<notin> fst ` set al \<Longrightarrow> AList.update k v al = al @ [(k, v)]"
  by (induction al) auto

lemma update_mem: "(k, v) \<in> set (AList.update k v al)"
  by (induction al) auto

lemma set_update: "(a, b) \<in> set (AList.update k v al) \<Longrightarrow> a = k \<and> b = v \<or> (a, b) \<in> set al"
  by (induction al) (auto split: if_splits)

lemma walk_read_done:
  assumes "read_doc E J c (rf_collection r) (rf_id r) None st = (Inr rr, st1)" "ref_key r \<notin> set (wk_seen wk)" "0 \<le> cl_wm_retries c"
    "refers J doc key r"
  shows "walk_rel E J c {doc} wk st (wk\<lparr>wk_seen := wk_seen wk @ [ref_key r], wk_out := AList.update (ref_key r) rr (wk_out wk)\<rparr>) st1"
proof -
  let ?wk = "wk\<lparr>wk_seen := wk_seen wk @ [ref_key r], wk_out := AList.update (ref_key r) rr (wk_out wk)\<rparr>"
  have "walk_inv J c ?wk" if inv: "walk_inv J c wk"
    unfolding walk_inv_def
  proof (intro conjI ballI)
    show "distinct (wk_seen ?wk)" "distinct (map fst (wk_out ?wk))"
      using inv assms(2) by (simp_all add: walk_inv_def distinct_update)
    show "set (map fst (wk_out ?wk)) \<subseteq> set (wk_seen ?wk)"
      using inv by (simp add: walk_inv_def dom_update) blast
  next
    fix p
    assume "p \<in> set (wk_out ?wk)"
    then have "p = (ref_key r, rr) \<or> p \<in> set (wk_out wk)" 
      using set_update [of "fst p" "snd p" "ref_key r" rr "wk_out wk"] by (auto simp: prod_eq_iff)
    then show "case p of (k, rr) \<Rightarrow> rs_ok (rr_result rr) \<and> (\<exists>rq. delivered J c rq (rr_result rr))"
      using inv read_doc_accepted [OF assms(1,3)] by (auto simp: walk_inv_def)
  qed
  moreover have "wk_out ?wk = wk_out wk @ [(ref_key r, rr)]" if "walk_inv J c wk"
    using that assms(2) update_new [of "ref_key r" "wk_out wk" rr] by (auto simp: walk_inv_def)
  ultimately show ?thesis
    using assms(1,4) unfolding walk_rel_def
    by (intro conjI exI [of _ "[r]"] exI [of _ "[Inr rr]"]) auto
qed

lemma walk_keys_rel:
  assumes "walk_keys E J c m d doc keys wk st = ((err, wk'), st')" "0 \<le> cl_wm_retries c"
  shows "walk_rel E J c {doc} wk st wk' st'"
  using assms
proof (induction E J c m d doc keys wk st arbitrary: err wk' st' rule: walk_keys.induct)
  case (1 E J c m d doc wk st)
  then show ?case by simp
next
  case (2 E J c m d doc key keys wk st)
  note run = "2.prems"(1) [unfolded walk_keys.simps(2)]
  show ?case
  proof (cases "direct_field J doc key")
    case (Inl e)
    then show ?thesis using run by simp
  next
    case (Inr ro)
    show ?thesis
    proof (cases "ro = None \<or> ref_key (the ro) \<in> set (wk_seen wk)")
      case True
      then have "walk_keys E J c m d doc keys wk st = ((err, wk'), st')"
        using run Inr by (auto split: option.splits if_splits)
      with True show ?thesis using "2.IH"(1,2) Inr "2.prems"(2) by (cases ro) auto
    next
      case False
      then obtain r where r: "ro = Some r" "ref_key r \<notin> set (wk_seen wk)" by auto
      have refers: "refers J doc key r" using Inr r(1) by (simp add: direct_field_refers)
      obtain res st1 where rd: "read_doc E J c (rf_collection r) (rf_id r) None st = (res, st1)" by (metis surj_pair)
      show ?thesis
      proof (cases res)
        case (Inl e)
        then have "wk' = wk\<lparr>wk_seen := wk_seen wk @ [ref_key r]\<rparr>" "st' = st1"
          using run Inr r rd by (auto simp: Let_def)
        then show ?thesis using walk_read_failed [OF rd [unfolded Inl] r(2) refers] by simp
      next
        case (Inr rr)
        define wk2 where "wk2 = wk\<lparr>wk_seen := wk_seen wk @ [ref_key r], wk_out := AList.update (ref_key r) rr (wk_out wk)\<rparr>"
        have wk2: "wk\<lparr>wk_seen := wk_seen wk @ [ref_key r],
            wk_out := AList.update (ref_key r) rr (wk_out (wk\<lparr>wk_seen := wk_seen wk @ [ref_key r]\<rparr>))\<rparr> = wk2"
          by (simp add: wk2_def)
        have step: "walk_rel E J c {doc} wk st wk2 st1"
          unfolding wk2_def by (rule walk_read_done [OF rd [unfolded Inr] r(2) "2.prems"(2) refers])
        obtain err3 wk3 st2 where inner: "(if m < d + 1 \<or> \<not> oj_is_object J (rr_sot rr) then ((None, wk2), st1)
            else walk_keys E J c m (d + 1) (rr_sot rr) (oj_keys J (rr_sot rr)) wk2 st1) = ((err3, wk3), st2)"
          by (metis surj_pair)
        have run2: "(case ((err3, wk3), st2) of ((Some e, wk3), st2) \<Rightarrow> ((Some e, wk3), st2)
            | ((None, wk3), st2) \<Rightarrow> walk_keys E J c m d doc keys wk3 st2) = ((err, wk'), st')"
          using run unfolding \<open>direct_field J doc key = Inr ro\<close> r(1) sum.case option.case if_not_P [OF r(2)] Let_def rd
            Inr prod.case wk2 inner .
        have "rr_sot rr \<in> found_docs (wk_out wk2)"
          by (auto simp: found_docs_def wk2_def update_mem intro!: image_eqI [of _ _ "(ref_key r, rr)"])
        then have sub: "walk_rel E J c {doc} wk2 st1 wk3 st2"
        proof (cases "m < d + 1 \<or> \<not> oj_is_object J (rr_sot rr)")
          case True
          then show ?thesis using inner by auto
        next
          case False
          have "walk_rel E J c {rr_sot rr} wk2 st1 wk3 st2"
            using False inner "2.prems"(2)
              "2.IH"(3) [OF \<open>direct_field J doc key = Inr ro\<close> r refl rd [unfolded Inr, symmetric] refl _ False]
            by (simp add: wk2_def)
          then show ?thesis by (rule walk_rel_docs) (use \<open>rr_sot rr \<in> found_docs (wk_out wk2)\<close> in simp)
        qed
        show ?thesis
        proof (cases err3)
          case None
          then have rest: "walk_keys E J c m d doc keys wk3 st2 = ((err, wk'), st')"
            using run2 by simp
          have "walk_rel E J c {doc} wk3 st2 wk' st'"
            using "2.IH"(4) [OF \<open>direct_field J doc key = Inr ro\<close> r refl rd [unfolded Inr, symmetric] refl _
                inner [unfolded wk2_def, symmetric] refl None rest] "2.prems"(2) by (simp add: wk2_def)
          then show ?thesis using walk_rel_trans step sub by blast
        next
          case (Some e)
          then have "wk' = wk3" "st' = st2"
            using run2 by simp_all
          then show ?thesis using walk_rel_trans step sub by blast
        qed
      qed
    qed
  qed
qed

lemma resolve_refs_rel:
  assumes "resolve_refs_in_sot E J c sot m st = ((out, err), st')" "0 \<le> cl_wm_retries c"
  shows "\<exists>seen. walk_rel E J c {sot} \<lparr>wk_seen = [], wk_out = []\<rparr> st \<lparr>wk_seen = seen, wk_out = out\<rparr> st'"
proof -
  let ?wk = "\<lparr>wk_seen = [], wk_out = []\<rparr> :: 'a walked"
  let ?m = "if m < 1 then 1 else m"
  obtain e wk' s where w: "walk_keys E J c ?m 1 sot (oj_keys J sot) ?wk st = ((e, wk'), s)" by (metis surj_pair)
  show ?thesis
  proof (cases "oj_is_object J sot")
    case True
    then have "out = wk_out wk'" "st' = s"
      using assms(1) w by (auto simp: resolve_refs_in_sot_def Let_def split: if_splits)
    then have "\<lparr>wk_seen = wk_seen wk', wk_out = out\<rparr> = wk'" by simp
    then show ?thesis using walk_keys_rel [OF w assms(2)] \<open>st' = s\<close> by metis
  next
    case False
    then have "out = []" "st' = st" using assms(1) by (auto simp: resolve_refs_in_sot_def Let_def)
    then show ?thesis by (intro exI [of _ "[]"]) simp
  qed
qed

text \<open>A walk that ends without an error has read every direct reference it met.\<close>

lemma walk_keys_complete:
  assumes "walk_keys E J c m d doc keys wk st = ((None, wk'), st')" "set (wk_seen wk) \<subseteq> fst ` set (wk_out wk)"
  shows "set (wk_seen wk) \<subseteq> set (wk_seen wk') \<and> set (wk_seen wk') \<subseteq> fst ` set (wk_out wk')
    \<and> (\<forall>key \<in> set keys. \<forall>r. refers J doc key r \<longrightarrow> ref_key r \<in> set (wk_seen wk'))"
  using assms
proof (induction E J c m d doc keys wk st arbitrary: wk' st' rule: walk_keys.induct)
  case (2 E J c m d doc key keys wk st)
  note run = "2.prems"(1) [unfolded walk_keys.simps(2)]
  obtain ro where ro: "direct_field J doc key = Inr ro"
    using run by (cases "direct_field J doc key") auto
  have here: "refers J doc key r \<longleftrightarrow> ro = Some r" for r using ro direct_field_refers [of J doc key r] by auto
  show ?case
  proof (cases "ro = None \<or> ref_key (the ro) \<in> set (wk_seen wk)")
    case True
    then have "walk_keys E J c m d doc keys wk st = ((None, wk'), st')"
      using run ro by (auto split: option.splits if_splits)
    with True show ?thesis using "2.IH"(1,2) ro "2.prems"(2) here by (cases ro) fastforce+
  next
    case False
    then obtain r where r: "ro = Some r" "ref_key r \<notin> set (wk_seen wk)" by auto
    obtain rr st1 where rd: "read_doc E J c (rf_collection r) (rf_id r) None st = (Inr rr, st1)"
      using run ro r by (cases "read_doc E J c (rf_collection r) (rf_id r) None st"; cases "fst (read_doc E J c (rf_collection r) (rf_id r) None st)")
        (auto simp: Let_def)
    define wk2 where "wk2 = wk\<lparr>wk_seen := wk_seen wk @ [ref_key r], wk_out := AList.update (ref_key r) rr (wk_out wk)\<rparr>"
    have wk2: "wk\<lparr>wk_seen := wk_seen wk @ [ref_key r],
        wk_out := AList.update (ref_key r) rr (wk_out (wk\<lparr>wk_seen := wk_seen wk @ [ref_key r]\<rparr>))\<rparr> = wk2"
      by (simp add: wk2_def)
    have ok2: "set (wk_seen wk2) \<subseteq> fst ` set (wk_out wk2)"
      using "2.prems"(2) by (auto simp: wk2_def dom_update)
    have run2: "(case (if m < d + 1 \<or> \<not> oj_is_object J (rr_sot rr) then ((None, wk2), st1)
            else walk_keys E J c m (d + 1) (rr_sot rr) (oj_keys J (rr_sot rr)) wk2 st1) of
          ((Some e, wk3), st2) \<Rightarrow> ((Some e, wk3), st2)
        | ((None, wk3), st2) \<Rightarrow> walk_keys E J c m d doc keys wk3 st2) = ((None, wk'), st')"
      using run unfolding ro r(1) sum.case option.case if_not_P [OF r(2)] Let_def rd prod.case wk2 .
    then obtain wk3 st2 where inner: "(if m < d + 1 \<or> \<not> oj_is_object J (rr_sot rr) then ((None, wk2), st1)
        else walk_keys E J c m (d + 1) (rr_sot rr) (oj_keys J (rr_sot rr)) wk2 st1) = ((None, wk3), st2)"
      and rest: "walk_keys E J c m d doc keys wk3 st2 = ((None, wk'), st')"
      by (auto split: prod.splits option.splits)
    have sub: "set (wk_seen wk2) \<subseteq> set (wk_seen wk3) \<and> set (wk_seen wk3) \<subseteq> fst ` set (wk_out wk3)"
    proof (cases "m < d + 1 \<or> \<not> oj_is_object J (rr_sot rr)")
      case True
      then show ?thesis using inner ok2 by auto
    next
      case False
      then show ?thesis
        using inner ok2 "2.IH"(3) [OF ro r refl rd [symmetric] refl _ False] by (simp add: wk2_def)
    qed
    have "set (wk_seen wk3) \<subseteq> set (wk_seen wk') \<and> set (wk_seen wk') \<subseteq> fst ` set (wk_out wk')
        \<and> (\<forall>key \<in> set keys. \<forall>r. refers J doc key r \<longrightarrow> ref_key r \<in> set (wk_seen wk'))"
      using "2.IH"(4) [OF ro r refl rd [symmetric] refl _ inner [unfolded wk2_def, symmetric] refl refl rest] sub
      by (simp add: wk2_def)
    then show ?thesis using sub here r(1) by (auto simp: wk2_def)
  qed
qed simp

lemma resolve_refs_complete:
  assumes "resolve_refs_in_sot E J c sot m st = ((out, None), st')" "oj_is_object J sot"
    "key \<in> set (oj_keys J sot)" "refers J sot key r"
  shows "ref_key r \<in> fst ` set out"
proof -
  let ?wk = "\<lparr>wk_seen = [], wk_out = []\<rparr> :: 'a walked"
  obtain wk' where "walk_keys E J c (if m < 1 then 1 else m) 1 sot (oj_keys J sot) ?wk st = ((None, wk'), st')"
    "out = wk_out wk'"
    using assms(1,2) by (auto simp: resolve_refs_in_sot_def Let_def split: prod.splits if_splits)
  with walk_keys_complete [OF this(1)] assms(3,4) show ?thesis by auto
qed

interpretation resolve_op: client_op event_authorised "resolve_direct_ref E J c text opts" for E J c text opts
  unfolding resolve_direct_ref_def by (intro op_intro)

section \<open>Scripted walks\<close>

text \<open>
  Three documents with co-located ids: the first refers to the second, that to the third. The
  answers are the texts \<open>1\<close>, \<open>2\<close> and \<open>3\<close>; a read of document \<open>d\<close> is \<open>read_of d\<close>.
\<close>

definition doc_id :: "char \<Rightarrow> string" where
  "doc_id d = ''abcdef.'' @ [d]"

definition doc_ref_text :: "char \<Rightarrow> string" where
  "doc_ref_text d = ''@__Todos__'' @ doc_id d"

definition read_of :: "char \<Rightarrow> event" where
  "read_of d = script_post 1 ''http://b'' (command_text ''read'' ''Todos'' (doc_id d) ''{}'')"

lemma doc_slot: "slot (doc_id d) = 0xEF"
proof -
  have "list_all valid_rune (map of_char ''abcdef'')" by (simp add: valid_rune_def)
  moreover have "encode_runes (map of_char ''abcdef'') = ''abcdef''"
    by (rule encode_runes_ascii) simp
  moreover have "\<forall>j < length (map of_char ''abcdef'' :: nat list). 6 \<le> j \<longrightarrow>
      map of_char ''abcdef'' ! j \<noteq> (0x2E :: nat)" by simp
  ultimately have "slot (doc_id d) = raw_slot ''abcdef''"
    using slot_of_colocated [of "map of_char ''abcdef''" "[d]"] by (simp add: doc_id_def)
  then show ?thesis by (simp add: raw_slot_def crc_eval)
qed

lemma doc_route:
  "route_document (script_client wm tr) sample_est (doc_id d) RouteRead
     = Inr \<lparr>rt_server_name = ''b'', rt_base_url = ''http://b'', rt_slot = 0xEF, rt_slot_hex = ''EF''\<rparr>"
proof -
  have "doc_id d \<noteq> []" "doc_id d \<noteq> ''null''" by (simp_all add: doc_id_def)
  then show ?thesis
    by (simp add: route_document_Inr doc_slot sample_assignments route_for_def document_member_def
        sample_assignment_def sample_urls script_rewrite pick_read_member_spec hex2_def hex_byte_def
        hex_digit_def char_eval)
qed

lemma script_read_doc:
  assumes "length t \<le> 10" "decode_result SJ t = Inr res" "rs_ok res"
  shows "read_doc script_env SJ (script_client 1 0) ''Todos'' (doc_id d) None
      \<lparr>st_cache = Some sample_est, st_trace = tr, st_world = answer t # w\<rparr>
    = (Inr (read_result_from SJ res), \<lparr>st_cache = Some sample_est, st_trace = tr @ [read_of d], st_world = w\<rparr>)"
proof -
  have "doc_id d \<noteq> []" by (simp add: doc_id_def)
  moreover have "build_command ''read'' ''Todos'' (doc_id d) (GMap []) = (Inr (command_text ''read'' ''Todos'' (doc_id d) ''{}'') :: js err + string)"
    by (simp add: build_command_def json_object_def marshal_command_text doc_id_def)
  ultimately show ?thesis
    by (simp add: read_doc_def script_cached read_detail_def run_document_command_def doc_route
        script_exec_ok [OF trim_command assms] read_of_def)
qed

definition doc_result :: "string \<Rightarrow> js \<Rightarrow> js result" where
  "doc_result t sot = \<lparr>rs_ok = True, rs_errors = [], rs_env = JObj [(''ok'', JBool True), (''sot'', sot)], rs_body = t\<rparr>"

definition next_doc :: "char \<Rightarrow> js" where
  "next_doc d = JObj [(''next'', JStr (doc_ref_text d))]"

lemma doc_decode:
  "decode_result SJ ''1'' = Inr (doc_result ''1'' (next_doc (CHR ''2'')))"
  "decode_result SJ ''2'' = Inr (doc_result ''2'' (next_doc (CHR ''3'')))"
  "decode_result SJ ''3'' = Inr (doc_result ''3'' (JObj []))"
  by (simp_all add: decode_result_def script_reader_def doc_result_def next_doc_def doc_ref_text_def doc_id_def Let_def)

lemma doc_result_sot [simp]: "rs_ok (doc_result t sot)" "rr_sot (read_result_from SJ (doc_result t sot)) = sot"
  by (simp_all add: doc_result_def read_result_from_def value_field_def)

definition doc_ref :: "char \<Rightarrow> ref" where
  "doc_ref d = \<lparr>rf_kind = Direct, rf_collection = ''Todos'', rf_id = doc_id d, rf_raw = doc_ref_text d\<rparr>"

lemma doc_parse:
  assumes "d \<in> {CHR ''1'', CHR ''2'', CHR ''3''}"
  shows "parse_ref (doc_ref_text d) = (Inr (Some (doc_ref d)) :: 'e gerr + ref option)"
proof -
  have "ref_ok ''Todos'' (doc_id d)"
    using assms by (auto simp: ref_ok_def utf8_valid_ascii runes_of_ascii is_space_def sublist_code
        sublist_Cons_right doc_id_def)
  then have "parse_ref (format_direct ''Todos'' (doc_id d)) = (Inr (Some \<lparr>rf_kind = Direct, rf_collection = ''Todos'',
      rf_id = doc_id d, rf_raw = format_direct ''Todos'' (doc_id d)\<rparr>) :: 'e gerr + ref option)"
    by (rule parse_format_direct)
  then show ?thesis
    by (simp add: format_direct_def doc_ref_def doc_ref_text_def)
qed

lemma doc_ref_simps [simp]: "rf_collection (doc_ref d) = ''Todos''" "rf_id (doc_ref d) = doc_id d" "rf_kind (doc_ref d) = Direct"
  by (simp_all add: doc_ref_def)

lemma doc_key_inj [simp]: "ref_key (doc_ref d) = ref_key (doc_ref e) \<longleftrightarrow> d = e"
  by (simp add: ref_key_def doc_id_def)

lemma doc_field:
  assumes "d \<in> {CHR ''1'', CHR ''2'', CHR ''3''}" "js_get doc key = JStr (doc_ref_text d)"
  shows "direct_field SJ doc key = Inr (Some (doc_ref d))"
  using assms by (simp add: direct_field_def doc_parse)

text \<open>The document whose references are resolved, with its keys in either order.\<close>

definition walk_start :: "bool \<Rightarrow> js" where
  "walk_start swap =
     (let a = (''a'', JStr (doc_ref_text (CHR ''1''))); b = (''b'', JStr (doc_ref_text (CHR ''2''))) in
      JObj (if swap then [b, a] else [a, b]))"

lemma walk_start_fields:
  "direct_field SJ (walk_start swap) ''a'' = Inr (Some (doc_ref (CHR ''1'')))"
  "direct_field SJ (walk_start swap) ''b'' = Inr (Some (doc_ref (CHR ''2'')))"
  "direct_field SJ (next_doc (CHR ''2'')) ''next'' = Inr (Some (doc_ref (CHR ''2'')))"
  "direct_field SJ (next_doc (CHR ''3'')) ''next'' = Inr (Some (doc_ref (CHR ''3'')))"
  by (rule doc_field, simp, simp add: walk_start_def next_doc_def Let_def)+

lemma walk_start_keys: "js_keys (walk_start swap) = (if swap then [''b'', ''a''] else [''a'', ''b''])"
  "js_keys (next_doc d) = [''next'']"
  by (simp_all add: walk_start_def next_doc_def Let_def)

lemma walk_objects: "case walk_start swap of JObj _ \<Rightarrow> True | _ \<Rightarrow> False" "case next_doc d of JObj _ \<Rightarrow> True | _ \<Rightarrow> False"
  by (simp_all add: walk_start_def next_doc_def Let_def)

lemma walk_in_order:
  "resolve_refs_in_sot script_env SJ (script_client 1 0) (walk_start False) 2
     (script_state (Some sample_est) [answer ''1'', answer ''2''])
   = (([(ref_key (doc_ref (CHR ''1'')), read_result_from SJ (doc_result ''1'' (next_doc (CHR ''2'')))),
        (ref_key (doc_ref (CHR ''2'')), read_result_from SJ (doc_result ''2'' (next_doc (CHR ''3''))))], None),
      \<lparr>st_cache = Some sample_est, st_trace = [read_of (CHR ''1''), read_of (CHR ''2'')], st_world = []\<rparr>)"
  by (simp add: resolve_refs_in_sot_def walk_objects walk_start_keys script_state_def walk_keys.simps(2)
      walk_start_fields script_read_doc doc_decode Let_def)

lemma walk_swapped:
  "resolve_refs_in_sot script_env SJ (script_client 1 0) (walk_start True) 2
     (script_state (Some sample_est) [answer ''2'', answer ''3'', answer ''1''])
   = (([(ref_key (doc_ref (CHR ''2'')), read_result_from SJ (doc_result ''2'' (next_doc (CHR ''3'')))),
        (ref_key (doc_ref (CHR ''3'')), read_result_from SJ (doc_result ''3'' (JObj []))),
        (ref_key (doc_ref (CHR ''1'')), read_result_from SJ (doc_result ''1'' (next_doc (CHR ''2''))))], None),
      \<lparr>st_cache = Some sample_est, st_trace = [read_of (CHR ''2''), read_of (CHR ''3''), read_of (CHR ''1'')], st_world = []\<rparr>)"
  by (simp add: resolve_refs_in_sot_def walk_objects walk_start_keys script_state_def walk_keys.simps(2)
      walk_start_fields script_read_doc doc_decode Let_def)

section \<open>Properties\<close>

text \<open>C19: Resolving references terminates and reads no reference twice. Whatever the documents refer
  to, cycles included, the walk returns; the run is the reading of a list of different
  references, one after the other and nothing else; each of them is a direct reference in a string
  field of the given document or of one that was read; the result holds exactly the reads that
  succeeded, under their references, and each of them is one the server accepted; and without an
  error it holds every direct reference of the given document.\<close>

theorem resolve_refs_sound:
  fixes J :: "'j ojson"
  assumes "0 \<le> cl_wm_retries c" "resolve_refs_in_sot E J c sot max_depth st = ((out, err), st')"
  shows "\<exists>refs xs. reads_in_turn E J c refs st = (xs, st')
    \<and> distinct (map (\<lambda>r. (rf_collection r, rf_id r)) refs) \<and> distinct (map fst out)
    \<and> set out = {(rf_collection r @ ''/'' @ rf_id r, rr) |r rr. (r, Inr rr) \<in> set (zip refs xs)}
    \<and> (\<forall>(k, rr) \<in> set out. rs_ok (rr_result rr) \<and> (\<exists>rq. delivered J c rq (rr_result rr)))
    \<and> (\<forall>r \<in> set refs. \<exists>doc key. (doc = sot \<or> (\<exists>(k, rr) \<in> set out. doc = rr_sot rr))
         \<and> oj_is_string J (oj_get J doc key) \<and> rf_kind r = Direct
         \<and> parse_ref (oj_str J (oj_get J doc key)) = (Inr (Some r) :: 'j err + ref option))
    \<and> (err = None \<and> oj_is_object J sot \<longrightarrow> (\<forall>key r. key \<in> set (oj_keys J sot) \<and> oj_is_string J (oj_get J sot key)
         \<and> rf_kind r = Direct \<and> parse_ref (oj_str J (oj_get J sot key)) = (Inr (Some r) :: 'j err + ref option)
         \<longrightarrow> rf_collection r @ ''/'' @ rf_id r \<in> fst ` set out))
    \<and> sent_count st' - sent_count st \<le> int (length refs) * (read_cost c * attempts_max c)"
proof -
  obtain seen where rel: "walk_rel E J c {sot} \<lparr>wk_seen = [], wk_out = []\<rparr> st \<lparr>wk_seen = seen, wk_out = out\<rparr> st'"
    using resolve_refs_rel [OF assms(2,1)] by blast
  moreover have "walk_inv J c \<lparr>wk_seen = [], wk_out = []\<rparr>" by (simp add: walk_inv_def)
  ultimately obtain refs xs where refs: "reads_in_turn E J c refs st = (xs, st')" "out = read_successes refs xs"
      "\<forall>r \<in> set refs. \<exists>doc \<in> {sot} \<union> found_docs out. \<exists>key. refers J doc key r"
    and inv: "walk_inv J c \<lparr>wk_seen = map ref_key refs, wk_out = out\<rparr>"
    by (auto simp: walk_rel_def)
  from inv have "distinct (map ref_key refs)" by (simp add: walk_inv_def)
  then have "distinct (map (\<lambda>r. (rf_collection r, rf_id r)) refs)"
    by (auto simp: distinct_map inj_on_def ref_key_def)
  moreover have "set out = {(rf_collection r @ ''/'' @ rf_id r, rr) |r rr. (r, Inr rr) \<in> set (zip refs xs)}"
    using successes_set [of xs refs] reads_length [OF refs(1)] refs(2) by (simp add: ref_key_def)
  moreover have "\<exists>doc key. (doc = sot \<or> (\<exists>(k, rr) \<in> set out. doc = rr_sot rr)) \<and> oj_is_string J (oj_get J doc key)
      \<and> rf_kind r = Direct \<and> parse_ref (oj_str J (oj_get J doc key)) = (Inr (Some r) :: 'j err + ref option)"
    if "r \<in> set refs" for r
  proof -
    from refs(3) that obtain doc key where "doc \<in> {sot} \<union> found_docs out" "refers J doc key r" by blast
    then show ?thesis by (intro exI [of _ doc] exI [of _ key]) (auto simp: refers_def found_docs_def)
  qed
  moreover have "rf_collection r @ ''/'' @ rf_id r \<in> fst ` set out"
    if "err = None" "oj_is_object J sot" "key \<in> set (oj_keys J sot)" "oj_is_string J (oj_get J sot key)" "rf_kind r = Direct"
      "parse_ref (oj_str J (oj_get J sot key)) = (Inr (Some r) :: 'j err + ref option)" for key r
    using resolve_refs_complete [of E J c sot max_depth st out st' key r] assms(2) that
    by (simp add: refers_def ref_key_def)
  ultimately show ?thesis
    using refs(1) inv reads_cost [OF refs(1)] unfolding walk_inv_def
    by (intro exI [of _ refs] exI [of _ xs] conjI) (blast | simp)+
qed

theorem resolve_refs_sound_witness:
  "\<exists>refs xs. reads_in_turn script_env SJ (script_client 1 0) refs (script_state (Some sample_est) [answer ''1'', answer ''2''])
      = (xs, \<lparr>st_cache = Some sample_est, st_trace = [read_of (CHR ''1''), read_of (CHR ''2'')], st_world = []\<rparr>)
    \<and> distinct (map (\<lambda>r. (rf_collection r, rf_id r)) refs)"
  using resolve_refs_sound [OF _ walk_in_order] by auto

text \<open>C40: The result of resolving references can depend on the iteration order of a map. A document
  refers to documents 1 and 2, 1 refers to 2 and 2 to 3; with depth 2, document 3 is resolved
  when the field for 2 comes first and left out when the field for 1 comes first, although every
  read gets the same answer in both runs: a document reached at the last level is marked as
  seen and not expanded again from a higher one.\<close>

theorem resolve_order_dependent:
  "map fst (fst (fst (resolve_refs_in_sot script_env SJ (script_client 1 0) (walk_start False) 2
      (script_state (Some sample_est) [answer ''1'', answer ''2'']))))
     = [ref_key (doc_ref (CHR ''1'')), ref_key (doc_ref (CHR ''2''))]
   \<and> map fst (fst (fst (resolve_refs_in_sot script_env SJ (script_client 1 0) (walk_start True) 2
      (script_state (Some sample_est) [answer ''2'', answer ''3'', answer ''1'']))))
     = [ref_key (doc_ref (CHR ''2'')), ref_key (doc_ref (CHR ''3'')), ref_key (doc_ref (CHR ''1''))]
   \<and> st_trace (snd (resolve_refs_in_sot script_env SJ (script_client 1 0) (walk_start False) 2
      (script_state (Some sample_est) [answer ''1'', answer ''2'']))) = [read_of (CHR ''1''), read_of (CHR ''2'')]
   \<and> st_trace (snd (resolve_refs_in_sot script_env SJ (script_client 1 0) (walk_start True) 2
      (script_state (Some sample_est) [answer ''2'', answer ''3'', answer ''1''])))
     = [read_of (CHR ''2''), read_of (CHR ''3''), read_of (CHR ''1'')]
   \<and> js_get (walk_start True) = js_get (walk_start False)"
proof -
  have "js_get (walk_start True) k = js_get (walk_start False) k" for k
    by (simp add: walk_start_def Let_def)
  then show ?thesis by (simp add: walk_in_order walk_swapped fun_eq_iff)
qed

end
