(* ===== verification/Recovery.thy ===== *)
theory Recovery
  imports Bounce
begin

text \<open>
  Progress of the bounce machine: every step comes closer to an end, and a command whose shard
  moves no more often than bounces are allowed is accepted in the end.
\<close>

section \<open>The steps that are left\<close>

fun steps_left :: "('j, 'w) client \<Rightarrow> 'j phase \<times> ('j, 'w) state \<Rightarrow> int" where
  "steps_left c (Posting k b, st) = 2 * (cl_wm_retries c - k) + 1"
| "steps_left c (Bounced k res, st) = 2 * (cl_wm_retries c - k)"
| "steps_left c (Finished res err, st) = 0"

lemma bounce_step_closer:
  assumes "bounce_step E J c body resolve x y" "phase_inv J c base0 resolve st0 x"
  shows "steps_left c y < steps_left c x"
  using assms
  by (cases rule: bounce_step.cases) auto

lemma steps_left_nonneg: "phase_inv J c base0 resolve st0 x \<Longrightarrow> 0 \<le> steps_left c x"
  by (cases "(J, c, base0, resolve, st0, x)" rule: phase_inv.cases) auto

lemma bounce_steps_left:
  "(bounce_step E J c body resolve ^^ n) x y \<Longrightarrow> phase_inv J c base0 resolve st0 x \<Longrightarrow>
     phase_inv J c base0 resolve st0 y \<and> int n + steps_left c y \<le> steps_left c x"
proof (induction n arbitrary: y)
  case (Suc n)
  then obtain z where z: "(bounce_step E J c body resolve ^^ n) x z" "bounce_step E J c body resolve z y" by auto
  with Suc.IH [OF z(1)] Suc.prems(2) have "phase_inv J c base0 resolve st0 z" "int n + steps_left c z \<le> steps_left c x"
    by auto
  with z(2) bounce_step_closer [OF z(2)] bounce_step_inv [OF z(2)] show ?case by fastforce
qed simp

section \<open>A shard that moves\<close>

text \<open>
  \<open>moves n b st res st'\<close>: the command posted to \<open>b\<close> is answered \<open>wrongMachine\<close> \<open>n\<close>
  times, each time the fresh establishment document leads on to another base, and the last
  post is accepted.
\<close>

inductive moves :: "'w env \<Rightarrow> 'j ojson \<Rightarrow> ('j, 'w) client \<Rightarrow> string \<Rightarrow> 'j resolver
    \<Rightarrow> nat \<Rightarrow> string \<Rightarrow> ('j, 'w) state \<Rightarrow> 'j result \<Rightarrow> ('j, 'w) state \<Rightarrow> bool"
  for E J c body f where
  arrived: "post_command E J c b body st = ((res, None), st') \<Longrightarrow> rs_ok res \<Longrightarrow> moves E J c body f 0 b st res st'"
| moved: "post_command E J c b body st = ((r, None), st1) \<Longrightarrow> \<not> rs_ok r \<Longrightarrow>
    first_error_code r = code_wrong_machine \<Longrightarrow> establish E J c [] st1 = (None, st2) \<Longrightarrow>
    st_cache st2 = Some est \<Longrightarrow> f est = Inr rt \<Longrightarrow> rt_base_url rt \<noteq> [] \<Longrightarrow>
    moves E J c body f n (rt_base_url rt) st2 res st' \<Longrightarrow> moves E J c body f (Suc n) b st res st'"

inductive_simps moves_0: "moves E J c body f 0 b st res st'"

lemma moves_loop:
  "moves E J c body f n b st res st' \<Longrightarrow> k + int n \<le> cl_wm_retries c \<Longrightarrow>
     execute_loop E J c body (Some f) k b l st = ((res, None), st')"
proof (induction arbitrary: k l rule: moves.induct)
  case (arrived b st res st')
  then show ?case by (simp add: execute_loop.simps [of E J c body _ k])
next
  case (moved b st r st1 st2 est rt n res st')
  have "execute_loop E J c body (Some f) (k + 1) (rt_base_url rt) r st2 = ((res, None), st')"
    using moved.prems by (intro moved.IH) simp
  then show ?case
    using moved.hyps(1-7) moved.prems
    by (simp add: execute_loop.simps [of E J c body _ k] Let_def wrong_machine_iff)
qed

section \<open>Properties\<close>

text \<open>C20: The bounce machine terminates, whatever the servers answer: with at most m bounces no run
  has more than 2 m + 1 steps.\<close>

theorem bounce_terminates:
  assumes "0 \<le> cl_wm_retries c" "(bounce_step E J c body resolve ^^ n) (Posting 0 base, st) y"
  shows "int n \<le> 2 * cl_wm_retries c + 1"
proof -
  have "phase_inv J c base resolve st (Posting 0 base, st)" using assms(1) by simp
  from bounce_steps_left [OF assms(2) this] steps_left_nonneg show ?thesis by fastforce
qed

theorem bounce_terminates_witness:
  "\<exists>n. (bounce_step script_env SJ (script_client 1 0) ''{}'' (Some script_resolve) ^^ n)
     (Posting 0 ''http://x'', script_state None [answer ''W'', answer ''E'', answer ''K''])
     (Posting 1 ''http://b'', \<lparr>st_cache = Some sample_est,
       st_trace = [script_post 1 ''http://x'' ''{}'', script_get 1], st_world = [answer ''K'']\<rparr>) \<and> int n \<le> 3"
proof -
  obtain n where n: "(bounce_step script_env SJ (script_client 1 0) ''{}'' (Some script_resolve) ^^ n)
     (Posting 0 ''http://x'', script_state None [answer ''W'', answer ''E'', answer ''K''])
     (Posting 1 ''http://b'', \<lparr>st_cache = Some sample_est,
       st_trace = [script_post 1 ''http://x'' ''{}'', script_get 1], st_world = [answer ''K'']\<rparr>)"
    using rtranclp_imp_relpowp [OF script_rehop] by blast
  from bounce_terminates [OF _ n] n show ?thesis by auto
qed

text \<open>C18: A command follows its shard. When the shard moves at most as often as bounces are allowed,
  that is, the command is answered wrongMachine n times, each fresh establishment document leads
  on, and the last server accepts, then the routed command succeeds with that answer.\<close>

theorem routed_follows:
  assumes "moves E J c body f n (start_base c initial) st res st'" "int n \<le> cl_wm_retries c"
  shows "execute_routed E J c initial body (Some f) st = ((res, None), st')"
  using moves_loop [OF assms(1), of 0] assms(2) by (simp add: execute_routed_def start_base_def)

theorem routed_follows_witness:
  "fst (execute_routed script_env SJ (script_client 1 0) script_start ''{}'' (Some script_resolve)
     (script_state None [answer ''W'', answer ''E'', answer ''K''])) = (ok_result, None)"
proof -
  let ?moves = "moves script_env SJ (script_client 1 0) ''{}'' script_resolve"
  let ?fin = "\<lparr>st_cache = Some sample_est,
       st_trace = [script_post 1 ''http://x'' ''{}'', script_get 1, script_post 1 ''http://b'' ''{}''], st_world = []\<rparr>"
  let ?rt = "\<lparr>rt_server_name = ''b'', rt_base_url = ''http://b'', rt_slot = 0xEF, rt_slot_hex = ''EF''\<rparr>"
  let ?posted = "\<lparr>st_cache = None, st_trace = [script_post 1 ''http://x'' ''{}''], st_world = [answer ''E'', answer ''K'']\<rparr>"
  let ?fresh = "\<lparr>st_cache = Some sample_est,
       st_trace = [script_post 1 ''http://x'' ''{}'', script_get 1], st_world = [answer ''K'']\<rparr>"
  have post: "post_command script_env SJ (script_client 1 0) ''http://x'' ''{}''
      (script_state None [answer ''W'', answer ''E'', answer ''K'']) = ((wrong_result, None), ?posted)"
    by (simp add: script_state_def script_post_command trim_braces script_decode)
  have est: "establish script_env SJ (script_client 1 0) [] ?posted = (None, ?fresh)"
    using script_establish_any [of 1 None "[script_post 1 ''http://x'' ''{}'']" "[answer ''K'']"] by simp
  have "?moves 0 (rt_base_url ?rt) ?fresh ok_result ?fin"
    by (simp add: moves_0 script_post_command trim_braces script_decode script_results)
  then have "?moves (Suc 0) ''http://x'' (script_state None [answer ''W'', answer ''E'', answer ''K'']) ok_result ?fin"
    by (intro moved [where est = sample_est and rt = ?rt, OF post _ _ est])
      (simp_all add: script_results script_resolve_def script_route)
  from routed_follows [of script_env SJ "script_client 1 0" "''{}''" script_resolve "Suc 0" script_start, OF _ _]
    this show ?thesis by (simp add: start_base_def script_start_def)
qed

end
