(* ===== verification/Decimal.thy ===== *)
theory Decimal
  imports GoErrors
begin

text \<open>
  Decimal numbers as the client reads them: \<open>strconv.ParseInt(s, 10, 64)\<close>, with the value of a
  run of digits, and the printed decimals of GoErrors as a codec for it.
\<close>

definition is_digit :: "char \<Rightarrow> bool" where
  "is_digit c \<longleftrightarrow> 48 \<le> byte_val c \<and> byte_val c \<le> 57"

definition digit :: "char \<Rightarrow> int" where
  "digit c = int (byte_val c) - 48"

definition decimal :: "string \<Rightarrow> int" where
  "decimal ds = foldl (\<lambda>n c. 10 * n + digit c) 0 ds"

definition in_int64 :: "int \<Rightarrow> bool" where
  "in_int64 n \<longleftrightarrow> - 9223372036854775808 \<le> n \<and> n \<le> 9223372036854775807"

text \<open>An optional sign, at least one digit, and a value of 64 bits; \<open>None\<close> is an error.\<close>

definition split_sign :: "string \<Rightarrow> bool \<times> string" where
  "split_sign s = (case s of
     [] \<Rightarrow> (False, [])
   | c # cs \<Rightarrow> if c = CHR ''-'' then (True, cs) else if c = CHR ''+'' then (False, cs) else (False, s))"

definition parse_int64 :: "string \<Rightarrow> int option" where
  "parse_int64 s =
     (case split_sign s of (neg, ds) \<Rightarrow>
        if ds = [] \<or> \<not> list_all is_digit ds then None
        else (let n = (if neg then - decimal ds else decimal ds) in
              if in_int64 n then Some n else None))"

lemma decimal_Nil [simp]: "decimal [] = 0"
  by (simp add: decimal_def)

lemma decimal_snoc [simp]: "decimal (ds @ [c]) = 10 * decimal ds + digit c"
  by (simp add: decimal_def)

lemma decimal_nonneg: "list_all is_digit ds \<Longrightarrow> 0 \<le> decimal ds"
proof (induction ds rule: rev_induct)
  case (snoc c ds)
  then have "0 \<le> digit c" by (simp add: is_digit_def digit_def)
  with snoc show ?case by simp
qed simp

lemma digits_no_sign: "list_all is_digit ds \<Longrightarrow> split_sign ds = (False, ds)"
  by (cases ds) (auto simp: split_sign_def is_digit_def)

lemma parse_digits:
  "list_all is_digit ds \<Longrightarrow> ds \<noteq> [] \<Longrightarrow>
     parse_int64 ds = (if decimal ds \<le> 9223372036854775807 then Some (decimal ds) else None)"
  using decimal_nonneg [of ds] by (simp add: parse_int64_def digits_no_sign in_int64_def)

lemma digit_char: "n < 10 \<Longrightarrow> is_digit (char_of (48 + n)) \<and> digit (char_of (48 + n)) = int n"
  by (simp add: is_digit_def digit_def)

lemma show_nat_digits: "list_all is_digit (show_nat n) \<and> show_nat n \<noteq> [] \<and> decimal (show_nat n) = int n"
proof (induction n rule: show_nat.induct)
  case (1 n)
  show ?case
  proof (cases "n < 10")
    case True
    then show ?thesis using digit_char [of n] by (simp add: show_nat.simps [of n] decimal_def)
  next
    case False
    moreover have "10 * int (n div 10) + int (n mod 10) = int n" by presburger
    ultimately show ?thesis
      using 1 digit_char [of "n mod 10"] by (simp add: show_nat.simps [of n])
  qed
qed

lemma parse_show_nat: "int n \<le> 9223372036854775807 \<Longrightarrow> parse_int64 (show_nat n) = Some (int n)"
  using show_nat_digits [of n] by (simp add: parse_digits)

interpretation int64_text: codec show_int parse_int64 in_int64
proof
  fix i
  assume i: "in_int64 i"
  show "parse_int64 (show_int i) = Some i"
  proof (cases "i < 0")
    case True
    then show ?thesis
      using i show_nat_digits [of "nat (- i)"] by (simp add: show_int_def parse_int64_def split_sign_def)
  next
    case False
    then show ?thesis using i parse_show_nat [of "nat i"] by (simp add: show_int_def in_int64_def)
  qed
qed

end
