(* ===== verification/FileMeta.thy ===== *)
theory FileMeta
  imports Decimal Client Crud
begin

text \<open>
  The data of the file API (files.go): byte ranges, file metadata from response headers and from
  JSON envelopes, the summaries of write results and file lists.
\<close>

section \<open>Records\<close>

record file_metadata =
  fm_name :: string
  fm_content_type :: string
  fm_byte_size :: int
  fm_sha256 :: string
  fm_version :: string
  fm_operation_id :: string
  fm_etag :: string

record file_download_metadata =
  fd_file :: file_metadata
  fd_status_code :: int
  fd_content_range :: string
  fd_accept_ranges :: string
  fd_total_byte_size :: int

record 'j file_write_result =
  fw_result :: "'j result"
  fw_command :: string
  fw_collection :: string
  fw_id :: string
  fw_filename :: string
  fw_version :: string
  fw_byte_size :: int
  fw_sha256 :: string
  fw_content_type :: string
  fw_operation_id :: string
  fw_distribution_complete :: bool
  fw_note :: "'j replication_note option"

section \<open>Byte ranges\<close>

text \<open>\<open>strings.ContainsAny\<close> with a set of ASCII bytes.\<close>

definition contains_any :: "string \<Rightarrow> string \<Rightarrow> bool" where
  "contains_any s cs \<longleftrightarrow> list_ex (\<lambda>c. c \<in> set cs) s"

definition parse_bound :: "string \<Rightarrow> string \<Rightarrow> 'j err + int" where
  "parse_bound nam txt =
     (if list_ex (\<lambda>ch. ch < 48 \<or> 57 < ch) (runes_of txt) then
        Inl (EMsg ''datorium: invalid byte range %s'' [nam])
      else (case parse_int64 txt of
              None \<Rightarrow> Inl (EMsg ''datorium: invalid byte range %s'' [nam])
            | Some n \<Rightarrow> if n < 0 then Inl (EMsg ''datorium: invalid byte range %s'' [nam]) else Inr n))"

definition bytes_prefix :: string where "bytes_prefix = ''bytes=''"

definition validate_file_byte_range :: "string \<Rightarrow> 'j err option" where
  "validate_file_byte_range val =
     (if \<not> prefix bytes_prefix val then Some (EMsg ''datorium: byte range must use bytes= unit'' [])
      else
        (let spec = trim_prefix bytes_prefix val in
         if spec = [] \<or> contains_any spec ('', '' @ [CHR 9, CHR 13, CHR 10]) \<or> count_list spec (CHR ''-'') \<noteq> 1 then
           Some (EMsg ''datorium: byte range must be one closed, open-ended, or suffix range'' [])
         else
           (let start_text = takeWhile (\<lambda>c. c \<noteq> CHR ''-'') spec;
                end_text = tl (dropWhile (\<lambda>c. c \<noteq> CHR ''-'') spec) in
            if start_text = [] \<and> end_text = [] then
              Some (EMsg ''datorium: byte range bounds are required'' [])
            else if start_text = [] then
              (case parse_bound ''suffix'' end_text of
                 Inl e \<Rightarrow> Some e
               | Inr suf \<Rightarrow>
                   if suf = 0 then Some (EMsg ''datorium: byte range suffix must be positive'' []) else None)
            else
              (case parse_bound ''start'' start_text of
                 Inl e \<Rightarrow> Some e
               | Inr start \<Rightarrow>
                   if end_text = [] then None
                   else
                     (case parse_bound ''end'' end_text of
                        Inl e \<Rightarrow> Some e
                      | Inr fin \<Rightarrow>
                          if fin < start then Some (EMsg ''datorium: byte range end must not precede start'' [])
                          else None)))))"

section \<open>Metadata from headers\<close>

text \<open>
  \<open>http.Header.Get\<close>: the first value whose field name is the given one up to the case of
  ASCII letters (net/http stores received names in canonical form), else the empty string.
\<close>

fun header_get :: "(string \<times> string) list \<Rightarrow> string \<Rightarrow> string" where
  "header_get [] k = []"
| "header_get ((k', v) # hs) k = (if to_upper k' = to_upper k then v else header_get hs k)"

definition file_metadata_from_headers :: "string \<Rightarrow> (string \<times> string) list \<Rightarrow> file_metadata" where
  "file_metadata_from_headers filename h =
     (let meta = \<lparr>fm_name = filename, fm_content_type = header_get h ''Content-Type'', fm_byte_size = 0,
                  fm_sha256 = header_get h ''X-DatoriumDB-SHA256'',
                  fm_version = header_get h ''X-DatoriumDB-File-Version'',
                  fm_operation_id = header_get h ''X-DatoriumDB-Operation-Id'',
                  fm_etag = header_get h ''ETag''\<rparr>;
          cl = header_get h ''Content-Length'' in
      if cl \<noteq> [] then
        (case parse_int64 cl of Some n \<Rightarrow> meta\<lparr>fm_byte_size := n\<rparr> | None \<Rightarrow> meta)
      else meta)"

definition file_download_metadata_from_headers :: "string \<Rightarrow> int \<Rightarrow> (string \<times> string) list
    \<Rightarrow> file_download_metadata" where
  "file_download_metadata_from_headers filename status h =
     (let file = file_metadata_from_headers filename h;
          meta = \<lparr>fd_file = file, fd_status_code = status, fd_content_range = header_get h ''Content-Range'',
                  fd_accept_ranges = header_get h ''Accept-Ranges'', fd_total_byte_size = fm_byte_size file\<rparr> in
      case last_index (CHR ''/'') (fd_content_range meta) of
        Some slash \<Rightarrow>
          if slash + 1 < length (fd_content_range meta) then
            (case parse_int64 (drop (slash + 1) (fd_content_range meta)) of
               Some n \<Rightarrow> meta\<lparr>fd_total_byte_size := n\<rparr>
             | None \<Rightarrow> meta)
          else meta
      | None \<Rightarrow> meta)"

section \<open>Metadata from envelopes\<close>

definition int64_from_value :: "'j ojson \<Rightarrow> 'j \<Rightarrow> int" where
  "int64_from_value J v =
     (if oj_is_missing J v \<or> oj_is_null J v then 0
      else
        (case (if oj_is_number J v then Some (oj_json J v)
               else if oj_is_string J v then Some (oj_str J v) else None) of
           None \<Rightarrow> 0
         | Some raw \<Rightarrow> (case parse_int64 raw of None \<Rightarrow> 0 | Some n \<Rightarrow> n)))"

definition int64_field :: "'j ojson \<Rightarrow> 'j result \<Rightarrow> string \<Rightarrow> int" where
  "int64_field J res key = int64_from_value J (oj_get J (rs_env res) key)"

definition file_write_result_from :: "'j ojson \<Rightarrow> 'j result \<Rightarrow> 'j file_write_result" where
  "file_write_result_from J res =
     \<lparr>fw_result = res,
      fw_command = string_field J res ''command'',
      fw_collection = string_field J res ''collection'',
      fw_id = string_field J res ''id'',
      fw_filename = string_field J res ''filename'',
      fw_version = string_field J res ''version'',
      fw_byte_size = int64_field J res ''byteSize'',
      fw_sha256 = string_field J res ''sha256'',
      fw_content_type = string_field J res ''contentType'',
      fw_operation_id = string_field J res ''operationId'',
      fw_distribution_complete = bool_field J res ''distributionComplete'',
      fw_note = replication_note_from J (value_field J res ''note'')\<rparr>"

text \<open>A nil slice is \<open>None\<close>.\<close>

definition file_list_from :: "'j ojson \<Rightarrow> 'j result \<Rightarrow> file_metadata list option" where
  "file_list_from J res =
     (let arr = value_field J res ''files'' in
      if \<not> oj_is_array J arr then None
      else Some (map (\<lambda>item. \<lparr>fm_name = oj_str J (oj_get J item ''name''),
                              fm_content_type = oj_str J (oj_get J item ''contentType''),
                              fm_byte_size = int64_from_value J (oj_get J item ''byteSize''),
                              fm_sha256 = oj_str J (oj_get J item ''sha256''),
                              fm_version = oj_str J (oj_get J item ''version''),
                              fm_operation_id = oj_str J (oj_get J item ''operationId''),
                              fm_etag = []\<rparr>)
                     (filter (oj_is_object J) (oj_items J arr))))"

section \<open>Lemmas\<close>

lemma digit_runes: "list_ex (\<lambda>ch. ch < 48 \<or> 57 < ch) (runes_of s) \<longleftrightarrow> \<not> list_all is_digit s"
proof -
  have "list_ex (\<lambda>ch. ch < 48 \<or> 57 < ch) rs \<longleftrightarrow> \<not> list_all (\<lambda>r. 48 \<le> r \<and> r \<le> 57) rs" for rs :: "nat list"
    by (induction rs) auto
  moreover have "list_all (\<lambda>r. 48 \<le> r \<and> r \<le> 57) (runes_of s) \<longleftrightarrow> list_all is_digit s"
    using runes_all_ascii [of "\<lambda>r. 48 \<le> r \<and> r \<le> 57" s] by (simp add: is_digit_def [abs_def])
  ultimately show ?thesis by simp
qed

lemma parse_bound_Inr:
  "parse_bound nam s = (Inr n :: 'j err + int) \<longleftrightarrow>
     s \<noteq> [] \<and> list_all is_digit s \<and> n = decimal s \<and> decimal s \<le> max_int64"
proof (cases "list_all is_digit s")
  case True
  show ?thesis
  proof (cases "s = []")
    case nil: True
    then show ?thesis by (simp add: parse_bound_def parse_int64_def split_sign_def)
  next
    case False
    then show ?thesis
      using decimal_nonneg [OF True] by (auto simp: parse_bound_def digit_runes parse_digits True max_int64_def)
  qed
qed (simp add: parse_bound_def digit_runes)

lemma cut_at: "c \<notin> set a \<Longrightarrow> takeWhile (\<lambda>x. x \<noteq> c) (a @ c # b) = a \<and> dropWhile (\<lambda>x. x \<noteq> c) (a @ c # b) = c # b"
  by (induction a) auto

lemma cut_around: "c \<in> set s \<Longrightarrow> s = takeWhile (\<lambda>x. x \<noteq> c) s @ c # tl (dropWhile (\<lambda>x. x \<noteq> c) s)"
  by (induction s) auto

text \<open>A range with its two bounds: the suffix, the open range, and the closed range.\<close>

lemma byte_range_parts:
  assumes "list_all is_digit a" "list_all is_digit b"
  shows "validate_file_byte_range (''bytes='' @ a @ CHR ''-'' # b) =
     (if a = [] \<and> b = [] then Some (EMsg ''datorium: byte range bounds are required'' [])
      else if a = [] then
        (case parse_bound ''suffix'' b of Inl e \<Rightarrow> Some e
         | Inr n \<Rightarrow> if n = 0 then Some (EMsg ''datorium: byte range suffix must be positive'' []) else None)
      else
        (case parse_bound ''start'' a of Inl e \<Rightarrow> Some e
         | Inr m \<Rightarrow> if b = [] then None
             else (case parse_bound ''end'' b of Inl e \<Rightarrow> Some e
                   | Inr n \<Rightarrow> if n < m then Some (EMsg ''datorium: byte range end must not precede start'' [])
                       else None)))"
proof -
  let ?spec = "a @ CHR ''-'' # b"
  have no: "c \<notin> set s" if "list_all is_digit s" "\<not> is_digit c" for c s
    using that by (auto simp: list_all_iff)
  have nodash: "\<not> is_digit (CHR ''-'')" by (simp add: is_digit_def)
  have "\<not> contains_any ?spec ('', '' @ [CHR 9, CHR 13, CHR 10])"
    using no [OF assms(1)] no [OF assms(2)]
    by (auto simp: contains_any_def list_ex_iff is_digit_def dest: bspec)
  moreover have "count_list ?spec (CHR ''-'') = 1"
    using no [OF assms(1) nodash] no [OF assms(2) nodash] by simp
  moreover have "trim_prefix bytes_prefix (''bytes='' @ ?spec) = ?spec" "prefix bytes_prefix (''bytes='' @ ?spec)"
    by (simp_all add: bytes_prefix_def trim_prefix_def)
  moreover have "takeWhile (\<lambda>c. c \<noteq> CHR ''-'') ?spec = a" "tl (dropWhile (\<lambda>c. c \<noteq> CHR ''-'') ?spec) = b"
    using cut_at [OF no [OF assms(1) nodash]] by simp_all
  ultimately show ?thesis
    by (simp only: validate_file_byte_range_def Let_def) simp
qed

lemma byte_range_shape:
  assumes "validate_file_byte_range s = (None :: 'j err option)"
  obtains a b where "s = ''bytes='' @ a @ CHR ''-'' # b" "list_all is_digit a" "list_all is_digit b"
proof -
  define spec where "spec = trim_prefix bytes_prefix s"
  define a where "a = takeWhile (\<lambda>c. c \<noteq> CHR ''-'') spec"
  define b where "b = tl (dropWhile (\<lambda>c. c \<noteq> CHR ''-'') spec)"
  have pre: "prefix bytes_prefix s" and one: "count_list spec (CHR ''-'') = 1"
    using assms by (auto simp: validate_file_byte_range_def spec_def Let_def split: if_splits)
  then have "CHR ''-'' \<in> set spec" by (metis count_list_0_iff zero_neq_one)
  from cut_around [OF this] have "spec = a @ CHR ''-'' # b" by (simp only: a_def b_def)
  with trim_prefix_prefix [OF pre] have "s = ''bytes='' @ a @ CHR ''-'' # b"
    by (simp add: spec_def bytes_prefix_def)
  moreover have "list_all is_digit a" "list_all is_digit b"
    using assms
    by (auto simp: validate_file_byte_range_def spec_def [symmetric] a_def [symmetric] b_def [symmetric] Let_def
        parse_bound_Inr split: if_splits sum.splits)
  ultimately show thesis using that by blast
qed

lemma byte_range_accepts:
  assumes "list_all is_digit a" "list_all is_digit b"
  shows "validate_file_byte_range (''bytes='' @ a @ CHR ''-'' # b) = (None :: 'j err option) \<longleftrightarrow>
      decimal a \<le> max_int64 \<and> decimal b \<le> max_int64
        \<and> (if a = [] then 0 < decimal b else b = [] \<or> decimal a \<le> decimal b)"
proof -
  have nums: "0 \<le> decimal ds" "ds = [] \<longrightarrow> decimal ds \<le> max_int64" if "list_all is_digit ds" for ds
    using decimal_nonneg [OF that] by (simp_all add: max_int64_def)
  have bound: "parse_bound nam ds = (if decimal ds \<le> max_int64 then Inr (decimal ds) else
      (Inl (EMsg ''datorium: invalid byte range %s'' [nam]) :: 'j err + int))"
    if "list_all is_digit ds" "ds \<noteq> []" for nam ds
    using that nums [OF that(1)] by (auto simp: parse_bound_def digit_runes parse_digits max_int64_def)
  note na = nums [OF assms(1)] and nb = nums [OF assms(2)]
  show ?thesis
  proof (cases "a = []")
    case True
    then show ?thesis
      unfolding byte_range_parts [OF assms]
      using nb bound [OF assms(2), of "''suffix''"] by (cases "b = []") (auto simp: max_int64_def)
  next
    case False
    note ba = bound [OF assms(1) False, of "''start''"]
    show ?thesis
    proof (cases "b = []")
      case True
      then show ?thesis
        unfolding byte_range_parts [OF assms] ba using False
        by (cases "decimal a \<le> max_int64") (simp_all add: max_int64_def)
    next
      case nonempty: False
      note bb = bound [OF assms(2) nonempty, of "''end''"]
      show ?thesis
        unfolding byte_range_parts [OF assms] ba bb
        using False nonempty
        by (cases "decimal a \<le> max_int64"; cases "decimal b \<le> max_int64"; cases "decimal b < decimal a") simp_all
    qed
  qed
qed

section \<open>Properties\<close>

text \<open>C23: The range check accepts exactly the single byte ranges of the header's grammar: after the unit
  two runs of digits around one minus sign, each a number of 63 bits, not both empty; a suffix
  range has a positive length and a closed one does not end before it starts.\<close>

theorem byte_range_exact:
  "validate_file_byte_range s = (None :: 'j err option) \<longleftrightarrow>
     (\<exists>a b. s = ''bytes='' @ a @ CHR ''-'' # b \<and> list_all is_digit a \<and> list_all is_digit b
        \<and> decimal a \<le> max_int64 \<and> decimal b \<le> max_int64
        \<and> (if a = [] then 0 < decimal b else b = [] \<or> decimal a \<le> decimal b))"
proof -
  show ?thesis
  proof
    assume ok: "validate_file_byte_range s = (None :: 'j err option)"
    then obtain a b where ab: "s = ''bytes='' @ a @ CHR ''-'' # b" "list_all is_digit a" "list_all is_digit b"
      by (rule byte_range_shape)
    have fin: "decimal a \<le> max_int64 \<and> decimal b \<le> max_int64
        \<and> (if a = [] then 0 < decimal b else b = [] \<or> decimal a \<le> decimal b)"
      using ok unfolding ab(1) byte_range_accepts [OF ab(2,3)] .
    show "\<exists>a b. s = ''bytes='' @ a @ CHR ''-'' # b \<and> list_all is_digit a \<and> list_all is_digit b
        \<and> decimal a \<le> max_int64 \<and> decimal b \<le> max_int64
        \<and> (if a = [] then 0 < decimal b else b = [] \<or> decimal a \<le> decimal b)"
      by (rule exI [of _ a], rule exI [of _ b]) (intro conjI ab fin [THEN conjunct1]
          fin [THEN conjunct2, THEN conjunct1] fin [THEN conjunct2, THEN conjunct2])
  next
    assume "\<exists>a b. s = ''bytes='' @ a @ CHR ''-'' # b \<and> list_all is_digit a \<and> list_all is_digit b
        \<and> decimal a \<le> max_int64 \<and> decimal b \<le> max_int64
        \<and> (if a = [] then 0 < decimal b else b = [] \<or> decimal a \<le> decimal b)"
    then obtain a b where ab: "s = ''bytes='' @ a @ CHR ''-'' # b" "list_all is_digit a" "list_all is_digit b"
        "decimal a \<le> max_int64 \<and> decimal b \<le> max_int64
        \<and> (if a = [] then 0 < decimal b else b = [] \<or> decimal a \<le> decimal b)" by (elim exE conjE) (simp only:)
    show "validate_file_byte_range s = (None :: 'j err option)"
      unfolding ab(1) byte_range_accepts [OF ab(2,3)] by (rule ab(4))
  qed
qed

text \<open>The size of a ranged or refused download is read back from its header: a Content-Range that
  ends in a slash and a printed size of 64 bits gives that size, whatever stands before the
  slash, also when the response itself has another length.\<close>

lemma total_size_read:
  assumes "in_int64 n" "header_get h ''Content-Range'' = front @ CHR ''/'' # show_int n"
  shows "fd_total_byte_size (file_download_metadata_from_headers filename status h) = n"
proof -
  have digits: "CHR ''/'' \<notin> set (show_int n)"
    using show_nat_digits [of "nat n"] show_nat_digits [of "nat (- n)"]
    by (auto simp: show_int_def list_all_iff is_digit_def)
  have none: "last_index (CHR ''/'') s = None" if "CHR ''/'' \<notin> set s" for s
    using that by (induction s) auto
  have at: "last_index (CHR ''/'') (front @ CHR ''/'' # show_int n) = Some (length front)"
    by (induction front) (simp_all add: none [OF digits])
  have "show_int n \<noteq> []" using show_nat_digits by (simp add: show_int_def)
  then show ?thesis
    using assms(2) at int64_text.dec_enc [OF assms(1)]
    by (simp add: file_download_metadata_from_headers_def Let_def)
qed

end
