(* ===== verification/Multipart.thy ===== *)
theory Multipart
  imports Command Decimal
begin

text \<open>
  The multipart upload body of files.go: what \<open>mime/multipart.Writer\<close> writes for the two parts
  of an upload, a reader of such bodies after RFC 2046, and the round trip between them.
\<close>

section \<open>Writing\<close>

definition crlf :: string where "crlf = [CHR 13, CHR 10]"

definition delimiter :: "string \<Rightarrow> string" where
  "delimiter b = crlf @ ''--'' @ b"

definition disposition :: "string \<Rightarrow> string" where
  "disposition nam = ''form-data; name='' @ dquote # nam @ [dquote]"

text \<open>A header block: the lines in the order of their keys, and an empty line.\<close>

definition header_block :: "(string \<times> string) list \<Rightarrow> string" where
  "header_block kvs = concat (map (\<lambda>(k, v). k @ '': '' @ v @ crlf) kvs) @ crlf"

definition content_header :: "string \<Rightarrow> int \<Rightarrow> (string \<times> string) list" where
  "content_header content_type content_length =
     [(''Content-Disposition'', disposition ''content'')]
     @ (if 0 < content_length then [(''Content-Length'', show_int content_length)] else [])
     @ (if content_type \<noteq> [] then [(''Content-Type'', content_type)] else [])"

text \<open>All that is written before the content, and after it.\<close>

definition upload_head :: "string \<Rightarrow> string \<Rightarrow> string \<Rightarrow> int \<Rightarrow> string" where
  "upload_head b cmd content_type content_length =
     ''--'' @ b @ crlf @ header_block [(''Content-Disposition'', disposition ''command'')] @ cmd
     @ delimiter b @ crlf @ header_block (content_header content_type content_length)"

definition upload_tail :: "string \<Rightarrow> string" where
  "upload_tail b = delimiter b @ ''--'' @ crlf"

section \<open>Reading\<close>

lemma index_of_length: "index_of sub s = Some i \<Longrightarrow> i + length sub \<le> length s"
  using index_of_Some_split by blast

function header_lines :: "string \<Rightarrow> (string list \<times> string) option" where
  "header_lines s =
     (case index_of crlf s of
        None \<Rightarrow> None
      | Some i \<Rightarrow>
          if i = 0 then Some ([], drop 2 s)
          else (case header_lines (drop (i + 2) s) of
                  None \<Rightarrow> None | Some (ls, rest) \<Rightarrow> Some (take i s # ls, rest)))"
  by pat_completeness auto
termination
  by (relation "measure length") (auto dest!: index_of_length simp: crlf_def)

declare header_lines.simps [simp del]

text \<open>One part: its header lines, its content up to the next delimiter, what follows that.\<close>

definition read_part :: "string \<Rightarrow> string \<Rightarrow> (string list \<times> string \<times> string) option" where
  "read_part b s =
     (case header_lines s of
        None \<Rightarrow> None
      | Some (ls, rest) \<Rightarrow>
          (case index_of (delimiter b) rest of
             None \<Rightarrow> None
           | Some i \<Rightarrow> Some (ls, take i rest, drop (i + length (delimiter b)) rest)))"

text \<open>An upload: the header lines and contents of its two parts.\<close>

definition read_upload :: "string \<Rightarrow> string \<Rightarrow> ((string list \<times> string) \<times> (string list \<times> string)) option" where
  "read_upload b s =
     (if \<not> prefix (''--'' @ b @ crlf) s then None
      else (case read_part b (trim_prefix (''--'' @ b @ crlf) s) of
              None \<Rightarrow> None
            | Some (ls1, part1, r1) \<Rightarrow>
                if \<not> prefix crlf r1 then None
                else (case read_part b (trim_prefix crlf r1) of
                        None \<Rightarrow> None
                      | Some (ls2, part2, r2) \<Rightarrow>
                          if r2 = ''--'' @ crlf then Some ((ls1, part1), (ls2, part2)) else None)))"

section \<open>Finding a delimiter\<close>

text \<open>A pattern whose first byte occurs nowhere else in it cannot overlap itself.\<close>

lemma index_of_marked:
  assumes "c \<notin> set d" "\<not> sublist (c # d) a"
  shows "index_of (c # d) (a @ (c # d) @ r) = Some (length a)"
proof (rule index_of_at, rule notI)
  fix j
  assume j: "j < length a" and pre: "prefix (c # d) (drop j (a @ (c # d) @ r))"
  then have here: "c # d = take (Suc (length d)) (drop j (a @ (c # d) @ r))"
    unfolding prefix_def by (metis append_eq_conv_conj length_Cons)
  show False
  proof (cases "j + Suc (length d) \<le> length a")
    case True
    then have "c # d = take (Suc (length d)) (drop j a)"
      using here by simp
    then have "sublist (c # d) a"
      unfolding sublist_def by (metis append_take_drop_id)
    with assms(2) show False ..
  next
    case False
    define p where "p = length a - j"
    have p: "0 < p" "p \<le> length d" using j False by (auto simp: p_def)
    have "(c # d) ! p = drop j (a @ (c # d) @ r) ! p"
      using pre p unfolding prefix_def by (metis length_Cons less_Suc_eq_le nth_append)
    also have "\<dots> = c" using j by (simp add: p_def nth_append)
    finally have "d ! (p - 1) = c" using p by (cases p) simp_all
    moreover have "d ! (p - 1) \<in> set d" using p by simp
    ultimately show False using assms(1) by simp
  qed
qed

lemma sublist_first: "c \<notin> set a \<Longrightarrow> \<not> sublist (c # d) a"
  by (metis list.set_intros(1) set_mono_sublist subsetD)

lemma index_crlf: "CHR 13 \<notin> set l \<Longrightarrow> index_of crlf (l @ crlf @ s) = Some (length l)"
  unfolding crlf_def by (rule index_of_marked) (simp_all add: sublist_first)

lemma index_delimiter:
  assumes "CHR 13 \<notin> set b" "\<not> sublist (delimiter b) a"
  shows "index_of (delimiter b) (a @ delimiter b @ r) = Some (length a)"
  using index_of_marked [of "CHR 13" "CHR 10 # ''--'' @ b" a r] assms
  by (simp add: delimiter_def crlf_def)

lemma header_lines_end: "header_lines (crlf @ s) = Some ([], s)"
  using index_crlf [of "[]" s] by (simp add: header_lines.simps [of "crlf @ s"]) (simp add: crlf_def)

lemma header_lines_line:
  assumes "CHR 13 \<notin> set l" "l \<noteq> []"
  shows "header_lines (l @ crlf @ s) = (case header_lines s of None \<Rightarrow> None | Some (ls, r) \<Rightarrow> Some (l # ls, r))"
proof -
  have "drop (length l + 2) (l @ crlf @ s) = s" by (simp add: crlf_def)
  then show ?thesis
    using assms by (cases "header_lines s") (simp_all add: header_lines.simps [of "l @ crlf @ s"] index_crlf)
qed

definition header_line :: "string \<times> string \<Rightarrow> string" where
  "header_line = (\<lambda>(k, v). k @ '': '' @ v)"

definition line_block :: "string list \<Rightarrow> string" where
  "line_block ls = concat (map (\<lambda>l. l @ crlf) ls) @ crlf"

definition clean_line :: "string \<Rightarrow> bool" where
  "clean_line l \<longleftrightarrow> CHR 13 \<notin> set l \<and> l \<noteq> []"

lemma header_block_lines: "header_block kvs = line_block (map header_line kvs)"
  by (induction kvs) (auto simp: header_block_def line_block_def header_line_def)

lemma read_line_block: "list_all clean_line ls \<Longrightarrow> header_lines (line_block ls @ s) = Some (ls, s)"
proof (induction ls)
  case Nil
  then show ?case by (simp add: line_block_def header_lines_end)
next
  case (Cons l ls)
  have "line_block (l # ls) @ s = l @ crlf @ (line_block ls @ s)"
    by (simp add: line_block_def)
  then show ?case
    using Cons header_lines_line [of l "line_block ls @ s"] by (simp add: clean_line_def)
qed

lemma read_part_back:
  assumes "CHR 13 \<notin> set b" "\<not> sublist (delimiter b) txt" "list_all clean_line ls"
  shows "read_part b (line_block ls @ txt @ delimiter b @ r) = Some (ls, txt, r)"
  using read_line_block [OF assms(3), of "txt @ delimiter b @ r"] index_delimiter [OF assms(1,2)]
  by (simp add: read_part_def)

text \<open>Any two parts with clean header lines and contents are read back.\<close>

lemma read_two_parts:
  assumes "CHR 13 \<notin> set b" "\<not> sublist (delimiter b) t1" "\<not> sublist (delimiter b) t2"
    and "list_all clean_line ls1" "list_all clean_line ls2"
  shows "read_upload b (''--'' @ b @ crlf @ line_block ls1 @ t1 @ delimiter b @ crlf
      @ line_block ls2 @ t2 @ upload_tail b) = Some ((ls1, t1), (ls2, t2))"
proof -
  let ?r2 = "''--'' @ crlf"
  let ?r1 = "crlf @ line_block ls2 @ t2 @ delimiter b @ ?r2"
  let ?s = "line_block ls1 @ t1 @ delimiter b @ ?r1"
  have "read_part b ?s = Some (ls1, t1, ?r1)"
    by (rule read_part_back) (use assms in auto)
  moreover have "read_part b (line_block ls2 @ t2 @ delimiter b @ ?r2) = Some (ls2, t2, ?r2)"
    by (rule read_part_back) (use assms in auto)
  moreover have "trim_prefix crlf ?r1 = line_block ls2 @ t2 @ delimiter b @ ?r2" "prefix crlf ?r1"
    by (simp_all only: trim_prefix_append prefix_def) blast
  moreover have "trim_prefix (''--'' @ b @ crlf) ((''--'' @ b @ crlf) @ ?s) = ?s"
    "prefix (''--'' @ b @ crlf) ((''--'' @ b @ crlf) @ ?s)"
    by (simp_all only: trim_prefix_append prefix_def) blast
  ultimately have "read_upload b ((''--'' @ b @ crlf) @ ?s) = Some ((ls1, t1), (ls2, t2))"
    by (simp only: read_upload_def if_False not_True_eq_False if_True option.case prod.case refl simp_thms)
  then show ?thesis by (simp only: upload_tail_def append_assoc)
qed

section \<open>Command texts hold no carriage return\<close>

lemma chunk_low_byte:
  "(r, bs) \<in> set (rune_chunks s) \<Longrightarrow> c \<in> set bs \<Longrightarrow> byte_val c < 128 \<Longrightarrow> bs = [c] \<and> r = byte_val c"
proof (induction s rule: rune_chunks.induct)
  case (2 d ds)
  obtain r' n where dec: "decode_rune (d # ds) = (r', n)" by (metis surj_pair)
  show ?case
  proof (cases "(r, bs) \<in> set (rune_chunks (drop n (d # ds)))")
    case True
    then show ?thesis using "2.IH" [OF dec [symmetric] refl] "2.prems" by blast
  next
    case False
    then have front: "r = r'" "bs = take n (d # ds)"
      using "2.prems"(1) dec by (simp_all add: rune_chunks.simps(2) del: decode_rune.simps)
    show ?thesis
    proof (cases "byte_val d < 128")
      case True
      then have "n = 1" "r' = byte_val d" using dec by simp_all
      then show ?thesis using front "2.prems"(2) by simp
    next
      case high: False
      have "1 \<le> n" using decode_rune_width [of "d # ds"] dec by simp
      then have "bs = d # take (n - 1) ds" using front by (cases n) simp_all
      moreover have "list_all (\<lambda>x. 0x80 \<le> byte_val x) (take (n - 1) ds)"
        using decode_rune_cont [OF dec] by blast
      ultimately have "0x80 \<le> byte_val c"
        using "2.prems"(2) high by (auto simp: list_all_iff)
      with "2.prems"(3) show ?thesis by simp
    qed
  qed
qed simp

lemma lower_digit_cr: "n < 16 \<Longrightarrow> lower_digit n \<noteq> CHR 13"
proof
  assume "n < 16" "lower_digit n = CHR 13"
  then have "byte_val (lower_digit n) = 13" by simp
  with \<open>n < 16\<close> show False by (auto simp: lower_digit_def split: if_splits)
qed

lemma json_chunk_cr: "(r, bs) \<in> set (rune_chunks s) \<Longrightarrow> CHR 13 \<notin> set (json_chunk (r, bs))"
proof -
  assume chunk: "(r, bs) \<in> set (rune_chunks s)"
  have "CHR 13 \<in> set bs \<longrightarrow> r = 13" using chunk_low_byte [OF chunk, of "CHR 13"] by simp
  moreover have "r < 128 \<longrightarrow> CHR 13 \<noteq> lower_digit (r div 16)" "CHR 13 \<noteq> lower_digit (r mod 16)"
    using lower_digit_cr [of "r div 16"] lower_digit_cr [of "r mod 16"] by (auto simp: less_mult_imp_div_less)
  ultimately show ?thesis by (cases "CHR 13 \<in> set bs") (simp_all add: json_chunk_def u_escape_def)
qed

lemma json_quote_cr: "CHR 13 \<notin> set (json_quote s)"
  using json_chunk_cr [of _ _ s] by (auto simp: json_quote_def)

lemma join_with_cr: "CHR 13 \<noteq> c \<Longrightarrow> \<forall>p\<in>set ps. CHR 13 \<notin> set p \<Longrightarrow> CHR 13 \<notin> set (join_with c ps)"
  by (induction c ps rule: join_with.induct) auto

text \<open>A map of strings, as the details of the file commands are.\<close>

definition string_map :: "(string \<times> goany) list \<Rightarrow> bool" where
  "string_map kvs \<longleftrightarrow> list_all (\<lambda>kv. \<exists>s. snd kv = GStr s) kvs"

lemma seq_results_Inr: "seq_results (map Inr xs) = Inr xs"
  by (induction xs) simp_all

lemma string_map_marshal:
  assumes "string_map kvs"
  shows "\<exists>raw. json_marshal (GMap kvs) = Inr raw \<and> CHR 13 \<notin> set raw \<and> raw \<noteq> [] \<and> hd raw = CHR ''{''"
proof -
  let ?kvs = "map (\<lambda>kv. (fst kv, json_marshal (snd kv))) kvs"
  let ?text = "\<lambda>(k, r :: string + string). json_quote k @ CHR '':'' # (case r of Inl e \<Rightarrow> e | Inr v \<Rightarrow> v)"
  have elem: "\<exists>v. snd kv = Inr v \<and> CHR 13 \<notin> set v" if "kv \<in> set ?kvs" for kv
    using that assms by (auto simp: string_map_def list_all_iff json_quote_cr dest: bspec)
  have sorted: "kv \<in> set (sort_key fst ?kvs) \<longleftrightarrow> kv \<in> set ?kvs" for kv by simp
  have texts: "map (\<lambda>(k, r). case r of Inl e \<Rightarrow> Inl e | Inr v \<Rightarrow> Inr (json_quote k @ CHR '':'' # v)) (sort_key fst ?kvs)
      = map Inr (map ?text (sort_key fst ?kvs))"
    using elem sorted by (auto simp del: set_sort) fastforce
  have "json_object ?kvs = Inr (CHR ''{'' # join_with (CHR '','') (map ?text (sort_key fst ?kvs)) @ ''}'')"
    by (simp only: json_object_def texts seq_results_Inr sum.case)
  moreover have "CHR 13 \<notin> set (join_with (CHR '','') (map ?text (sort_key fst ?kvs)))"
  proof (rule join_with_cr)
    show "\<forall>p\<in>set (map ?text (sort_key fst ?kvs)). CHR 13 \<notin> set p"
      using elem sorted by (fastforce simp: json_quote_cr simp del: set_sort)
  qed simp
  moreover have "json_marshal (GMap kvs) = json_object ?kvs"
    by (simp add: comp_def map_prod_def case_prod_unfold)
  ultimately show ?thesis by simp
qed

lemma command_text_cr: "CHR 13 \<notin> set d \<Longrightarrow> CHR 13 \<notin> set (command_text w t p d)"
  by (simp add: command_text_def json_field_def json_quote_cr)

lemma string_command_cr:
  assumes "build_command w t p (GMap kvs) = (Inr cmd :: 'j err + string)" "string_map kvs"
  shows "CHR 13 \<notin> set cmd"
proof -
  obtain raw where raw: "json_marshal (GMap kvs) = Inr raw" "CHR 13 \<notin> set raw"
    using string_map_marshal [OF assms(2)] by blast
  moreover obtain r where "json_marshal (GMap kvs) = Inr (CHR ''{'' # r)"
      "marshal_command_request w t p (CHR ''{'' # r) = (Inr cmd :: 'j err + string)"
    using assms(1) unfolding build_command_Inr by (auto simp del: json_marshal.simps)
  ultimately show ?thesis by (auto simp: marshal_command_text command_text_cr simp del: json_marshal.simps)
qed

end
