(* ===== verification/Files.thy ===== *)
theory Files
  imports FileMeta Multipart Bounce
begin

text \<open>
  Binary attachments (files.go): uploads as streamed multipart commands, downloads with their
  header metadata, lists and deletes, and the two loops that repeat an upload or a download
  after a \<open>wrongMachine\<close> answer.
\<close>

section \<open>The caller's readers, writers and callbacks\<close>

text \<open>
  A reader is what it delivers, the error that ends it (if not the end of file), and what
  closing it does. Opening may fail. The body argument of PutFile is nil, a plain
  \<open>io.Reader\<close>, or an \<open>io.ReadSeeker\<close> given by what seeking to its start leads to.
\<close>

record 'w reader =
  rd_bytes :: string
  rd_error :: "string option"
  rd_close :: "'w \<Rightarrow> 'w"

datatype 'w upload_body =
    NilBody
  | PlainReader "'w reader"
  | ReadSeeker "'w \<Rightarrow> (string + 'w reader) \<times> 'w"

record 'w put_file_options =
  po_content_type :: string
  po_if_match :: string
  po_operation_id :: string
  po_content_length :: int
  po_reopen :: "('w \<Rightarrow> (string + 'w reader) \<times> 'w) option"

record ('j, 'w) download_file_options =
  do_range :: string
  do_on_response :: "(file_download_metadata \<Rightarrow> 'w \<Rightarrow> 'j err option \<times> 'w) option"

text \<open>
  A writer, as \<open>io.Copy\<close> drives it: of the bytes that are copied to it, how many it takes and
  the error that stops it.
\<close>

type_synonym 'w sink = "string \<Rightarrow> 'w \<Rightarrow> (nat \<times> string option) \<times> 'w"

section \<open>Opening the upload\<close>

definition require_upload_source :: "'w upload_body \<Rightarrow> 'w put_file_options option \<Rightarrow> 'j err option" where
  "require_upload_source body opts =
     (let reopen = (case opts of None \<Rightarrow> None | Some po \<Rightarrow> po_reopen po) in
      case (body, reopen) of
        (NilBody, None) \<Rightarrow> Some (EMsg ''datorium: PutFile body is required'' [])
      | (_, Some _) \<Rightarrow> None
      | (ReadSeeker _, None) \<Rightarrow> None
      | (PlainReader _, None) \<Rightarrow>
          Some (EMsg ''datorium: PutFile body must be io.ReadSeeker or provide PutFileOptions.Reopen for retries'' []))"

text \<open>The opened body and its closer; an error is its text, which only the transport sees.\<close>

type_synonym 'w body_opener = "'w \<Rightarrow> (string + 'w reader option \<times> ('w \<Rightarrow> 'w) option) \<times> 'w"

definition open_upload_body :: "'w upload_body \<Rightarrow> 'w put_file_options option \<Rightarrow> 'w body_opener" where
  "open_upload_body body opts w =
     (case (case opts of None \<Rightarrow> None | Some po \<Rightarrow> po_reopen po) of
        Some reopen \<Rightarrow>
          (case reopen w of
             (Inl e, w') \<Rightarrow> (Inl e, w')
           | (Inr rc, w') \<Rightarrow> (Inr (Some rc, Some (rd_close rc)), w'))
      | None \<Rightarrow>
          (case body of
             ReadSeeker seek \<Rightarrow>
               (case seek w of
                  (Inl e, w') \<Rightarrow> (Inl e, w')
                | (Inr rs, w') \<Rightarrow> (Inr (Some rs, Some (\<lambda>w. w)), w'))
           | _ \<Rightarrow> (Inl ''datorium: PutFile body must be io.ReadSeeker or provide PutFileOptions.Reopen for retries'', w)))"

section \<open>One upload\<close>

text \<open>
  The goroutine that feeds the pipe: what it writes, and the error it closes the pipe with. The
  closer of the content runs when the goroutine returns.
\<close>

definition write_upload :: "string \<Rightarrow> string \<Rightarrow> string \<Rightarrow> int \<Rightarrow> 'w body_opener option \<Rightarrow> 'w
    \<Rightarrow> (string \<times> string option) \<times> 'w" where
  "write_upload b cmd content_type content_length open_body w =
     (let head = upload_head b cmd content_type content_length in
      case open_body of
        None \<Rightarrow> ((head @ upload_tail b, None), w)
      | Some opener \<Rightarrow>
          (case opener w of
             (Inl e, w1) \<Rightarrow> ((head, Some e), w1)
           | (Inr (body, closer), w1) \<Rightarrow>
               (let close = (case closer of None \<Rightarrow> (\<lambda>w. w) | Some f \<Rightarrow> f) in
                case body of
                  None \<Rightarrow> ((head @ upload_tail b, None), close w1)
                | Some rd \<Rightarrow>
                    (case rd_error rd of
                       Some e \<Rightarrow> ((head @ rd_bytes rd, Some e), close w1)
                     | None \<Rightarrow> ((head @ rd_bytes rd @ upload_tail b, None), close w1)))))"

text \<open>
  What of it reaches the transport: the pipe has no buffer, so the content is opened only when
  the transport has read all that precedes it.
\<close>

definition stream_upload :: "'w env \<Rightarrow> request \<Rightarrow> string \<Rightarrow> string \<Rightarrow> string \<Rightarrow> int
    \<Rightarrow> 'w body_opener option \<Rightarrow> ('j, 'w) state \<Rightarrow> (string \<times> string option) \<times> ('j, 'w) state" where
  "stream_upload E rq b cmd content_type content_length open_body st =
     (if en_reads_content E rq (st_world st) then
        (case write_upload b cmd content_type content_length open_body (st_world st) of
           (out, w) \<Rightarrow> (out, st\<lparr>st_world := w\<rparr>))
      else ((upload_head b cmd content_type content_length, None), st))"

definition multipart_headers :: "('j, 'w) client \<Rightarrow> string \<Rightarrow> string \<Rightarrow> (string \<times> string) list" where
  "multipart_headers c b tok =
     [(''Accept'', ''application/json''), (''Content-Type'', ''multipart/form-data; boundary='' @ b),
      (''User-Agent'', cl_user_agent c), (''Authorization'', ''Bearer '' @ tok)]"

definition new_boundary :: "'w env \<Rightarrow> ('j, 'w) state \<Rightarrow> string \<times> ('j, 'w) state" where
  "new_boundary E st = (case en_boundary E (st_world st) of (b, w) \<Rightarrow> (b, st\<lparr>st_world := w\<rparr>))"

definition send_upload :: "'w env \<Rightarrow> ('j, 'w) client \<Rightarrow> request \<Rightarrow> string \<Rightarrow> string \<Rightarrow> string \<Rightarrow> int
    \<Rightarrow> 'w body_opener option \<Rightarrow> ('j, 'w) state \<Rightarrow> (string + response) \<times> ('j, 'w) state" where
  "send_upload E c rq b cmd content_type content_length open_body st =
     (case stream_upload E rq b cmd content_type content_length open_body st of
        ((body, err), st1) \<Rightarrow>
          (case http_do c (rq\<lparr>rq_body := Some body, rq_body_error := err\<rparr>) st1 of
             (out, n, st2) \<Rightarrow> (out, st2)))"

definition do_multipart_command :: "'w env \<Rightarrow> 'j ojson \<Rightarrow> ('j, 'w) client \<Rightarrow> string \<Rightarrow> string \<Rightarrow> string
    \<Rightarrow> int \<Rightarrow> 'w body_opener option \<Rightarrow> ('j, 'w) state
    \<Rightarrow> ('j result \<times> 'j err option) \<times> ('j, 'w) state" where
  "do_multipart_command E J c base_url cmd content_type content_length open_body st =
     (case new_boundary E st of
        (b, st0) \<Rightarrow>
          (let url = trim_right (CHR ''/'') base_url @ api_prefix @ ''/command'' in
           case en_new_request E ''POST'' url of
             Some e \<Rightarrow> ((zero_result J, Some (ETransport 0 [] (Some (EExt e)))), st0)
           | None \<Rightarrow>
               (case bearer c st0 of
                  (Inl e, st1) \<Rightarrow> ((zero_result J, Some e), st1)
                | (Inr tok, st1) \<Rightarrow>
                    (case send_upload E c \<lparr>rq_method = ''POST'', rq_url = url,
                            rq_headers = multipart_headers c b tok, rq_body = None, rq_body_error = None\<rparr>
                            b cmd content_type content_length open_body st1 of
                       (Inl e, st2) \<Rightarrow> ((zero_result J, Some (ETransport 0 [] (Some (EExt e)))), st2)
                     | (Inr rp, st2) \<Rightarrow>
                         (case read_response J rp of
                            Inl e \<Rightarrow> ((zero_result J, Some e), st2)
                          | Inr res \<Rightarrow> ((res, None), st2))))))"

section \<open>Repeating after a bounce\<close>

text \<open>
  What both loops do after a \<open>wrongMachine\<close> answer: fetch the establishment document and
  resolve the route again. \<open>Inl None\<close> ends the loop with the error of the answer.
\<close>

definition reroute :: "'w env \<Rightarrow> 'j ojson \<Rightarrow> ('j, 'w) client \<Rightarrow> 'j resolver option \<Rightarrow> ('j, 'w) state
    \<Rightarrow> ('j err option + string) \<times> ('j, 'w) state" where
  "reroute E J c resolve st =
     (case establish E J c [] st of
        (Some e, st') \<Rightarrow> (Inl (Some e), st')
      | (None, st') \<Rightarrow>
          (case (st_cache st', resolve) of
             (Some est, Some route_of) \<Rightarrow>
               (case route_of est of
                  Inl e \<Rightarrow> (Inl (Some e), st')
                | Inr route \<Rightarrow> if rt_base_url route = [] then (Inl None, st') else (Inr (rt_base_url route), st'))
           | _ \<Rightarrow> (Inl None, st')))"

function multipart_loop :: "'w env \<Rightarrow> 'j ojson \<Rightarrow> ('j, 'w) client \<Rightarrow> string \<Rightarrow> string \<Rightarrow> int
    \<Rightarrow> 'w body_opener option \<Rightarrow> 'j resolver option \<Rightarrow> int \<Rightarrow> string \<Rightarrow> 'j result \<Rightarrow> ('j, 'w) state
    \<Rightarrow> ('j result \<times> 'j err option) \<times> ('j, 'w) state" where
  "multipart_loop E J c cmd content_type content_length open_body resolve attempt base last_res st =
     (if attempt \<le> cl_wm_retries c then
        (case do_multipart_command E J c base cmd content_type content_length open_body st of
           ((res, Some e), st1) \<Rightarrow> ((zero_result J, Some e), st1)
         | ((res, None), st1) \<Rightarrow>
             if rs_ok res then ((res, None), st1)
             else
               (let ae = app_error_from_result J res in
                if ap_code ae \<noteq> code_wrong_machine then ((res, Some (EApp ae)), st1)
                else if attempt = cl_wm_retries c then ((res, Some (EApp ae)), st1)
                else
                  (case reroute E J c resolve st1 of
                     (Inl None, st2) \<Rightarrow> ((res, Some (EApp ae)), st2)
                   | (Inl (Some e), st2) \<Rightarrow> ((res, Some e), st2)
                   | (Inr b, st2) \<Rightarrow>
                       multipart_loop E J c cmd content_type content_length open_body resolve
                         (attempt + 1) b res st2)))
      else ((last_res, Some (EApp (app_error_from_result J last_res))), st))"
  by pat_completeness auto

termination
  by (relation "measure (\<lambda>(E, J, c, cmd, ct, cl, ob, resolve, attempt, base, l, st). nat (cl_wm_retries c + 1 - attempt))") auto

declare multipart_loop.simps [simp del]

definition initial_base :: "('j, 'w) client \<Rightarrow> route \<Rightarrow> string" where
  "initial_base c initial = (if rt_base_url initial = [] then cf_establishment_url (cl_cfg c) else rt_base_url initial)"

definition execute_routed_multipart :: "'w env \<Rightarrow> 'j ojson \<Rightarrow> ('j, 'w) client \<Rightarrow> route \<Rightarrow> string \<Rightarrow> string
    \<Rightarrow> int \<Rightarrow> 'w body_opener option \<Rightarrow> 'j resolver option \<Rightarrow> ('j, 'w) state
    \<Rightarrow> ('j result \<times> 'j err option) \<times> ('j, 'w) state" where
  "execute_routed_multipart E J c initial cmd content_type content_length open_body resolve st =
     multipart_loop E J c cmd content_type content_length open_body resolve 0 (initial_base c initial)
       (zero_result J) st"

section \<open>Uploading and deleting\<close>

text \<open>The command word, content type, length and detail of an upload, before the operation id.\<close>

definition put_detail :: "string \<Rightarrow> 'w put_file_options option
    \<Rightarrow> string \<times> string \<times> int \<times> (string \<times> goany) list" where
  "put_detail filename opts =
     (case opts of
        None \<Rightarrow> (''fileCreate'', ''application/octet-stream'', 0, [(''filename'', GStr filename)])
      | Some po \<Rightarrow>
          (if po_if_match po \<noteq> [] then ''fileUpdate'' else ''fileCreate'',
           if po_content_type po \<noteq> [] then po_content_type po else ''application/octet-stream'',
           po_content_length po,
           [(''filename'', GStr filename)]
           @ (if po_content_type po \<noteq> [] then [(''contentType'', GStr (po_content_type po))] else [])
           @ (if po_operation_id po \<noteq> [] then [(''operationId'', GStr (po_operation_id po))] else [])
           @ (if po_if_match po \<noteq> [] then [(''version'', GStr (po_if_match po))] else [])))"

definition put_file :: "'w env \<Rightarrow> 'j ojson \<Rightarrow> ('j, 'w) client \<Rightarrow> string \<Rightarrow> string \<Rightarrow> string
    \<Rightarrow> 'w upload_body \<Rightarrow> 'w put_file_options option \<Rightarrow> ('j, 'w) state
    \<Rightarrow> ('j err + 'j file_write_result) \<times> ('j, 'w) state" where
  "put_file E J c collection doc_id filename body opts st =
     (if collection = [] \<or> doc_id = [] \<or> filename = [] then
        (Inl (EMsg ''datorium: collection, docID, and filename are required'' []), st)
      else
        (case require_upload_source body opts of
           Some e \<Rightarrow> (Inl e, st)
         | None \<Rightarrow>
             (case ensure_established E J c st of
                (Inl e, st1) \<Rightarrow> (Inl e, st1)
              | (Inr est, st1) \<Rightarrow>
                  (case route_document c est doc_id RouteWrite of
                     Inl e \<Rightarrow> (Inl e, st1)
                   | Inr route \<Rightarrow>
                       (case put_detail filename opts of
                          (cmd, content_type, content_length, detail) \<Rightarrow>
                            (case ensure_operation_id E detail st1 of
                               (detail', st2) \<Rightarrow>
                                 (case build_command cmd collection doc_id (GMap detail') of
                                    Inl e \<Rightarrow> (Inl e, st2)
                                  | Inr cmd_body \<Rightarrow>
                                      (case execute_routed_multipart E J c route cmd_body content_type content_length
                                              (Some (open_upload_body body opts))
                                              (Some (\<lambda>est'. route_document c est' doc_id RouteWrite)) st2 of
                                         ((res, Some e), st3) \<Rightarrow> (Inl e, st3)
                                       | ((res, None), st3) \<Rightarrow> (Inr (file_write_result_from J res), st3)))))))))"

definition delete_file :: "'w env \<Rightarrow> 'j ojson \<Rightarrow> ('j, 'w) client \<Rightarrow> string \<Rightarrow> string \<Rightarrow> string \<Rightarrow> string
    \<Rightarrow> ('j, 'w) state \<Rightarrow> ('j err + 'j file_write_result) \<times> ('j, 'w) state" where
  "delete_file E J c collection doc_id filename version st =
     (if collection = [] \<or> doc_id = [] \<or> filename = [] then
        (Inl (EMsg ''datorium: collection, docID, and filename are required'' []), st)
      else if version = [] then (Inl (EMsg ''datorium: file version is required'' []), st)
      else
        (case ensure_established E J c st of
           (Inl e, st1) \<Rightarrow> (Inl e, st1)
         | (Inr est, st1) \<Rightarrow>
             (case ensure_operation_id E [(''filename'', GStr filename), (''version'', GStr version)] st1 of
                (detail, st2) \<Rightarrow>
                  (case build_command ''fileDelete'' collection doc_id (GMap detail) of
                     Inl e \<Rightarrow> (Inl e, st2)
                   | Inr body \<Rightarrow>
                       (case run_document_command E J c est doc_id RouteWrite body st2 of
                          ((res, Some e), st3) \<Rightarrow> (Inl e, st3)
                        | ((res, None), st3) \<Rightarrow> (Inr (file_write_result_from J res), st3))))))"

definition list_files :: "'w env \<Rightarrow> 'j ojson \<Rightarrow> ('j, 'w) client \<Rightarrow> string \<Rightarrow> string \<Rightarrow> ('j, 'w) state
    \<Rightarrow> ('j err + file_metadata list option) \<times> ('j, 'w) state" where
  "list_files E J c collection doc_id st =
     (if collection = [] \<or> doc_id = [] then
        (Inl (EMsg ''datorium: collection and docID are required'' []), st)
      else
        (case ensure_established E J c st of
           (Inl e, st1) \<Rightarrow> (Inl e, st1)
         | (Inr est, st1) \<Rightarrow>
             (case build_command ''fileList'' collection doc_id (GMap []) of
                Inl e \<Rightarrow> (Inl e, st1)
              | Inr body \<Rightarrow>
                  (case run_document_command E J c est doc_id RouteRead body st1 of
                     ((res, Some e), st2) \<Rightarrow> (Inl e, st2)
                   | ((res, None), st2) \<Rightarrow> (Inr (file_list_from J res), st2)))))"

section \<open>Downloading\<close>

definition zero_file_metadata :: file_metadata where
  "zero_file_metadata = \<lparr>fm_name = [], fm_content_type = [], fm_byte_size = 0, fm_sha256 = [],
     fm_version = [], fm_operation_id = [], fm_etag = []\<rparr>"

definition zero_download_metadata :: file_download_metadata where
  "zero_download_metadata = \<lparr>fd_file = zero_file_metadata, fd_status_code = 0, fd_content_range = [],
     fd_accept_ranges = [], fd_total_byte_size = 0\<rparr>"

text \<open>A response that carries the file: partial content, or success with a file header.\<close>

definition file_response :: "response \<Rightarrow> bool" where
  "file_response rp \<longleftrightarrow> rp_status rp = 206
     \<or> rp_status rp = 200 \<and> (header_get (rp_headers rp) ''X-DatoriumDB-File-Version'' \<noteq> []
         \<or> header_get (rp_headers rp) ''X-DatoriumDB-SHA256'' \<noteq> [])"

text \<open>Announcing the response to the caller's \<open>OnResponse\<close>.\<close>

definition announce :: "('j, 'w) download_file_options option \<Rightarrow> file_download_metadata \<Rightarrow> ('j, 'w) state
    \<Rightarrow> 'j err option \<times> ('j, 'w) state" where
  "announce opts meta st =
     (case (case opts of None \<Rightarrow> None | Some d \<Rightarrow> do_on_response d) of
        None \<Rightarrow> (None, st)
      | Some f \<Rightarrow>
          (case f meta (st_world st) of
             (r, w) \<Rightarrow> (r, log_event (Committed (fd_status_code meta)) (st\<lparr>st_world := w\<rparr>))))"

text \<open>\<open>io.Copy\<close> of the body: a write error, a short write, or the read error ends it.\<close>

definition copy_body :: "'w sink \<Rightarrow> response \<Rightarrow> ('j, 'w) state \<Rightarrow> string option \<times> ('j, 'w) state" where
  "copy_body w rp st =
     (if rp_body rp = [] then (rp_read_error rp, st)
      else
        (case w (rp_body rp) (st_world st) of
           ((n, err), w') \<Rightarrow>
             (case err of
                Some e \<Rightarrow> Some e
              | None \<Rightarrow> if n < length (rp_body rp) then Some ''short write'' else rp_read_error rp,
              log_event (Wrote (take n (rp_body rp))) (st\<lparr>st_world := w'\<rparr>))))"

text \<open>A response that is not a file: its envelope, or an error.\<close>

definition read_refusal :: "'j ojson \<Rightarrow> response \<Rightarrow> 'j err + 'j result" where
  "read_refusal J rp =
     (let data = take (max_response_body_bytes + 1) (rp_body rp) in
      case (if length data \<le> max_response_body_bytes then rp_read_error rp else None) of
        Some e \<Rightarrow> Inl (ETransport (rp_status rp) [] (Some (EExt e)))
      | None \<Rightarrow>
          if max_response_body_bytes < length data then
            Inl (ETransport (rp_status rp) []
                  (Some (EMsg ''response body exceeds %d bytes'' [show_nat max_response_body_bytes])))
          else if rp_status rp < 200 \<or> 300 \<le> rp_status rp then
            (case decode_result J data of
               Inr decoded \<Rightarrow>
                 if \<not> rs_ok decoded \<or> 0 < length (rs_errors decoded) then Inr decoded
                 else Inl (ETransport (rp_status rp) data None)
             | Inl _ \<Rightarrow> Inl (ETransport (rp_status rp) data None))
          else (case decode_result J data of
                  Inl e \<Rightarrow> Inl (ETransport (rp_status rp) data (Some e))
                | Inr res \<Rightarrow> Inr res))"

definition download_headers :: "('j, 'w) client \<Rightarrow> ('j, 'w) download_file_options option \<Rightarrow> string
    \<Rightarrow> (string \<times> string) list" where
  "download_headers c opts tok =
     [(''Content-Type'', ''application/json''), (''Accept'', ''*/*'')]
     @ (case opts of
          Some d \<Rightarrow> if do_range d \<noteq> [] then [(''Range'', do_range d)] else []
        | None \<Rightarrow> [])
     @ [(''User-Agent'', cl_user_agent c), (''Authorization'', ''Bearer '' @ tok)]"

text \<open>The four results: the metadata, the envelope, whether there is one, the error.\<close>

definition do_file_download_once :: "'w env \<Rightarrow> 'j ojson \<Rightarrow> ('j, 'w) client \<Rightarrow> string \<Rightarrow> string \<Rightarrow> string
    \<Rightarrow> ('j, 'w) download_file_options option \<Rightarrow> 'w sink \<Rightarrow> ('j, 'w) state
    \<Rightarrow> (file_download_metadata \<times> 'j result \<times> bool \<times> 'j err option) \<times> ('j, 'w) state" where
  "do_file_download_once E J c base_url cmd filename opts w st =
     (let url = trim_right (CHR ''/'') base_url @ api_prefix @ ''/command'' in
      case en_new_request E ''POST'' url of
        Some e \<Rightarrow> ((zero_download_metadata, zero_result J, False, Some (ETransport 0 [] (Some (EExt e)))), st)
      | None \<Rightarrow>
          (case bearer c st of
             (Inl e, st1) \<Rightarrow> ((zero_download_metadata, zero_result J, False, Some e), st1)
           | (Inr tok, st1) \<Rightarrow>
               (case http_do c \<lparr>rq_method = ''POST'', rq_url = url, rq_headers = download_headers c opts tok,
                               rq_body = Some cmd, rq_body_error = None\<rparr> st1 of
                  (out, n, st2) \<Rightarrow>
                    (case out of
                       Inl e \<Rightarrow> ((zero_download_metadata, zero_result J, False, Some (ETransport 0 [] (Some (EExt e)))), st2)
                     | Inr rp \<Rightarrow>
                         (let meta = file_download_metadata_from_headers filename (rp_status rp) (rp_headers rp) in
                          if file_response rp then
                            (case announce opts meta st2 of
                               (Some e, st3) \<Rightarrow> ((meta, zero_result J, False, Some e), st3)
                             | (None, st3) \<Rightarrow>
                                 (case copy_body w rp st3 of
                                    (Some e, st4) \<Rightarrow>
                                      ((meta, zero_result J, False, Some (ETransport (rp_status rp) [] (Some (EExt e)))), st4)
                                  | (None, st4) \<Rightarrow> ((meta, zero_result J, False, None), st4)))
                          else
                            (case read_refusal J rp of
                               Inl e \<Rightarrow> ((meta, zero_result J, False, Some e), st2)
                             | Inr res \<Rightarrow> ((meta, res, True, None), st2)))))))"

function download_loop :: "'w env \<Rightarrow> 'j ojson \<Rightarrow> ('j, 'w) client \<Rightarrow> string \<Rightarrow> string
    \<Rightarrow> ('j, 'w) download_file_options option \<Rightarrow> 'w sink \<Rightarrow> 'j resolver option \<Rightarrow> int \<Rightarrow> string
    \<Rightarrow> ('j, 'w) state \<Rightarrow> (file_download_metadata \<times> 'j err option) \<times> ('j, 'w) state" where
  "download_loop E J c cmd filename opts w resolve attempt base st =
     (if attempt \<le> cl_wm_retries c then
        (case do_file_download_once E J c base cmd filename opts w st of
           ((meta, res, is_json, Some e), st1) \<Rightarrow> ((meta, Some e), st1)
         | ((meta, res, is_json, None), st1) \<Rightarrow>
             if \<not> is_json then ((meta, None), st1)
             else
               (let ae = app_error_from_result J res in
                if ap_code ae \<noteq> code_wrong_machine then ((meta, Some (EApp ae)), st1)
                else if attempt = cl_wm_retries c then ((meta, Some (EApp ae)), st1)
                else
                  (case reroute E J c resolve st1 of
                     (Inl None, st2) \<Rightarrow> ((meta, Some (EApp ae)), st2)
                   | (Inl (Some e), st2) \<Rightarrow> ((meta, Some e), st2)
                   | (Inr b, st2) \<Rightarrow> download_loop E J c cmd filename opts w resolve (attempt + 1) b st2)))
      else ((zero_download_metadata, Some (EMsg ''datorium: download exhausted wrongMachine retries'' [])), st))"
  by pat_completeness auto

termination
  by (relation "measure (\<lambda>(E, J, c, cmd, fn, opts, w, resolve, attempt, base, st). nat (cl_wm_retries c + 1 - attempt))") auto

declare download_loop.simps [simp del]

definition execute_routed_file_download :: "'w env \<Rightarrow> 'j ojson \<Rightarrow> ('j, 'w) client \<Rightarrow> route \<Rightarrow> string \<Rightarrow> string
    \<Rightarrow> ('j, 'w) download_file_options option \<Rightarrow> 'w sink \<Rightarrow> 'j resolver option \<Rightarrow> ('j, 'w) state
    \<Rightarrow> (file_download_metadata \<times> 'j err option) \<times> ('j, 'w) state" where
  "execute_routed_file_download E J c initial cmd filename opts w resolve st =
     download_loop E J c cmd filename opts w resolve 0 (initial_base c initial) st"

definition download_file :: "'w env \<Rightarrow> 'j ojson \<Rightarrow> ('j, 'w) client \<Rightarrow> string \<Rightarrow> string \<Rightarrow> string
    \<Rightarrow> 'w sink option \<Rightarrow> ('j, 'w) download_file_options option \<Rightarrow> ('j, 'w) state
    \<Rightarrow> (file_download_metadata \<times> 'j err option) \<times> ('j, 'w) state" where
  "download_file E J c collection doc_id filename w opts st =
     (if collection = [] \<or> doc_id = [] \<or> filename = [] then
        ((zero_download_metadata, Some (EMsg ''datorium: collection, docID, and filename are required'' [])), st)
      else
        (case w of
           None \<Rightarrow> ((zero_download_metadata, Some (EMsg ''datorium: writer is required'' [])), st)
         | Some out \<Rightarrow>
             (case ensure_established E J c st of
                (Inl e, st1) \<Rightarrow> ((zero_download_metadata, Some e), st1)
              | (Inr est, st1) \<Rightarrow>
                  (case build_command ''fileRead'' collection doc_id (GMap [(''filename'', GStr filename)]) of
                     Inl e \<Rightarrow> ((zero_download_metadata, Some e), st1)
                   | Inr body \<Rightarrow>
                       (case route_document c est doc_id RouteRead of
                          Inl e \<Rightarrow> ((zero_download_metadata, Some e), st1)
                        | Inr route \<Rightarrow>
                            execute_routed_file_download E J c route body filename opts out
                              (Some (\<lambda>est'. route_document c est' doc_id RouteRead)) st1)))))"

definition download_whole_file :: "'w env \<Rightarrow> 'j ojson \<Rightarrow> ('j, 'w) client \<Rightarrow> string \<Rightarrow> string \<Rightarrow> string
    \<Rightarrow> 'w sink option \<Rightarrow> ('j, 'w) state \<Rightarrow> (file_metadata \<times> 'j err option) \<times> ('j, 'w) state" where
  "download_whole_file E J c collection doc_id filename w st =
     (case download_file E J c collection doc_id filename w None st of
        ((meta, Some e), st1) \<Rightarrow> ((zero_file_metadata, Some e), st1)
      | ((meta, None), st1) \<Rightarrow> ((fd_file meta, None), st1))"

definition download_file_range :: "'w env \<Rightarrow> 'j ojson \<Rightarrow> ('j, 'w) client \<Rightarrow> string \<Rightarrow> string \<Rightarrow> string
    \<Rightarrow> string \<Rightarrow> 'w sink option \<Rightarrow> ('j, 'w) state
    \<Rightarrow> (file_download_metadata \<times> 'j err option) \<times> ('j, 'w) state" where
  "download_file_range E J c collection doc_id filename byte_range w st =
     (case validate_file_byte_range byte_range of
        Some e \<Rightarrow> ((zero_download_metadata, Some e), st)
      | None \<Rightarrow> download_file E J c collection doc_id filename w
                  (Some \<lparr>do_range = byte_range, do_on_response = None\<rparr>) st)"

definition download_file_with_options :: "'w env \<Rightarrow> 'j ojson \<Rightarrow> ('j, 'w) client \<Rightarrow> string \<Rightarrow> string \<Rightarrow> string
    \<Rightarrow> 'w sink option \<Rightarrow> ('j, 'w) download_file_options option \<Rightarrow> ('j, 'w) state
    \<Rightarrow> (file_download_metadata \<times> 'j err option) \<times> ('j, 'w) state" where
  "download_file_with_options E J c collection doc_id filename w opts st =
     (case (case opts of
              Some d \<Rightarrow> if do_range d \<noteq> [] then validate_file_byte_range (do_range d) else None
            | None \<Rightarrow> None) of
        Some e \<Rightarrow> ((zero_download_metadata, Some e), st)
      | None \<Rightarrow> download_file E J c collection doc_id filename w opts st)"

section \<open>What one upload and one download do\<close>

text \<open>
  The body of an upload whose content is read: the head, the bytes the opened content delivers
  and, unless its reader fails, the tail; or what was written before the opening failed.
\<close>

definition full_upload :: "string \<Rightarrow> string \<Rightarrow> 'w body_opener option \<Rightarrow> 'w \<Rightarrow> request \<Rightarrow> bool" where
  "full_upload head foot ob w rq \<longleftrightarrow>
     (case ob of
        None \<Rightarrow> rq_body rq = Some (head @ foot) \<and> rq_body_error rq = None
      | Some opener \<Rightarrow>
          (case fst (opener w) of
             Inl e \<Rightarrow> rq_body rq = Some head \<and> rq_body_error rq = Some e
           | Inr (None, _) \<Rightarrow> rq_body rq = Some (head @ foot) \<and> rq_body_error rq = None
           | Inr (Some rd, _) \<Rightarrow>
               rq_body rq = Some (head @ rd_bytes rd @ (if rd_error rd = None then foot else []))
               \<and> rq_body_error rq = rd_error rd))"

lemma write_full_upload:
  "write_upload b cmd ct cl ob w = ((body, err), w') \<Longrightarrow> rq_body rq = Some body \<Longrightarrow> rq_body_error rq = err \<Longrightarrow>
     full_upload (upload_head b cmd ct cl) (upload_tail b) ob w rq"
  by (auto simp: write_upload_def full_upload_def Let_def split: option.splits sum.splits prod.splits)

text \<open>
  An upload request: an authorised POST whose body is all of the above, content included,
  when the transport reads that far, and the part before the content only when it does not.
\<close>

definition upload_request :: "'w env \<Rightarrow> string \<Rightarrow> string \<Rightarrow> string \<Rightarrow> int \<Rightarrow> 'w body_opener option \<Rightarrow> request \<Rightarrow> bool" where
  "upload_request E url cmd ct cl ob rq \<longleftrightarrow> rq_method rq = ''POST'' \<and> rq_url rq = url \<and> authorised rq
     \<and> (\<exists>b w. (''Content-Type'', ''multipart/form-data; boundary='' @ b) \<in> set (rq_headers rq)
          \<and> (if en_reads_content E (rq\<lparr>rq_body := None, rq_body_error := None\<rparr>) w
             then full_upload (upload_head b cmd ct cl) (upload_tail b) ob w rq
             else rq_body rq = Some (upload_head b cmd ct cl) \<and> rq_body_error rq = None))"

definition download_request :: "string \<Rightarrow> string \<Rightarrow> ('j, 'w) download_file_options option \<Rightarrow> request \<Rightarrow> bool" where
  "download_request url cmd opts rq \<longleftrightarrow> rq_method rq = ''POST'' \<and> rq_url rq = url \<and> authorised rq
     \<and> rq_body rq = Some cmd
     \<and> (\<forall>v. (''Range'', v) \<in> set (rq_headers rq) \<longleftrightarrow> (\<exists>d. opts = Some d \<and> v = do_range d \<and> v \<noteq> []))"

text \<open>The transport answered a request with a response.\<close>

definition responded :: "('j, 'w) client \<Rightarrow> request \<Rightarrow> response \<Rightarrow> bool" where
  "responded c rq rp \<longleftrightarrow> (\<exists>w n w'. cl_http c rq w = (Inr rp, n, w'))"

lemma http_do_responded: "http_do c rq st = (Inr rp, n, st') \<Longrightarrow> responded c rq rp"
  by (auto simp: http_do_def responded_def split: prod.splits)

lemma authorised_bearer: "tok \<noteq> [] \<Longrightarrow> (''Authorization'', ''Bearer '' @ tok) \<in> set (rq_headers rq) \<Longrightarrow> authorised rq"
  by (auto simp: authorised_def)

lemma new_boundary_frame:
  "new_boundary E st = (b, st') \<Longrightarrow> st_cache st' = st_cache st \<and> st_trace st' = st_trace st"
  by (auto simp: new_boundary_def split: prod.splits)

lemma send_upload_frame:
  assumes "send_upload E c rq0 b cmd ct cl ob st = (out, st')"
  obtains rq where "st_cache st' = st_cache st" "st_trace st' = st_trace st @ [Sent rq]"
    "rq_method rq = rq_method rq0" "rq_url rq = rq_url rq0" "rq_headers rq = rq_headers rq0"
    "if en_reads_content E rq0 (st_world st) then full_upload (upload_head b cmd ct cl) (upload_tail b) ob (st_world st) rq
      else rq_body rq = Some (upload_head b cmd ct cl) \<and> rq_body_error rq = None"
    "\<forall>rp. out = Inr rp \<longrightarrow> responded c rq rp"
proof -
  obtain body err st1 where up: "stream_upload E rq0 b cmd ct cl ob st = ((body, err), st1)" by (metis surj_pair)
  let ?rq = "rq0\<lparr>rq_body := Some body, rq_body_error := err\<rparr>"
  obtain o1 n st2 where h: "http_do c ?rq st1 = (o1, n, st2)" by (metis prod_cases3)
  have out: "out = o1" "st' = st2" using assms up h by (simp_all add: send_upload_def)
  have "st_cache st1 = st_cache st \<and> st_trace st1 = st_trace st"
    using up by (auto simp: stream_upload_def split: if_splits prod.splits)
  moreover have "if en_reads_content E rq0 (st_world st)
      then full_upload (upload_head b cmd ct cl) (upload_tail b) ob (st_world st) ?rq
      else body = upload_head b cmd ct cl \<and> err = None"
    using up by (auto simp: stream_upload_def split: if_splits prod.splits intro: write_full_upload)
  ultimately show thesis
    using that [of ?rq] http_do_frame [OF h] http_do_responded [of c ?rq st1] h out by auto
qed

lemma multipart_frame:
  fixes J :: "'j ojson"
  assumes "do_multipart_command E J c base cmd ct cl ob st = ((res, err), st')"
  shows "st_cache st' = st_cache st"
    "st_trace st' = st_trace st \<and> err \<noteq> None
      \<or> (\<exists>rq. st_trace st' = st_trace st @ [Sent rq] \<and> upload_request E (command_url base) cmd ct cl ob rq
           \<and> (err = None \<longrightarrow> delivered J c rq res))"
    "err = Some e \<Longrightarrow> res = zero_result J"
proof -
  let ?P = "st_cache st' = st_cache st
    \<and> (st_trace st' = st_trace st \<and> err \<noteq> None
      \<or> (\<exists>rq. st_trace st' = st_trace st @ [Sent rq] \<and> upload_request E (command_url base) cmd ct cl ob rq
           \<and> (err = None \<longrightarrow> delivered J c rq res)))
    \<and> (err = Some e \<longrightarrow> res = zero_result J)"
  obtain b st0 where b: "new_boundary E st = (b, st0)" by (metis surj_pair)
  note same0 = new_boundary_frame [OF b]
  have ?P
  proof (cases "en_new_request E ''POST'' (command_url base)")
    case (Some e1)
    then show ?thesis using assms b same0 by (auto simp: do_multipart_command_def)
  next
    case None
    obtain tk st1 where t: "bearer c st0 = (tk, st1)" by (metis surj_pair)
    note same1 = bearer_frame(1,2) [OF t]
    show ?thesis
    proof (cases tk)
      case (Inl e1)
      then show ?thesis using assms b t None same0 same1 by (auto simp: do_multipart_command_def)
    next
      case (Inr tok)
      let ?rq = "\<lparr>rq_method = ''POST'', rq_url = command_url base, rq_headers = multipart_headers c b tok,
          rq_body = None, rq_body_error = None\<rparr>"
      obtain out st2 where s: "send_upload E c ?rq b cmd ct cl ob st1 = (out, st2)" by (metis surj_pair)
      from s obtain rq where rq: "st_cache st2 = st_cache st1" "st_trace st2 = st_trace st1 @ [Sent rq]"
        "rq_method rq = ''POST''" "rq_url rq = command_url base" "rq_headers rq = multipart_headers c b tok"
        "if en_reads_content E ?rq (st_world st1) then full_upload (upload_head b cmd ct cl) (upload_tail b) ob (st_world st1) rq
          else rq_body rq = Some (upload_head b cmd ct cl) \<and> rq_body_error rq = None"
        "\<forall>rp. out = Inr rp \<longrightarrow> responded c rq rp"
        by (rule send_upload_frame) simp
      have "authorised rq"
        using bearer_frame(3) [OF t Inr] rq(5) by (intro authorised_bearer [of tok]) (simp_all add: multipart_headers_def)
      moreover have "rq\<lparr>rq_body := None, rq_body_error := None\<rparr> = ?rq" using rq(3-5) by simp
      note content = rq(6) [folded this]
      moreover have "(''Content-Type'', ''multipart/form-data; boundary='' @ b) \<in> set (rq_headers rq)"
        by (simp add: rq(5) multipart_headers_def)
      ultimately have up: "upload_request E (command_url base) cmd ct cl ob rq"
        using rq(3,4) unfolding upload_request_def by blast
      have "st' = st2 \<and> (err = None \<longrightarrow> (\<exists>rp. out = Inr rp \<and> read_response J rp = Inr res)) \<and> (err = Some e \<longrightarrow> res = zero_result J)"
        using assms b t None Inr s by (auto simp: do_multipart_command_def split: sum.splits)
      moreover have "responded c rq rp \<Longrightarrow> read_response J rp = Inr res \<Longrightarrow> delivered J c rq res" for rp
        by (auto simp: responded_def delivered_def)
      ultimately show ?thesis using rq(1,2,7) up same0 same1 by auto
    qed
  qed
  then show "st_cache st' = st_cache st"
    "st_trace st' = st_trace st \<and> err \<noteq> None
      \<or> (\<exists>rq. st_trace st' = st_trace st @ [Sent rq] \<and> upload_request E (command_url base) cmd ct cl ob rq
           \<and> (err = None \<longrightarrow> delivered J c rq res))"
    "err = Some e \<Longrightarrow> res = zero_result J" by blast+
qed

text \<open>The bytes a log says were taken by the caller's writer.\<close>

fun writes :: "event list \<Rightarrow> string list" where
  "writes [] = []"
| "writes (Wrote s # evs) = s # writes evs"
| "writes (_ # evs) = writes evs"

lemma writes_append [simp]: "writes (xs @ ys) = writes xs @ writes ys"
  by (induction xs rule: writes.induct) auto

lemma copy_body_frame:
  assumes "copy_body w rp st = (r, st')"
  shows "st_cache st' = st_cache st"
    "\<exists>n. st_trace st' = st_trace st @ (if rp_body rp = [] then [] else [Wrote (take n (rp_body rp))])
       \<and> (r = None \<longrightarrow> length (rp_body rp) \<le> n \<and> rp_read_error rp = None)"
proof -
  have "st_cache st' = st_cache st \<and> (\<exists>n. st_trace st' = st_trace st @ (if rp_body rp = [] then [] else [Wrote (take n (rp_body rp))])
       \<and> (r = None \<longrightarrow> length (rp_body rp) \<le> n \<and> rp_read_error rp = None))"
  proof (cases "rp_body rp = []")
    case True
    then show ?thesis using assms by (auto simp: copy_body_def)
  next
    case False
    obtain n err w' where k: "w (rp_body rp) (st_world st) = ((n, err), w')" by (metis surj_pair)
    show ?thesis
      using assms False k by (cases err) (auto simp: copy_body_def log_event_def intro!: exI [of _ n] split: if_splits)
  qed
  then show "st_cache st' = st_cache st"
    "\<exists>n. st_trace st' = st_trace st @ (if rp_body rp = [] then [] else [Wrote (take n (rp_body rp))])
       \<and> (r = None \<longrightarrow> length (rp_body rp) \<le> n \<and> rp_read_error rp = None)" by blast+
qed

text \<open>
  The log of one download attempt: nothing, or the request, the announcement of a file response
  if the caller asked for it, and what the writer took of its body.
\<close>

definition announced :: "('j, 'w) download_file_options option \<Rightarrow> response \<Rightarrow> event list" where
  "announced opts rp = (if \<exists>d. opts = Some d \<and> do_on_response d \<noteq> None then [Committed (rp_status rp)] else [])"

definition download_log :: "('j, 'w) client \<Rightarrow> string \<Rightarrow> string \<Rightarrow> string \<Rightarrow> ('j, 'w) download_file_options option
    \<Rightarrow> file_download_metadata \<Rightarrow> bool \<Rightarrow> 'j err option \<Rightarrow> event list \<Rightarrow> bool" where
  "download_log c url cmd filename opts meta is_json err evs \<longleftrightarrow>
     (evs = [] \<and> err \<noteq> None)
     \<or> (\<exists>rq. download_request url cmd opts rq
          \<and> (evs = [Sent rq] \<and> (err \<noteq> None \<or> is_json)
             \<or> (\<exists>rp n. responded c rq rp \<and> file_response rp \<and> \<not> is_json
                  \<and> meta = file_download_metadata_from_headers filename (rp_status rp) (rp_headers rp)
                  \<and> (evs = Sent rq # announced opts rp \<and> err \<noteq> None
                     \<or> evs = Sent rq # announced opts rp @ (if rp_body rp = [] then [] else [Wrote (take n (rp_body rp))])
                        \<and> (err = None \<longrightarrow> length (rp_body rp) \<le> n \<and> rp_read_error rp = None)))))"

lemma announce_frame:
  assumes "announce opts meta st = (r, st')" "fd_status_code meta = rp_status rp"
  shows "st_cache st' = st_cache st \<and> st_trace st' = st_trace st @ announced opts rp"
  using assms by (auto simp: announce_def announced_def log_event_def split: option.splits prod.splits)

lemma download_log_Nil: "err \<noteq> None \<Longrightarrow> download_log c url cmd filename opts meta is_json err []"
  by (simp add: download_log_def)

lemma meta_status [simp]: "fd_status_code (file_download_metadata_from_headers f s h) = s"
  by (simp add: file_download_metadata_from_headers_def Let_def split: option.splits)

lemma download_headers_request:
  assumes "tok \<noteq> []"
  shows "download_request url cmd opts \<lparr>rq_method = ''POST'', rq_url = url, rq_headers = download_headers c opts tok,
      rq_body = Some cmd, rq_body_error = None\<rparr>"
  using assms unfolding download_request_def
  by (intro conjI allI authorised_bearer [of tok]) (auto simp: download_headers_def split: option.splits)

lemma download_once_frame:
  fixes J :: "'j ojson"
  assumes "do_file_download_once E J c base cmd filename opts w st = ((meta, res, is_json, err), st')"
  shows "st_cache st' = st_cache st"
    "\<exists>evs. st_trace st' = st_trace st @ evs \<and> download_log c (command_url base) cmd filename opts meta is_json err evs"
proof -
  let ?log = "download_log c (command_url base) cmd filename opts meta is_json err"
  have "st_cache st' = st_cache st \<and> (\<exists>evs. st_trace st' = st_trace st @ evs \<and> ?log evs)"
  proof (cases "en_new_request E ''POST'' (command_url base)")
    case (Some e1)
    then have "st' = st" "err \<noteq> None" using assms by (auto simp: do_file_download_once_def)
    then show ?thesis using download_log_Nil by simp
  next
    case None
    obtain tk st1 where t: "bearer c st = (tk, st1)" by (metis surj_pair)
    note same1 = bearer_frame(1,2) [OF t]
    show ?thesis
    proof (cases tk)
      case (Inl e1)
      then have "st' = st1" "err \<noteq> None" using assms t None by (auto simp: do_file_download_once_def)
      then show ?thesis using download_log_Nil same1 by simp
    next
      case (Inr tok)
      let ?rq = "\<lparr>rq_method = ''POST'', rq_url = command_url base, rq_headers = download_headers c opts tok,
          rq_body = Some cmd, rq_body_error = None\<rparr>"
      have rq: "download_request (command_url base) cmd opts ?rq"
        using bearer_frame(3) [OF t Inr] by (rule download_headers_request)
      then have one: "?log [Sent ?rq]" if "err \<noteq> None \<or> is_json"
        using that unfolding download_log_def by blast
      obtain out n st2 where h: "http_do c ?rq st1 = (out, n, st2)" by (metis prod_cases3)
      note same2 = http_do_frame [OF h]
      note run = assms None t Inr h
      show ?thesis
      proof (cases out)
        case (Inl e1)
        then have "st' = st2" and st: "err \<noteq> None \<or> is_json" using run by (auto simp: do_file_download_once_def)
        then show ?thesis using same1 same2 one [OF st] by auto
      next
        case rp: (Inr rp)
        let ?meta = "file_download_metadata_from_headers filename (rp_status rp) (rp_headers rp)"
        have resp: "responded c ?rq rp" using h rp http_do_responded by blast
        show ?thesis
        proof (cases "file_response rp")
          case False
          then have "st' = st2" and st: "err \<noteq> None \<or> is_json" using run rp by (auto simp: do_file_download_once_def Let_def split: sum.splits)
          then show ?thesis using same1 same2 one [OF st] by auto
        next
          case isfile: True
          obtain a st3 where a: "announce opts ?meta st2 = (a, st3)" by (metis surj_pair)
          define cs where "cs = announced opts rp"
          have cs: "st_trace st3 = st_trace st2 @ cs" "st_cache st3 = st_cache st2"
            using announce_frame [OF a, of rp] by (auto simp: cs_def)
          show ?thesis
          proof (cases a)
            case (Some e1)
            then have fin: "meta = ?meta" "\<not> is_json" "err = Some e1" "st' = st3"
              using run rp isfile a by (simp_all add: do_file_download_once_def Let_def)
            then have "?log (Sent ?rq # cs)"
              unfolding download_log_def using rq resp isfile unfolding cs_def by blast
            then show ?thesis using fin same1 same2 cs by auto
          next
            case no: None
            obtain k st4 where k: "copy_body w rp st3 = (k, st4)" by (metis surj_pair)
            from copy_body_frame [OF k] obtain m where m: "st_cache st4 = st_cache st3"
              "st_trace st4 = st_trace st3 @ (if rp_body rp = [] then [] else [Wrote (take m (rp_body rp))])"
              "k = None \<longrightarrow> length (rp_body rp) \<le> m \<and> rp_read_error rp = None" by blast
            have fin: "meta = ?meta" "\<not> is_json" "err = None \<longleftrightarrow> k = None" "st' = st4"
              using run rp isfile a no k by (auto simp: do_file_download_once_def Let_def split: option.splits)
            then have "?log (Sent ?rq # cs @ (if rp_body rp = [] then [] else [Wrote (take m (rp_body rp))]))"
              unfolding download_log_def using rq resp isfile m(3) unfolding cs_def by blast
            then show ?thesis using fin same1 same2 cs m(1,2) by auto
          qed
        qed
      qed
    qed
  qed
  then show "st_cache st' = st_cache st" "\<exists>evs. st_trace st' = st_trace st @ evs \<and> ?log evs" by blast+
qed

end
