(* ===== verification/FileLoops.thy ===== *)
theory FileLoops
  imports Files
begin

text \<open>
  The two repeating loops of files.go: what they may send, how often, and what their results
  rest on; then the properties of uploads and downloads.
\<close>

section \<open>Counting posts, and what the caller is shown\<close>

definition post_count :: "('j, 'w) state \<Rightarrow> int" where
  "post_count st = int (length (filter (\<lambda>rq. rq_method rq = ''POST'') (sents (st_trace st))))"

fun is_output :: "event \<Rightarrow> bool" where
  "is_output (Committed n) = True"
| "is_output (Wrote s) = True"
| "is_output _ = False"

definition outputs :: "event list \<Rightarrow> event list" where
  "outputs evs = filter is_output evs"

lemma outputs_simps [simp]: "outputs [] = []" "outputs (xs @ ys) = outputs xs @ outputs ys"
    "outputs (ev # evs) = (if is_output ev then ev # outputs evs else outputs evs)"
  by (simp_all add: outputs_def)

lemma json_event_posts:
  "list_all (json_event ''GET'' url body auth) evs \<Longrightarrow>
     filter (\<lambda>rq. rq_method rq = ''POST'') (sents evs) = [] \<and> outputs evs = []"
  by (induction evs rule: sents.induct) (auto simp: json_request_def)

lemma establish_quiet:
  assumes "extends (establish_event c) st st'"
  obtains evs where "st_trace st' = st_trace st @ evs" "outputs evs = []" "post_count st' = post_count st"
proof -
  from assms obtain evs where evs: "st_trace st' = st_trace st @ evs" "list_all (establish_event c) evs"
    unfolding extends_def by blast
  with json_event_posts [OF evs(2)] show thesis using that [of evs] by (simp add: post_count_def)
qed

section \<open>Resolving again\<close>

lemma reroute_frame:
  assumes "reroute E J c resolve st = (r, st')"
  shows "extends (establish_event c) st st'" "sent_count st' \<le> sent_count st + attempts_max c"
    "r = Inr b \<Longrightarrow> \<exists>est. st_cache st' = Some est \<and> resolved_base resolve est b"
proof -
  obtain e st1 where es: "establish E J c [] st = (e, st1)" by (metis surj_pair)
  then have "st' = st1"
    using assms by (auto simp: reroute_def split: option.splits sum.splits if_splits)
  then show "extends (establish_event c) st st'" "sent_count st' \<le> sent_count st + attempts_max c"
    using establish_op.run_extends_to [OF es] establish_count [OF es] by simp_all
  show "\<exists>est. st_cache st' = Some est \<and> resolved_base resolve est b" if "r = Inr b"
  proof -
    have "e = None" using assms es that by (cases e) (simp_all add: reroute_def)
    with es obtain est where "st_cache st1 = Some est" "establishment_ok est"
      using establish_None_cache by blast
    then show ?thesis
      using assms es that \<open>e = None\<close>
      by (auto simp: reroute_def resolved_base_def split: option.splits sum.splits if_splits)
  qed
qed

section \<open>Uploads\<close>

lemma multipart_loop_cases [consumes 2, case_names failed accepted refused stuck again]:
  assumes "multipart_loop E J c cmd ct cl ob resolve k base l st = ((res, err), st')" "k \<le> cl_wm_retries c"
  obtains r e where "do_multipart_command E J c base cmd ct cl ob st = ((r, Some e), st')"
      "res = zero_result J" "err = Some e"
  | "do_multipart_command E J c base cmd ct cl ob st = ((res, None), st')" "rs_ok res" "err = None"
  | e where "do_multipart_command E J c base cmd ct cl ob st = ((res, None), st')" "\<not> rs_ok res" "err = Some e"
  | st1 x e where "do_multipart_command E J c base cmd ct cl ob st = ((res, None), st1)" "\<not> rs_ok res"
      "k < cl_wm_retries c" "reroute E J c resolve st1 = (Inl x, st')" "err = Some e"
  | r st1 b st2 where "do_multipart_command E J c base cmd ct cl ob st = ((r, None), st1)" "\<not> rs_ok r"
      "k < cl_wm_retries c" "reroute E J c resolve st1 = (Inr b, st2)"
      "multipart_loop E J c cmd ct cl ob resolve (k + 1) b r st2 = ((res, err), st')"
  using assms(1) [unfolded multipart_loop.simps [of E J c cmd ct cl ob resolve k]] assms(2)
  by (auto simp: Let_def split: if_splits prod.splits option.splits sum.splits)

definition upload_event :: "'w env \<Rightarrow> ('j, 'w) client \<Rightarrow> string \<Rightarrow> string \<Rightarrow> int \<Rightarrow> 'w body_opener option
    \<Rightarrow> (string \<Rightarrow> bool) \<Rightarrow> event \<Rightarrow> bool" where
  "upload_event E c cmd ct cl ob bases ev \<longleftrightarrow> establish_event c ev
     \<or> (\<exists>rq b. ev = Sent rq \<and> bases b \<and> upload_request E (command_url b) cmd ct cl ob rq)"

lemma upload_once:
  assumes "do_multipart_command E J c base cmd ct cl ob st = ((res, err), st')" "bases base"
  shows "extends (upload_event E c cmd ct cl ob bases) st st'" "sent_count st' \<le> sent_count st + 1"
    "post_count st' \<le> post_count st + 1"
    "err = None \<Longrightarrow> \<exists>rq. last (st_trace st') = Sent rq \<and> upload_request E (command_url base) cmd ct cl ob rq
       \<and> delivered J c rq res"
  using multipart_frame(1,2) [OF assms(1)] assms(2)
  by (auto simp: extends_def cache_ok_def upload_event_def sent_count_def post_count_def)

lemma reroute_upload:
  "reroute E J c resolve st = (r, st') \<Longrightarrow> extends (upload_event E c cmd ct cl ob bases) st st'"
  unfolding upload_event_def by (drule reroute_frame(1), erule extends_mono) blast

lemma reroute_posts: "reroute E J c resolve st = (r, st') \<Longrightarrow> post_count st' = post_count st"
  using reroute_frame(1) establish_quiet by metis

lemma multipart_loop_inv:
  assumes "multipart_loop E J c cmd ct cl ob resolve k base l st = ((res, err), st')" "k \<le> cl_wm_retries c"
    and "bases base" "\<forall>b est. resolved_base resolve est b \<longrightarrow> bases b"
  shows "extends (upload_event E c cmd ct cl ob bases) st st'
    \<and> sent_count st' \<le> sent_count st + (cl_wm_retries c - k + 1) + (cl_wm_retries c - k) * attempts_max c
    \<and> post_count st' \<le> post_count st + (cl_wm_retries c - k + 1)
    \<and> (err = None \<longrightarrow> rs_ok res \<and> (\<exists>rq b. last (st_trace st') = Sent rq \<and> bases b
         \<and> upload_request E (command_url b) cmd ct cl ob rq \<and> delivered J c rq res))
    \<and> (err \<noteq> None \<longrightarrow> \<not> rs_ok res)"
  using assms
proof (induction "nat (cl_wm_retries c - k)" arbitrary: k base l st rule: less_induct)
  case less
  note b = less.prems(3)
  define M where "M = (cl_wm_retries c - k) * attempts_max c"
  have more: "0 \<le> M" using less.prems(2) by (simp add: M_def)
  show ?case
    using less.prems(1,2)
  proof (cases rule: multipart_loop_cases)
    case (failed r e)
    then show ?thesis unfolding M_def [symmetric] using upload_once [where bases = bases, OF failed(1) b] more less.prems(2) by (simp add: zero_result_def)
  next
    case accepted
    then show ?thesis unfolding M_def [symmetric] using upload_once [where bases = bases, OF accepted(1) b] more less.prems(2) b by auto
  next
    case (refused e)
    then show ?thesis unfolding M_def [symmetric] using upload_once [where bases = bases, OF refused(1) b] more less.prems(2) by simp
  next
    case (stuck st1 x e)
    have "1 * attempts_max c \<le> M"
      unfolding M_def using stuck(3) by (intro mult_right_mono) simp_all
    then show ?thesis unfolding M_def [symmetric]
      using upload_once [where bases = bases, OF stuck(1) b] reroute_frame(2) [OF stuck(4)] reroute_posts [OF stuck(4)] stuck(2,3,5)
        extends_trans [OF _ reroute_upload [OF stuck(4)]]
      by simp
  next
    case (again r st1 b' st2)
    from reroute_frame(3) [OF again(4) refl] less.prems(4) have "bases b'" by blast
    with less.hyps [OF _ again(5)] again(3) less.prems(4) have rec:
      "extends (upload_event E c cmd ct cl ob bases) st2 st'"
      "sent_count st' \<le> sent_count st2 + (cl_wm_retries c - (k + 1) + 1) + (cl_wm_retries c - (k + 1)) * attempts_max c"
      "post_count st' \<le> post_count st2 + (cl_wm_retries c - (k + 1) + 1)"
      "err = None \<longrightarrow> rs_ok res \<and> (\<exists>rq b. last (st_trace st') = Sent rq \<and> bases b
         \<and> upload_request E (command_url b) cmd ct cl ob rq \<and> delivered J c rq res)"
      "err \<noteq> None \<longrightarrow> \<not> rs_ok res" by simp_all
    have "extends (upload_event E c cmd ct cl ob bases) st st'"
      using upload_once(1) [where bases = bases, OF again(1) b] reroute_upload [OF again(4)] rec(1) by (blast intro: extends_trans)
    then show ?thesis
      using upload_once(2,3) [where bases = bases, OF again(1) b] reroute_frame(2) [OF again(4)] reroute_posts [OF again(4)] rec
      by (simp add: algebra_simps)
  qed
qed

section \<open>Downloads\<close>

lemma download_loop_cases [consumes 2, case_names failed served refused stuck again]:
  assumes "download_loop E J c cmd filename opts w resolve k base st = ((meta, err), st')" "k \<le> cl_wm_retries c"
  obtains r j e where "do_file_download_once E J c base cmd filename opts w st = ((meta, r, j, Some e), st')" "err = Some e"
  | r where "do_file_download_once E J c base cmd filename opts w st = ((meta, r, False, None), st')" "err = None"
  | r e where "do_file_download_once E J c base cmd filename opts w st = ((meta, r, True, None), st')" "err = Some e"
  | r st1 x e where "do_file_download_once E J c base cmd filename opts w st = ((meta, r, True, None), st1)"
      "k < cl_wm_retries c" "reroute E J c resolve st1 = (Inl x, st')" "err = Some e"
  | m r st1 b st2 where "do_file_download_once E J c base cmd filename opts w st = ((m, r, True, None), st1)"
      "k < cl_wm_retries c" "reroute E J c resolve st1 = (Inr b, st2)"
      "download_loop E J c cmd filename opts w resolve (k + 1) b st2 = ((meta, err), st')"
  using assms(1) [unfolded download_loop.simps [of E J c cmd filename opts w resolve k]] assms(2)
  by (auto simp: Let_def split: if_splits prod.splits option.splits sum.splits)

definition download_event :: "('j, 'w) client \<Rightarrow> string \<Rightarrow> ('j, 'w) download_file_options option
    \<Rightarrow> (string \<Rightarrow> bool) \<Rightarrow> event \<Rightarrow> bool" where
  "download_event c cmd opts bases ev \<longleftrightarrow> establish_event c ev \<or> is_output ev
     \<or> (\<exists>rq b. ev = Sent rq \<and> bases b \<and> download_request (command_url b) cmd opts rq)"

lemma announced_simps [simp]: "sents (announced opts rp) = []"
    "list_all (download_event c cmd opts' bases) (announced opts rp)"
  by (simp_all add: announced_def download_event_def)

text \<open>
  What the caller was shown: nothing, or one file response. The request it answers is followed
  at once by the announcement, made exactly when the caller asked for it, and then by what the
  writer took, a prefix of the body; all of it, when there is no error. Nothing was shown before.
\<close>

definition shown :: "('j, 'w) client \<Rightarrow> string \<Rightarrow> string \<Rightarrow> ('j, 'w) download_file_options option
    \<Rightarrow> file_download_metadata \<Rightarrow> 'j err option \<Rightarrow> event list \<Rightarrow> bool" where
  "shown c filename cmd opts meta err evs \<longleftrightarrow>
     (outputs evs = [] \<and> err \<noteq> None)
     \<or> (\<exists>pre url rq rp n. outputs pre = [] \<and> download_request url cmd opts rq \<and> responded c rq rp \<and> file_response rp
          \<and> meta = file_download_metadata_from_headers filename (rp_status rp) (rp_headers rp)
          \<and> (evs = pre @ Sent rq # announced opts rp \<and> err \<noteq> None
             \<or> evs = pre @ Sent rq # announced opts rp @ (if rp_body rp = [] then [] else [Wrote (take n (rp_body rp))])
                \<and> (err = None \<longrightarrow> length (rp_body rp) \<le> n \<and> rp_read_error rp = None)))"

lemma shown_nothing: "outputs evs = [] \<Longrightarrow> err \<noteq> None \<Longrightarrow> shown c filename cmd opts meta err evs"
  by (simp add: shown_def)

lemma shown_later:
  assumes "outputs evs = []" "shown c filename cmd opts meta err evs'"
  shows "shown c filename cmd opts meta err (evs @ evs')"
proof (cases "outputs evs' = [] \<and> err \<noteq> None")
  case True
  then show ?thesis using assms(1) by (simp add: shown_def)
next
  case False
  with assms(2) obtain pre url rq rp n where rq: "outputs pre = []" "download_request url cmd opts rq" "responded c rq rp"
      "file_response rp" "meta = file_download_metadata_from_headers filename (rp_status rp) (rp_headers rp)"
    and evs': "evs' = pre @ Sent rq # announced opts rp \<and> err \<noteq> None
       \<or> evs' = pre @ Sent rq # announced opts rp @ (if rp_body rp = [] then [] else [Wrote (take n (rp_body rp))])
          \<and> (err = None \<longrightarrow> length (rp_body rp) \<le> n \<and> rp_read_error rp = None)"
    unfolding shown_def by blast
  show ?thesis
    unfolding shown_def
    by (rule disjI2, rule exI [of _ "evs @ pre"], rule exI [of _ url], rule exI [of _ rq], rule exI [of _ rp],
        rule exI [of _ n]) (use assms(1) rq evs' in auto)
qed

lemma download_log_shown:
  assumes "download_log c url cmd filename opts meta is_json err evs"
  shows "is_json \<Longrightarrow> outputs evs = []" "\<not> is_json \<or> err \<noteq> None \<Longrightarrow> shown c filename cmd opts meta err evs"
proof -
  from assms show "is_json \<Longrightarrow> outputs evs = []"
    unfolding download_log_def by auto
  show "shown c filename cmd opts meta err evs" if nj: "\<not> is_json \<or> err \<noteq> None"
  proof (cases "outputs evs = [] \<and> err \<noteq> None")
    case False
    with assms nj obtain rq rp n where "download_request url cmd opts rq" "responded c rq rp" "file_response rp"
        "meta = file_download_metadata_from_headers filename (rp_status rp) (rp_headers rp)"
        "evs = Sent rq # announced opts rp \<and> err \<noteq> None
         \<or> evs = Sent rq # announced opts rp @ (if rp_body rp = [] then [] else [Wrote (take n (rp_body rp))])
            \<and> (err = None \<longrightarrow> length (rp_body rp) \<le> n \<and> rp_read_error rp = None)"
      unfolding download_log_def by auto
    then show ?thesis
      unfolding shown_def
      by (intro disjI2 exI [of _ "[]"] exI [of _ url] exI [of _ rq] exI [of _ rp] exI [of _ n]) simp
  qed (simp add: shown_def)
qed

lemma download_once:
  assumes "do_file_download_once E J c base cmd filename opts w st = ((meta, res, is_json, err), st')" "bases base"
  shows "extends (download_event c cmd opts bases) st st'" "sent_count st' \<le> sent_count st + 1"
    "\<exists>evs. st_trace st' = st_trace st @ evs \<and> (is_json \<longrightarrow> outputs evs = [])
       \<and> (\<not> is_json \<or> err \<noteq> None \<longrightarrow> shown c filename cmd opts meta err evs)"
proof -
  from download_once_frame(2) [OF assms(1)] obtain evs where evs: "st_trace st' = st_trace st @ evs"
    "download_log c (command_url base) cmd filename opts meta is_json err evs" by blast
  from evs(2) assms(2) have "list_all (download_event c cmd opts bases) evs" "length (sents evs) \<le> 1"
    unfolding download_log_def by (auto simp: download_event_def)
  then show "extends (download_event c cmd opts bases) st st'" "sent_count st' \<le> sent_count st + 1"
    using evs(1) download_once_frame(1) [OF assms(1)]
    by (auto simp: extends_def cache_ok_def sent_count_def)
  show "\<exists>evs. st_trace st' = st_trace st @ evs \<and> (is_json \<longrightarrow> outputs evs = [])
       \<and> (\<not> is_json \<or> err \<noteq> None \<longrightarrow> shown c filename cmd opts meta err evs)"
    using evs(1) download_log_shown [OF evs(2)] by blast
qed

lemma reroute_download:
  "reroute E J c resolve st = (r, st') \<Longrightarrow> extends (download_event c cmd opts bases) st st'"
  unfolding download_event_def by (drule reroute_frame(1), erule extends_mono) blast

lemma download_loop_inv:
  assumes "download_loop E J c cmd filename opts w resolve k base st = ((meta, err), st')" "k \<le> cl_wm_retries c"
    and "bases base" "\<forall>b est. resolved_base resolve est b \<longrightarrow> bases b"
  shows "extends (download_event c cmd opts bases) st st'
    \<and> sent_count st' \<le> sent_count st + (cl_wm_retries c - k + 1) + (cl_wm_retries c - k) * attempts_max c
    \<and> (\<exists>evs. st_trace st' = st_trace st @ evs \<and> shown c filename cmd opts meta err evs)"
  using assms
proof (induction "nat (cl_wm_retries c - k)" arbitrary: k base st rule: less_induct)
  case less
  note b = less.prems(3)
  define M where "M = (cl_wm_retries c - k) * attempts_max c"
  have more: "0 \<le> M" using less.prems(2) by (simp add: M_def)
  show ?case
    using less.prems(1,2)
  proof (cases rule: download_loop_cases)
    case (failed r j e)
    then show ?thesis unfolding M_def [symmetric]
      using download_once [where bases = bases, OF failed(1) b] more less.prems(2) by auto
  next
    case (served r)
    then show ?thesis unfolding M_def [symmetric]
      using download_once [where bases = bases, OF served(1) b] more less.prems(2) by auto
  next
    case (refused r e)
    then show ?thesis unfolding M_def [symmetric]
      using download_once [where bases = bases, OF refused(1) b] more less.prems(2) refused(2) by (auto intro: shown_nothing)
  next
    case (stuck r st1 x e)
    have M: "1 * attempts_max c \<le> M"
      unfolding M_def using stuck(2) by (intro mult_right_mono) simp_all
    from reroute_frame(1) [OF stuck(3)] obtain evs where "st_trace st' = st_trace st1 @ evs" "outputs evs = []"
      by (rule establish_quiet)
    with download_once(3) [where bases = bases, OF stuck(1) b]
    have "\<exists>evs. st_trace st' = st_trace st @ evs \<and> outputs evs = []" by fastforce
    moreover have "extends (download_event c cmd opts bases) st st'"
      using download_once(1) [where bases = bases, OF stuck(1) b] reroute_download [OF stuck(3)] by (rule extends_trans)
    ultimately show ?thesis unfolding M_def [symmetric]
      using download_once(2) [where bases = bases, OF stuck(1) b] reroute_frame(2) [OF stuck(3)] stuck(2,4) M
      by (auto intro: shown_nothing)
  next
    case (again m r st1 b' st2)
    from reroute_frame(3) [OF again(3) refl] less.prems(4) have "bases b'" by blast
    with less.hyps [OF _ again(4)] again(2) less.prems(4) have rec:
      "extends (download_event c cmd opts bases) st2 st'"
      "sent_count st' \<le> sent_count st2 + (cl_wm_retries c - (k + 1) + 1) + (cl_wm_retries c - (k + 1)) * attempts_max c"
      "\<exists>evs. st_trace st' = st_trace st2 @ evs \<and> shown c filename cmd opts meta err evs" by simp_all
    have "extends (download_event c cmd opts bases) st st'"
      using download_once(1) [where bases = bases, OF again(1) b] reroute_download [OF again(3)] rec(1)
      by (blast intro: extends_trans)
    moreover from reroute_frame(1) [OF again(3)] obtain evs where "st_trace st2 = st_trace st1 @ evs" "outputs evs = []"
      by (rule establish_quiet)
    with download_once(3) [where bases = bases, OF again(1) b]
    obtain evs0 where "st_trace st2 = st_trace st @ evs0" "outputs evs0 = []" by fastforce
    with rec(3) have "\<exists>evs. st_trace st' = st_trace st @ evs \<and> shown c filename cmd opts meta err evs"
      using shown_later by (metis append_assoc)
    ultimately show ?thesis
      using download_once(2) [where bases = bases, OF again(1) b] reroute_frame(2) [OF again(3)] rec(2)
      by (simp add: algebra_simps)
  qed
qed

section \<open>The operations keep the contract of the client\<close>

lemma multipart_authorised [op_intro]:
  "client_op event_authorised (execute_routed_multipart E J c initial cmd ct cl ob resolve)"
proof (unfold_locales, goal_cases)
  case (1 st)
  obtain r e st' where x: "execute_routed_multipart E J c initial cmd ct cl ob resolve st = ((r, e), st')" by (metis surj_pair)
  show ?case
  proof (cases "0 \<le> cl_wm_retries c")
    case True
    have "extends (upload_event E c cmd ct cl ob (\<lambda>_. True)) st st'"
      using multipart_loop_inv [of E J c cmd ct cl ob resolve 0 _ _ st r e st' "\<lambda>_. True"] x True
      by (simp add: execute_routed_multipart_def)
    then have "extends event_authorised st st'"
      by (rule extends_mono) (auto simp: upload_event_def upload_request_def dest: json_event_authorised)
    then show ?thesis by (simp add: x)
  qed (simp add: execute_routed_multipart_def multipart_loop.simps)
qed

lemma output_authorised: "is_output ev \<Longrightarrow> event_authorised ev"
  by (cases ev) simp_all

lemma download_authorised [op_intro]:
  "client_op event_authorised (execute_routed_file_download E J c initial cmd filename opts w resolve)"
proof (unfold_locales, goal_cases)
  case (1 st)
  obtain m e st' where x: "execute_routed_file_download E J c initial cmd filename opts w resolve st = ((m, e), st')"
    by (metis surj_pair)
  show ?case
  proof (cases "0 \<le> cl_wm_retries c")
    case True
    have "extends (download_event c cmd opts (\<lambda>_. True)) st st'"
      using download_loop_inv [of E J c cmd filename opts w resolve 0 _ st m e st' "\<lambda>_. True"] x True
      by (simp add: execute_routed_file_download_def)
    then have "extends event_authorised st st'"
      by (rule extends_mono) (auto simp: download_event_def download_request_def dest: json_event_authorised output_authorised)
    then show ?thesis by (simp add: x)
  qed (simp add: execute_routed_file_download_def download_loop.simps)
qed

interpretation put_file_op: client_op event_authorised "put_file E J c collection doc_id filename body opts"
  for E J c collection doc_id filename body opts
  unfolding put_file_def by (intro op_intro)

interpretation delete_file_op: client_op event_authorised "delete_file E J c collection doc_id filename version"
  for E J c collection doc_id filename version
  unfolding delete_file_def by (intro op_intro)

interpretation list_files_op: client_op event_authorised "list_files E J c collection doc_id"
  for E J c collection doc_id
  unfolding list_files_def by (intro op_intro)

lemma download_file_authorised [op_intro]:
  "client_op event_authorised (download_file E J c collection doc_id filename w opts)"
  unfolding download_file_def by (intro op_intro)

interpretation download_range_op: client_op event_authorised
  "download_file_range E J c collection doc_id filename byte_range w" for E J c collection doc_id filename byte_range w
  unfolding download_file_range_def by (intro op_intro)

interpretation download_options_op: client_op event_authorised
  "download_file_with_options E J c collection doc_id filename w opts" for E J c collection doc_id filename w opts
  unfolding download_file_with_options_def by (intro op_intro)

interpretation download_whole_op: client_op event_authorised
  "download_whole_file E J c collection doc_id filename w" for E J c collection doc_id filename w
  unfolding download_whole_file_def by (intro op_intro)

interpretation delete_file_budget: budget_op "attempts_max c" "read_cost c"
  "delete_file E J c collection doc_id filename version" for E J c collection doc_id filename version
  unfolding delete_file_def
  by (intro budget_rules budget_return budget_bind [OF ensure_budget.budget_op_axioms]
      budget_bind [OF operation_id_budget.budget_op_axioms] budget_bind [OF document_budget.budget_op_axioms])
    (simp_all add: read_cost_def)

interpretation list_files_budget: budget_op "attempts_max c" "read_cost c"
  "list_files E J c collection doc_id" for E J c collection doc_id
  unfolding list_files_def
  by (intro budget_rules budget_return budget_bind [OF ensure_budget.budget_op_axioms]
      budget_bind [OF document_budget.budget_op_axioms])
    (simp_all add: read_cost_def)

end
