(* ===== verification/FileProps.thy ===== *)
theory FileProps
  imports FileLoops
begin

text \<open>
  The properties of binary attachments: what a successful upload rests on and how often it may
  be posted, what its body determines, and what a download shows its caller.
\<close>

section \<open>The command of an upload\<close>

lemma put_detail_strings:
  "put_detail filename opts = (word, ct, cl, detail) \<Longrightarrow> string_map detail \<and> map_of detail ''filename'' = Some (GStr filename)"
  by (auto simp: put_detail_def string_map_def split: option.splits)

lemma operation_id_strings:
  assumes "ensure_operation_id E detail st = (detail', st')" "string_map detail"
  shows "string_map detail' \<and> (\<forall>k v. map_of detail k = Some v \<longrightarrow> map_of detail' k = Some v)"
  using assms
  by (auto simp: ensure_operation_id_def string_map_def map_add_def split: option.splits prod.splits)

text \<open>An upload of a file: the command, after the operation id was added to its detail.\<close>

definition upload_command :: "string \<Rightarrow> string \<Rightarrow> string \<Rightarrow> 'w put_file_options option \<Rightarrow> string \<Rightarrow> bool" where
  "upload_command collection doc_id filename opts cmd \<longleftrightarrow>
     (\<exists>word ct cl detail detail'. put_detail filename opts = (word, ct, cl, detail) \<and> string_map detail'
        \<and> (\<forall>k v. map_of detail k = Some v \<longrightarrow> map_of detail' k = Some v)
        \<and> build_command word collection doc_id (GMap detail') = (Inr cmd :: unit err + string))"

lemma build_command_any:
  "build_command w t p d = (Inr b :: 'j err + string) \<Longrightarrow> build_command w t p d = (Inr b :: 'k err + string)"
  by (auto simp: build_command_Inr marshal_command_text)

lemma put_file_run:
  fixes J :: "'j ojson"
  assumes "put_file E J c collection doc_id filename body opts st = (Inr fw, st')"
  obtains st2 route cmd word ct cl d f res where "upload_command collection doc_id filename opts cmd"
    "put_detail filename opts = (word, ct, cl, d)"
    "execute_routed_multipart E J c route cmd ct cl (Some (open_upload_body body opts)) f st2 = ((res, None), st')"
    "fw = file_write_result_from J res"
proof -
  from assms obtain est st1 where en: "ensure_established E J c st = (Inr est, st1)"
    by (auto simp: put_file_def split: if_splits option.splits prod.splits sum.splits)
  obtain word ct cl d where d: "put_detail filename opts = (word, ct, cl, d)" by (metis prod_cases4)
  obtain d' st2 where o: "ensure_operation_id E d st1 = (d', st2)" by (metis surj_pair)
  from assms en d o obtain route cmd res where run: "build_command word collection doc_id (GMap d') = (Inr cmd :: 'j err + string)"
    "execute_routed_multipart E J c route cmd ct cl (Some (open_upload_body body opts))
       (Some (\<lambda>est'. route_document c est' doc_id RouteWrite)) st2 = ((res, None), st')"
    "fw = file_write_result_from J res"
    by (auto simp: put_file_def split: if_splits option.splits prod.splits sum.splits)
  have "upload_command collection doc_id filename opts cmd"
    unfolding upload_command_def
    using d operation_id_strings [OF o] put_detail_strings [OF d] build_command_any [OF run(1)] by blast
  with d run show thesis using that by blast
qed

section \<open>Scripted uploads and downloads\<close>

definition script_opener :: "script body_opener" where
  "script_opener w = (Inr (Some \<lparr>rd_bytes = ''data'', rd_error = None, rd_close = (\<lambda>w. w)\<rparr>, None), w)"

definition script_body :: "script upload_body" where
  "script_body = ReadSeeker (\<lambda>w. (Inr \<lparr>rd_bytes = ''data'', rd_error = None, rd_close = (\<lambda>w. w)\<rparr>, w))"

definition script_sink :: "script sink" where
  "script_sink s w = ((length s, None), w)"

lemma script_multipart:
  assumes "length t \<le> 10" "decode_result SJ t = Inr res"
  shows "\<exists>rq. do_multipart_command script_env SJ (script_client wm tr) base cmd ct cl (Some (open_upload_body script_body None))
      \<lparr>st_cache = cache, st_trace = log, st_world = answer t # w\<rparr>
    = ((res, None), \<lparr>st_cache = cache, st_trace = log @ [Sent rq], st_world = w\<rparr>)"
proof -
  have http: "cl_http (script_client wm tr) = script_http" by (simp add: script_client_def)
  have env: "en_boundary script_env = (\<lambda>w. (''b0'', w))" "en_reads_content script_env = (\<lambda>rq w. True)"
    "en_new_request script_env = (\<lambda>m u. None)" by (simp_all add: script_env_def)
  show ?thesis
    using assms
    by (simp add: do_multipart_command_def new_boundary_def env script_bearer send_upload_def stream_upload_def
        write_upload_def open_upload_body_def script_body_def http_do_def http log_event_def answer_def read_answer Let_def)
qed

lemma script_put_file:
  "\<exists>st'. put_file script_env SJ (script_client 1 0) ''Todos'' ''abcdef.1'' ''a.png'' script_body None
     (script_state (Some sample_est) [answer ''K'']) = (Inr (file_write_result_from SJ ok_result), st')"
proof -
  obtain cmd where cmd: "build_command ''fileCreate'' ''Todos'' ''abcdef.1''
      (GMap [(''filename'', GStr ''a.png''), (''operationId'', GStr ''01ULID'')]) = (Inr cmd :: js err + string)"
    by (simp add: build_command_def json_object_def marshal_command_text)
  have short: "length ''K'' \<le> 10" by simp
  obtain rq where up: "do_multipart_command script_env SJ (script_client 1 0) ''http://b'' cmd ''application/octet-stream'' 0
      (Some (open_upload_body script_body None))
      \<lparr>st_cache = Some sample_est, st_trace = [Minted ''01ULID''], st_world = [answer ''K'']\<rparr>
    = ((ok_result, None), \<lparr>st_cache = Some sample_est, st_trace = [Minted ''01ULID''] @ [Sent rq], st_world = []\<rparr>)"
    using script_multipart [OF short script_decode(1), of 1 0 "''http://b''" cmd] by blast
  have req: "require_upload_source script_body (None :: script put_file_options option) = (None :: js err option)"
    by (simp add: require_upload_source_def script_body_def)
  have ulid: "ensure_operation_id script_env [(''filename'', GStr ''a.png'')]
      \<lparr>st_cache = Some sample_est, st_trace = [], st_world = w\<rparr>
    = ([(''filename'', GStr ''a.png''), (''operationId'', GStr ''01ULID'')],
       (\<lparr>st_cache = Some sample_est, st_trace = [Minted ''01ULID''], st_world = w\<rparr> :: (js, script) state))" for w
    by (simp add: ensure_operation_id_def new_operation_id_def new_ulid_def script_env_def log_event_def)
  have loop: "multipart_loop script_env SJ (script_client 1 0) cmd ''application/octet-stream'' 0
      (Some (open_upload_body script_body None)) f 0 ''http://b'' l
      \<lparr>st_cache = Some sample_est, st_trace = [Minted ''01ULID''], st_world = [answer ''K'']\<rparr>
    = ((ok_result, None), \<lparr>st_cache = Some sample_est, st_trace = [Minted ''01ULID''] @ [Sent rq], st_world = []\<rparr>)" for f l
    by (simp add: multipart_loop.simps [of _ _ _ _ _ _ _ _ 0] up script_results)
  show ?thesis
    by (simp add: put_file_def req script_state_def script_cached
        script_route put_detail_def ulid cmd execute_routed_multipart_def initial_base_def loop)
qed

section \<open>Properties\<close>



text \<open>The content is posted at most once per hop: an upload with m bounces makes at most m + 1
  posts, whatever the number of transport retries, which only the establishment requests in
  between use; so a lost upload is reported at once.\<close>

lemma upload_budget:
  assumes "0 \<le> cl_wm_retries c"
    and "execute_routed_multipart E J c initial cmd ct cl ob resolve st = (out, st')"
  shows "post_count st' - post_count st \<le> cl_wm_retries c + 1
    \<and> sent_count st' - sent_count st \<le> (cl_wm_retries c + 1) + cl_wm_retries c * attempts_max c"
proof -
  obtain r e where "out = (r, e)" by (cases out)
  then have "multipart_loop E J c cmd ct cl ob resolve 0 (initial_base c initial) (zero_result J) st = ((r, e), st')"
    using assms(2) by (simp add: execute_routed_multipart_def)
  from multipart_loop_inv [OF this assms(1), of "\<lambda>_. True"] show ?thesis by simp
qed

text \<open>C17: The body of a complete upload is read back by any reader of the multipart format: the first
  part is the command, byte for byte, whatever quotes and line breaks its texts have, and the
  second is the content under its header, when the boundary does not occur in the content.\<close>

theorem upload_read_back:
  assumes "build_command word collection doc_id (GMap detail) = (Inr cmd :: 'j err + string)" "string_map detail"
    and "write_upload b cmd ct cl (Some opener) w = ((body, None), w')" "opener w = (Inr (Some rd, closer), w1)"
    and "CHR 13 \<notin> set b" "CHR 13 \<notin> set ct" "\<not> sublist (delimiter b) (rd_bytes rd)"
  shows "read_upload b body = Some (([''Content-Disposition: '' @ disposition ''command''], cmd),
      (map header_line (content_header ct cl), rd_bytes rd))"
proof -
  have body: "body = upload_head b cmd ct cl @ rd_bytes rd @ upload_tail b"
    using assms(3,4) by (auto simp: write_upload_def Let_def split: option.splits)
  have "CHR 13 \<notin> set cmd" by (rule string_command_cr [OF assms(1,2)])
  then have clean: "\<not> sublist (delimiter b) cmd" unfolding delimiter_def crlf_def by (simp add: sublist_first)
  have digits: "CHR 13 \<notin> set (show_int cl)"
    using show_nat_digits [of "nat cl"] show_nat_digits [of "nat (- cl)"]
    by (auto simp: show_int_def list_all_iff is_digit_def)
  have "read_upload b body = Some ((map header_line [(''Content-Disposition'', disposition ''command'')], cmd),
      (map header_line (content_header ct cl), rd_bytes rd))"
    unfolding body upload_head_def append_assoc header_block_lines
    by (rule read_two_parts)
      (use assms(5-7) clean digits in \<open>simp_all add: header_line_def disposition_def content_header_def clean_line_def\<close>)
  then show ?thesis by (simp add: header_line_def)
qed

theorem upload_read_back_witness:
  "\<exists>cmd body. write_upload ''b0'' cmd ''image/png'' 4 (Some script_opener) ([] :: script) = ((body, None), [])
    \<and> read_upload ''b0'' body = Some (([''Content-Disposition: '' @ disposition ''command''], cmd),
      (map header_line (content_header ''image/png'' 4), ''data''))"
proof -
  obtain cmd where cmd: "build_command ''fileCreate'' ''Todos'' ''a'' (GMap [(''filename'', GStr ''a.png'')])
      = (Inr cmd :: unit err + string)"
    by (simp add: build_command_def json_object_def marshal_command_text)
  let ?body = "upload_head ''b0'' cmd ''image/png'' 4 @ ''data'' @ upload_tail ''b0''"
  have w: "write_upload ''b0'' cmd ''image/png'' 4 (Some script_opener) ([] :: script) = ((?body, None), [])"
    by (simp add: write_upload_def script_opener_def Let_def)
  have "\<not> sublist (delimiter ''b0'') ''data''"
    by (simp add: delimiter_def crlf_def sublist_Cons_right)
  from upload_read_back [OF cmd _ w _ _ _, unfolded script_opener_def, simplified] this w show ?thesis
    by (auto simp: string_map_def)
qed

text \<open>The content type is written into the header of the content part as it is: one that
  contains a line break adds header lines of the caller's text to that part.\<close>

lemma content_type_adds_lines:
  assumes "CHR 13 \<notin> set b" "\<not> sublist (delimiter b) cmd" "\<not> sublist (delimiter b) content"
    and "CHR 13 \<notin> set ct" "CHR 13 \<notin> set line" "ct \<noteq> []" "line \<noteq> []"
  shows "read_upload b (upload_head b cmd (ct @ crlf @ line) 0 @ content @ upload_tail b)
    = Some (([''Content-Disposition: '' @ disposition ''command''], cmd),
        ([''Content-Disposition: '' @ disposition ''content'', ''Content-Type: '' @ ct, line], content))"
proof -
  have block: "header_block (content_header (ct @ crlf @ line) 0)
      = line_block [''Content-Disposition: '' @ disposition ''content'', ''Content-Type: '' @ ct, line]"
    using assms(6) by (simp add: header_block_def line_block_def content_header_def)
  have first: "header_block [(''Content-Disposition'', disposition ''command'')]
      = line_block [''Content-Disposition: '' @ disposition ''command'']"
    by (simp add: header_block_lines header_line_def)
  show ?thesis
    unfolding upload_head_def append_assoc block first
    by (rule read_two_parts) (use assms in \<open>simp_all add: disposition_def clean_line_def\<close>)
qed

text \<open>C15: A download shows its caller one file and nothing else: either no byte is written, nothing is
  announced and the error is not nil, or exactly one response is shown, partial content or success
  with a file header, the answer to the fileRead command of this file. It is announced exactly when
  the caller asked for it, right after the answer, and only then does the writer take a prefix of
  its body. A nil error means the whole body was taken. No byte of a refusal or of a wrongMachine
  answer is written, and no response is announced twice.\<close>

theorem download_exact:
  fixes J :: "'j ojson"
  assumes "0 \<le> cl_wm_retries c"
    and "download_file E J c collection doc_id filename w opts st = ((meta, err), st')"
  shows "\<exists>evs. st_trace st' = st_trace st @ evs
    \<and> (outputs evs = [] \<and> err \<noteq> None
       \<or> (\<exists>cmd. build_command ''fileRead'' collection doc_id (GMap [(''filename'', GStr filename)]) = (Inr cmd :: 'j err + string)
            \<and> shown c filename cmd opts meta err evs))"
proof (cases "\<exists>evs. st_trace st' = st_trace st @ evs \<and> outputs evs = [] \<and> err \<noteq> None")
  case False
  obtain ee st1 where en: "ensure_established E J c st = (ee, st1)" by (metis surj_pair)
  obtain evs1 where evs1: "st_trace st1 = st_trace st @ evs1" "outputs evs1 = []"
    using establish_quiet [OF ensure_established_frame(1) [OF en]] by metis
  from assms(2) False en evs1 obtain route cmd out f where
    cmd: "build_command ''fileRead'' collection doc_id (GMap [(''filename'', GStr filename)]) = (Inr cmd :: 'j err + string)"
    and "execute_routed_file_download E J c route cmd filename opts out f st1 = ((meta, err), st')"
    by (auto simp: download_file_def split: if_splits option.splits sum.splits)
  then have "\<exists>evs. st_trace st' = st_trace st1 @ evs \<and> shown c filename cmd opts meta err evs"
    using download_loop_inv [of E J c cmd filename opts out f 0 _ st1 meta err st' "\<lambda>_. True"] assms(1)
    by (simp add: execute_routed_file_download_def)
  then obtain evs where "st_trace st' = st_trace st1 @ evs" "shown c filename cmd opts meta err evs" by blast
  with evs1 cmd show ?thesis by (intro exI [of _ "evs1 @ evs"]) (auto intro: shown_later)
qed blast

lemma script_download:
  "\<exists>rq meta. download_file script_env SJ (script_client 1 0) ''Todos'' ''abcdef.1'' ''a.png'' (Some script_sink) None
     (script_state (Some sample_est) [(Inr \<lparr>rp_status = 206, rp_headers = [], rp_body = ''abc'', rp_read_error = None\<rparr>, 100)])
   = ((meta, None), \<lparr>st_cache = Some sample_est, st_trace = [Sent rq, Wrote ''abc''], st_world = []\<rparr>)"
proof -
  let ?rp = "\<lparr>rp_status = 206, rp_headers = [], rp_body = ''abc'', rp_read_error = None\<rparr>"
  obtain cmd where cmd: "build_command ''fileRead'' ''Todos'' ''abcdef.1'' (GMap [(''filename'', GStr ''a.png'')])
      = (Inr cmd :: js err + string)"
    by (simp add: build_command_def json_object_def marshal_command_text)
  have http: "cl_http (script_client 1 0) = script_http" by (simp add: script_client_def)
  have env: "en_new_request script_env = (\<lambda>m u. None)" by (simp add: script_env_def)
  have isfile: "file_response ?rp" by (simp add: file_response_def)
  let ?meta = "file_download_metadata_from_headers ''a.png'' 206 []"
  have once: "\<exists>rq. do_file_download_once script_env SJ (script_client 1 0) base cmd ''a.png'' None script_sink
      \<lparr>st_cache = Some sample_est, st_trace = [], st_world = [(Inr ?rp, 100)]\<rparr>
    = ((?meta, zero_result SJ, False, None),
       \<lparr>st_cache = Some sample_est, st_trace = [Sent rq, Wrote ''abc''], st_world = []\<rparr>)" for base
    by (simp add: do_file_download_once_def env script_bearer http_do_def http log_event_def isfile announce_def
        copy_body_def script_sink_def Let_def)
  then obtain rq where "do_file_download_once script_env SJ (script_client 1 0) ''http://b'' cmd ''a.png'' None script_sink
      \<lparr>st_cache = Some sample_est, st_trace = [], st_world = [(Inr ?rp, 100)]\<rparr>
    = ((?meta, zero_result SJ, False, None),
       \<lparr>st_cache = Some sample_est, st_trace = [Sent rq, Wrote ''abc''], st_world = []\<rparr>)" by blast
  then have "download_loop script_env SJ (script_client 1 0) cmd ''a.png'' None script_sink f 0 ''http://b''
      \<lparr>st_cache = Some sample_est, st_trace = [], st_world = [(Inr ?rp, 100)]\<rparr>
    = ((?meta, None), \<lparr>st_cache = Some sample_est, st_trace = [Sent rq, Wrote ''abc''], st_world = []\<rparr>)" for f
    by (simp add: download_loop.simps [of _ _ _ _ _ _ _ _ 0])
  then show ?thesis
    by (simp add: download_file_def script_state_def script_cached cmd script_route
        execute_routed_file_download_def initial_base_def)
qed

theorem download_exact_witness:
  "\<exists>rq rp. responded (script_client 1 0) rq rp \<and> file_response rp \<and> rp_body rp = ''abc''"
proof -
  obtain rq meta where run: "download_file script_env SJ (script_client 1 0) ''Todos'' ''abcdef.1'' ''a.png'' (Some script_sink) None
     (script_state (Some sample_est) [(Inr \<lparr>rp_status = 206, rp_headers = [], rp_body = ''abc'', rp_read_error = None\<rparr>, 100)])
   = ((meta, None), \<lparr>st_cache = Some sample_est, st_trace = [Sent rq, Wrote ''abc''], st_world = []\<rparr>)"
    using script_download by blast
  from download_exact [OF _ run] obtain cmd where "shown (script_client 1 0) ''a.png'' cmd None meta None [Sent rq, Wrote ''abc'']"
    by (auto simp: script_state_def)
  then show ?thesis by (auto simp: shown_def announced_def Cons_eq_append_conv split: if_splits) metis
qed

end
