(* ===== verification/Typed.thy ===== *)
theory Typed
  imports Crud Refs
begin

text \<open>
  Typed collections (collection_client.go, the descriptor of collection.go and the string formats
  of schema_formats.go): binding a collection to a client, typed documents, items and patches.
  The struct codecs, schemas and patches of ojson are the record \<open>typed_json\<close>, a parameter.
  A value of ojson is immutable here, so that its \<open>Clone\<close> is the value itself; a binding is
  the number drawn from the process-wide counter.
\<close>

section \<open>Collections\<close>

text \<open>A panic is its message.\<close>

definition must_collection :: "string \<Rightarrow> int \<Rightarrow> string + collection_ref" where
  "must_collection nam schema_version =
     (let nam' = trim_space nam in
      if nam' = [] then Inl ''datorium: collection name is required''
      else if schema_version < 0 then Inl ''datorium: schema version must be non-negative''
      else Inr \<lparr>cr_name = nam', cr_version = schema_version\<rparr>)"

definition schema_marker :: "collection_ref \<Rightarrow> string" where
  "schema_marker col = cr_name col @ CHR '':'' # show_int (cr_version col)"

text \<open>The format registry: names with their validators.\<close>

definition datorium_string_formats :: "(string \<times> (string \<Rightarrow> 'j err option)) list" where
  "datorium_string_formats =
     [(''DatoriumDirectRef'', validate_direct_ref), (''DatoriumCachedRef'', validate_cached_ref)]"

text \<open>
  The typed operations of ojson: compiling a schema text with formats, the two struct
  conversions at the document type, diffing and validating under a schema, the length and the
  JSON value of a patch, and the zero document of the type.
\<close>

record ('j, 's, 'p, 'd) typed_json =
  tj_compile :: "(string \<times> (string \<Rightarrow> 'j err option)) list \<Rightarrow> string \<Rightarrow> string + 's"
  tj_from_struct :: "'d \<Rightarrow> string + 'j"
  tj_to_struct :: "'j \<Rightarrow> string + 'd"
  tj_diff :: "'j \<Rightarrow> 'j \<Rightarrow> 's \<Rightarrow> string + 'p"
  tj_validate :: "'j \<Rightarrow> 'p \<Rightarrow> 's \<Rightarrow> string option"
  tj_patch_len :: "'p \<Rightarrow> nat"
  tj_patch_json :: "'p \<Rightarrow> 'j"
  tj_zero_doc :: 'd

section \<open>Clients, items and patches\<close>

type_synonym binding = "64 word"

record ('j, 'w, 's) collection_client =
  cc_client :: "('j, 'w) client option"
  cc_col :: collection_ref
  cc_schema :: 's
  cc_binding :: "binding option"

record doc_meta =
  dm_id :: string
  dm_schema :: string
  dm_version :: string

record ('j, 'd) collection_item =
  ci_doc :: 'd
  ci_original_doc :: 'd
  ci_meta :: doc_meta
  ci_extra_fields :: 'j
  ci_cache_summaries :: 'j
  ci_result :: "'j result"
  ci_original :: 'j
  ci_binding :: "binding option"

record 'p collection_patch =
  cp_patch :: 'p
  cp_id :: string
  cp_version :: string
  cp_marker :: string
  cp_binding :: "binding option"

section \<open>Binding\<close>

text \<open>The state of the client with the counter of bindings.\<close>

type_synonym ('j, 'w) bind_state = "('j, 'w) state \<times> binding"

definition bind_schema :: "'j ojson \<Rightarrow> ('j, 's, 'p, 'd) typed_json \<Rightarrow> collection_ref \<Rightarrow> 'j establishment \<Rightarrow> 'j err + 's" where
  "bind_schema J T col est =
     (case map_of (es_schemas est) (cr_name col) of
        None \<Rightarrow> Inl (EMsg ''datorium: schema for collection %q not in establishment'' [cr_name col])
      | Some entry \<Rightarrow>
          if oj_is_missing J (sc_doc entry) \<or> \<not> oj_is_object J (sc_doc entry) then
            Inl (EMsg ''datorium: schema document for %q is missing'' [cr_name col])
          else (case tj_compile T datorium_string_formats (oj_json J (sc_doc entry)) of
                  Inl e \<Rightarrow> Inl (EWrap ''datorium: compile schema for %q: %w'' [cr_name col] (EExt e))
                | Inr s \<Rightarrow> Inr s))"

definition bind_established :: "'w env \<Rightarrow> 'j ojson \<Rightarrow> ('j, 'w) client \<Rightarrow> collection_ref \<Rightarrow> ('j, 'w) state
    \<Rightarrow> ('j err + 'j establishment) \<times> ('j, 'w) state" where
  "bind_established E J c col st =
     (case st_cache st of
        None \<Rightarrow>
          (case establish E J c [Some col] st of
             (Some e, st') \<Rightarrow> (Inl e, st')
           | (None, st') \<Rightarrow>
               (case st_cache st' of
                  None \<Rightarrow> (Inl (EMsg ''datorium: establishment cache empty after fetch'' []), st')
                | Some est \<Rightarrow> (Inr est, st')))
      | Some est \<Rightarrow>
          (case validate_catalog (Some est) [Some col] of
             Some e \<Rightarrow> (Inl e, st)
           | None \<Rightarrow> (Inr est, st)))"

definition bind :: "'w env \<Rightarrow> 'j ojson \<Rightarrow> ('j, 's, 'p, 'd) typed_json \<Rightarrow> collection_ref
    \<Rightarrow> ('j, 'w) client option \<Rightarrow> ('j, 'w) bind_state
    \<Rightarrow> ('j err + ('j, 'w, 's) collection_client) \<times> ('j, 'w) bind_state" where
  "bind E J T col cl s =
     (case s of (st, ctr) \<Rightarrow>
        (case cl of
           None \<Rightarrow> (Inl (EMsg ''datorium: nil client'' []), s)
         | Some c \<Rightarrow>
             if cr_name col = [] then (Inl (EMsg ''datorium: collection is required'' []), s)
             else
               (case bind_established E J c col st of
                  (Inl e, st') \<Rightarrow> (Inl e, st', ctr)
                | (Inr est, st') \<Rightarrow>
                    (case bind_schema J T col est of
                       Inl e \<Rightarrow> (Inl e, st', ctr)
                     | Inr sch \<Rightarrow>
                         (Inr \<lparr>cc_client = Some c, cc_col = col, cc_schema = sch, cc_binding = Some (ctr + 1)\<rparr>,
                          st', ctr + 1)))))"

section \<open>Guards\<close>

definition require_bound :: "('j, 'w, 's) collection_client \<Rightarrow> 'j err + ('j, 'w) client" where
  "require_bound cc =
     (case cc_client cc of
        None \<Rightarrow> Inl (EMsg ''datorium: collection client is not bound'' [])
      | Some c \<Rightarrow>
          if cc_binding cc = None \<or> cr_name (cc_col cc) = [] then
            Inl (EMsg ''datorium: collection client is not bound'' [])
          else Inr c)"

text \<open>\<open>a == nil || b == nil || a.id != b.id\<close>\<close>

definition different_binding :: "binding option \<Rightarrow> binding option \<Rightarrow> bool" where
  "different_binding a b = (case (a, b) of (Some x, Some y) \<Rightarrow> x \<noteq> y | _ \<Rightarrow> True)"

definition require_item :: "'j ojson \<Rightarrow> ('j, 'w, 's) collection_client \<Rightarrow> ('j, 'd) collection_item \<Rightarrow> 'j err option" where
  "require_item J cc item =
     (if different_binding (ci_binding item) (cc_binding cc) then
        Some (EMsg ''datorium: item belongs to a different collection binding'' [])
      else if oj_is_missing J (ci_original item) \<or> \<not> oj_is_object J (ci_original item) then
        Some (EMsg ''datorium: item has no original content baseline'' [])
      else None)"

definition require_item_meta :: "('j, 'w, 's) collection_client \<Rightarrow> ('j, 'd) collection_item \<Rightarrow> 'j err option" where
  "require_item_meta cc item =
     (if dm_id (ci_meta item) = [] then Some (EMsg ''datorium: item id is required'' [])
      else if dm_version (ci_meta item) = [] then Some (EMsg ''datorium: item version is required'' [])
      else if dm_schema (ci_meta item) \<noteq> [] \<and> dm_schema (ci_meta item) \<noteq> schema_marker (cc_col cc) then
        Some (EMsg ''datorium: item schema %q disagrees with collection marker %q''
                [dm_schema (ci_meta item), schema_marker (cc_col cc)])
      else None)"

definition patch_guard :: "('j, 's, 'p, 'd) typed_json \<Rightarrow> ('j, 'w, 's) collection_client \<Rightarrow> 'p collection_patch
    \<Rightarrow> 'j err option" where
  "patch_guard T cc p =
     (if different_binding (cp_binding p) (cc_binding cc) then
        Some (EMsg ''datorium: patch belongs to a different collection binding'' [])
      else if cp_id p = [] then Some (EMsg ''datorium: patch id is required'' [])
      else if cp_version p = [] then Some (EMsg ''datorium: patch version is required'' [])
      else if tj_patch_len T (cp_patch p) = 0 then Some (EMsg ''datorium: patch has no operations'' [])
      else if cp_marker p \<noteq> [] \<and> cp_marker p \<noteq> schema_marker (cc_col cc) then
        Some (EMsg ''datorium: patch schema marker %q disagrees with collection %q''
                [cp_marker p, schema_marker (cc_col cc)])
      else None)"

section \<open>Documents\<close>

definition resolve_create_id :: "'w env \<Rightarrow> string option \<Rightarrow> ('j, 'w) state \<Rightarrow> ('j err + string) \<times> ('j, 'w) state" where
  "resolve_create_id E doc_id st =
     (case doc_id of
        None \<Rightarrow> (case new_document_id E st of (s, st') \<Rightarrow> (Inr s, st'))
      | Some s \<Rightarrow>
          if s = [] then
            (Inl (EMsg ''datorium: empty string id is not allowed; pass nil for a client-minted ULID'' []), st)
          else (Inr s, st))"

text \<open>The content of a new document, with its schema marker set or checked.\<close>

definition marked_document :: "'j ojson \<Rightarrow> ('j, 's, 'p, 'd) typed_json \<Rightarrow> collection_ref \<Rightarrow> 'd \<Rightarrow> 'j err + 'j" where
  "marked_document J T col doc =
     (case tj_from_struct T doc of
        Inl e \<Rightarrow> Inl (EWrap ''datorium: marshal document: %w'' [] (EExt e))
      | Inr detail \<Rightarrow>
          if \<not> oj_is_object J detail then Inl (EMsg ''datorium: document must marshal to a JSON object'' [])
          else
            (let marker = schema_marker col in
             if oj_has_field J detail ''$'' then
               (let existing = oj_str J (oj_get J detail ''$'') in
                if existing \<noteq> marker then
                  Inl (EMsg ''datorium: document $ %q disagrees with collection marker %q'' [existing, marker])
                else Inr detail)
             else Inr (oj_set J detail ''$'' (oj_new_string J marker))))"

definition create_typed_doc :: "'w env \<Rightarrow> 'j ojson \<Rightarrow> ('j, 's, 'p, 'd) typed_json
    \<Rightarrow> ('j, 'w, 's) collection_client \<Rightarrow> string option \<Rightarrow> 'd \<Rightarrow> ('j, 'w) state
    \<Rightarrow> ('j err + 'j write_result) \<times> ('j, 'w) state" where
  "create_typed_doc E J T cc doc_id doc st =
     (case require_bound cc of
        Inl e \<Rightarrow> (Inl e, st)
      | Inr c \<Rightarrow>
          (case resolve_create_id E doc_id st of
             (Inl e, st1) \<Rightarrow> (Inl e, st1)
           | (Inr rid, st1) \<Rightarrow>
               (case marked_document J T (cc_col cc) doc of
                  Inl e \<Rightarrow> (Inl e, st1)
                | Inr detail \<Rightarrow>
                    (case ensure_operation_id_value E J detail st1 of
                       (detail', st2) \<Rightarrow>
                         (case build_command_ordered J ''create'' (cr_name (cc_col cc)) rid detail' of
                            Inl e \<Rightarrow> (Inl e, st2)
                          | Inr body \<Rightarrow> execute_create E J c (cr_name (cc_col cc)) rid body st2)))))"

text \<open>An item is returned along with an error, as far as it was filled.\<close>

definition zero_item :: "'j ojson \<Rightarrow> ('j, 's, 'p, 'd) typed_json \<Rightarrow> ('j, 'd) collection_item" where
  "zero_item J T =
     \<lparr>ci_doc = tj_zero_doc T, ci_original_doc = tj_zero_doc T,
      ci_meta = \<lparr>dm_id = [], dm_schema = [], dm_version = []\<rparr>,
      ci_extra_fields = oj_zero J, ci_cache_summaries = oj_zero J, ci_result = zero_result J,
      ci_original = oj_zero J, ci_binding = None\<rparr>"

definition strip_system :: "'j ojson \<Rightarrow> 'j \<Rightarrow> 'j" where
  "strip_system J v = oj_remove J (oj_remove J (oj_remove J v ''!'') ''$'') ''#''"

definition item_from_result :: "'j ojson \<Rightarrow> ('j, 's, 'p, 'd) typed_json \<Rightarrow> ('j, 'w, 's) collection_client
    \<Rightarrow> 'j result \<Rightarrow> ('j, 'd) collection_item \<times> 'j err option" where
  "item_from_result J T cc res =
     (let out = (zero_item J T)\<lparr>ci_result := res, ci_binding := cc_binding cc\<rparr> in
      if length (rs_body res) = 0 then (out, Some (EMsg ''datorium: empty response body'' []))
      else
        (case oj_read J (rs_body res) of
           Inl e \<Rightarrow> (out, Some (EWrap ''datorium: parse response: %w'' [] (EExt e)))
         | Inr en \<Rightarrow>
             (let sot = oj_get J en ''sot'' in
              if oj_is_missing J sot \<or> \<not> oj_is_object J sot then
                (out, Some (EMsg ''datorium: response missing sot object'' []))
              else
                (let content = strip_system J sot;
                     out1 = out\<lparr>ci_meta := \<lparr>dm_id = oj_str J (oj_get J sot ''!''),
                                             dm_schema = oj_str J (oj_get J sot ''$''),
                                             dm_version = oj_str J (oj_get J sot ''#'')\<rparr>,
                                ci_original := content\<rparr> in
                 case tj_to_struct T content of
                   Inl e \<Rightarrow> (out1, Some (EWrap ''datorium: unmarshal sot: %w'' [] (EExt e)))
                 | Inr doc \<Rightarrow>
                     (let out2 = out1\<lparr>ci_doc := doc\<rparr> in
                      case tj_to_struct T (ci_original out2) of
                        Inl e \<Rightarrow> (out2, Some (EWrap ''datorium: unmarshal original sot: %w'' [] (EExt e)))
                      | Inr original \<Rightarrow>
                          (out2\<lparr>ci_original_doc := original,
                                ci_extra_fields := oj_get J en ''extraFields'',
                                ci_cache_summaries := oj_get J en ''cacheSummaries''\<rparr>, None))))))"

definition get_doc_detail :: "'j ojson \<Rightarrow> read_options option \<Rightarrow> 'j" where
  "get_doc_detail J opts =
     (case opts of
        None \<Rightarrow> oj_new_object J
      | Some ro \<Rightarrow>
          (let d = oj_new_object J;
               d1 = (if ro_extra_fields ro then oj_set J d ''extraFields'' (oj_new_bool J True) else d) in
           if ro_cache_summaries ro then oj_set J d1 ''cacheSummaries'' (oj_new_bool J True) else d1))"

definition get_doc_opts :: "'w env \<Rightarrow> 'j ojson \<Rightarrow> ('j, 's, 'p, 'd) typed_json
    \<Rightarrow> ('j, 'w, 's) collection_client \<Rightarrow> string \<Rightarrow> read_options option \<Rightarrow> ('j, 'w) state
    \<Rightarrow> (('j, 'd) collection_item \<times> 'j err option) \<times> ('j, 'w) state" where
  "get_doc_opts E J T cc doc_id opts st =
     (case require_bound cc of
        Inl e \<Rightarrow> ((zero_item J T, Some e), st)
      | Inr c \<Rightarrow>
          if doc_id = [] then ((zero_item J T, Some (EMsg ''datorium: id is required'' [])), st)
          else
            (case ensure_established E J c st of
               (Inl e, st1) \<Rightarrow> ((zero_item J T, Some e), st1)
             | (Inr est, st1) \<Rightarrow>
                 (case build_command_ordered J ''read'' (cr_name (cc_col cc)) doc_id (get_doc_detail J opts) of
                    Inl e \<Rightarrow> ((zero_item J T, Some e), st1)
                  | Inr body \<Rightarrow>
                      (case run_document_command E J c est doc_id RouteRead body st1 of
                         ((res, Some e), st2) \<Rightarrow> ((zero_item J T, Some e), st2)
                       | ((res, None), st2) \<Rightarrow> (item_from_result J T cc res, st2)))))"

definition get_doc :: "'w env \<Rightarrow> 'j ojson \<Rightarrow> ('j, 's, 'p, 'd) typed_json
    \<Rightarrow> ('j, 'w, 's) collection_client \<Rightarrow> string \<Rightarrow> ('j, 'w) state
    \<Rightarrow> (('j, 'd) collection_item \<times> 'j err option) \<times> ('j, 'w) state" where
  "get_doc E J T cc doc_id st = get_doc_opts E J T cc doc_id None st"

definition send_typed_write :: "'w env \<Rightarrow> 'j ojson \<Rightarrow> ('j, 'w) client \<Rightarrow> string \<Rightarrow> string \<Rightarrow> string \<Rightarrow> 'j
    \<Rightarrow> ('j, 'w) state \<Rightarrow> ('j err + 'j write_result) \<times> ('j, 'w) state" where
  "send_typed_write E J c word collection doc_id detail st =
     (case ensure_established E J c st of
        (Inl e, st1) \<Rightarrow> (Inl e, st1)
      | (Inr est, st1) \<Rightarrow>
          (case ensure_operation_id_value E J detail st1 of
             (detail', st2) \<Rightarrow>
               (case build_command_ordered J word collection doc_id detail' of
                  Inl e \<Rightarrow> (Inl e, st2)
                | Inr body \<Rightarrow>
                    (case run_document_command E J c est doc_id RouteWrite body st2 of
                       ((res, Some e), st3) \<Rightarrow> (Inl e, st3)
                     | ((res, None), st3) \<Rightarrow> (Inr (write_result_from J res), st3)))))"

definition delete_typed_doc :: "'w env \<Rightarrow> 'j ojson \<Rightarrow> ('j, 'w, 's) collection_client \<Rightarrow> string \<Rightarrow> string
    \<Rightarrow> ('j, 'w) state \<Rightarrow> ('j err + 'j write_result) \<times> ('j, 'w) state" where
  "delete_typed_doc E J cc doc_id version st =
     (case require_bound cc of
        Inl e \<Rightarrow> (Inl e, st)
      | Inr c \<Rightarrow>
          if doc_id = [] then (Inl (EMsg ''datorium: id is required'' []), st)
          else if version = [] then (Inl (EMsg ''datorium: version is required'' []), st)
          else
            send_typed_write E J c ''delete'' (cr_name (cc_col cc)) doc_id
              (oj_set J (oj_set J (oj_new_object J) ''$'' (oj_new_string J (schema_marker (cc_col cc))))
                 ''#'' (oj_new_string J version)) st)"

section \<open>Patches\<close>

definition content_object_from_doc :: "'j ojson \<Rightarrow> ('j, 's, 'p, 'd) typed_json \<Rightarrow> 'd \<Rightarrow> 'j err + 'j" where
  "content_object_from_doc J T doc =
     (case tj_from_struct T doc of
        Inl e \<Rightarrow> Inl (EWrap ''datorium: marshal document: %w'' [] (EExt e))
      | Inr detail \<Rightarrow>
          if \<not> oj_is_object J detail then Inl (EMsg ''datorium: document must marshal to a JSON object'' [])
          else Inr (strip_system J detail))"

definition patch_of_item :: "('j, 'w, 's) collection_client \<Rightarrow> ('j, 'd) collection_item \<Rightarrow> 'p \<Rightarrow> 'p collection_patch" where
  "patch_of_item cc item p =
     \<lparr>cp_patch = p, cp_id = dm_id (ci_meta item), cp_version = dm_version (ci_meta item),
      cp_marker = schema_marker (cc_col cc), cp_binding = cc_binding cc\<rparr>"

definition create_patch_from_changes :: "'j ojson \<Rightarrow> ('j, 's, 'p, 'd) typed_json \<Rightarrow> ('j, 'w, 's) collection_client
    \<Rightarrow> ('j, 'd) collection_item \<Rightarrow> 'j err + 'p collection_patch" where
  "create_patch_from_changes J T cc item =
     (case require_bound cc of
        Inl e \<Rightarrow> Inl e
      | Inr c \<Rightarrow>
          (case require_item J cc item of
             Some e \<Rightarrow> Inl e
           | None \<Rightarrow>
               (case require_item_meta cc item of
                  Some e \<Rightarrow> Inl e
                | None \<Rightarrow>
                    (case content_object_from_doc J T (ci_doc item) of
                       Inl e \<Rightarrow> Inl e
                     | Inr after \<Rightarrow>
                         (case tj_diff T (ci_original item) after (cc_schema cc) of
                            Inl e \<Rightarrow> Inl (EWrap ''datorium: diff changes: %w'' [] (EExt e))
                          | Inr p \<Rightarrow>
                              if tj_patch_len T p = 0 then Inl (EMsg ''datorium: patch has no operations'' [])
                              else Inr (patch_of_item cc item p))))))"

definition create_patch :: "'j ojson \<Rightarrow> ('j, 's, 'p, 'd) typed_json \<Rightarrow> ('j, 'w, 's) collection_client
    \<Rightarrow> ('j, 'd) collection_item \<Rightarrow> 'p \<Rightarrow> 'j err + 'p collection_patch" where
  "create_patch J T cc item p =
     (case require_bound cc of
        Inl e \<Rightarrow> Inl e
      | Inr c \<Rightarrow>
          (case require_item J cc item of
             Some e \<Rightarrow> Inl e
           | None \<Rightarrow>
               (case require_item_meta cc item of
                  Some e \<Rightarrow> Inl e
                | None \<Rightarrow>
                    if tj_patch_len T p = 0 then Inl (EMsg ''datorium: patch has no operations'' [])
                    else
                      (case tj_validate T (ci_original item) p (cc_schema cc) of
                         Some e \<Rightarrow> Inl (EWrap ''datorium: validate patch: %w'' [] (EExt e))
                       | None \<Rightarrow> Inr (patch_of_item cc item p)))))"

definition patch_typed_doc :: "'w env \<Rightarrow> 'j ojson \<Rightarrow> ('j, 's, 'p, 'd) typed_json
    \<Rightarrow> ('j, 'w, 's) collection_client \<Rightarrow> 'p collection_patch \<Rightarrow> ('j, 'w) state
    \<Rightarrow> ('j err + 'j write_result) \<times> ('j, 'w) state" where
  "patch_typed_doc E J T cc p st =
     (case require_bound cc of
        Inl e \<Rightarrow> (Inl e, st)
      | Inr c \<Rightarrow>
          (case patch_guard T cc p of
             Some e \<Rightarrow> (Inl e, st)
           | None \<Rightarrow>
               send_typed_write E J c ''patch'' (cr_name (cc_col cc)) (cp_id p)
                 (oj_set J
                    (oj_set J (oj_set J (oj_new_object J) ''$'' (oj_new_string J (schema_marker (cc_col cc))))
                       ''#'' (oj_new_string J (cp_version p)))
                    ''RFC6902'' (tj_patch_json T (cp_patch p))) st))"

end
