(* ===== verification/TypedProps.thy ===== *)
theory TypedProps
  imports Typed
begin

text \<open>
  Lemmas and properties of typed collections: the contracts of the operations, the uniqueness of
  bindings, the guards a created patch passes, what a bound client and a read item rest on.
\<close>

section \<open>The operations keep the contract of the client\<close>

lemma bind_established_frame:
  fixes est :: "'j establishment"
  assumes "bind_established E J c col st = (r, st')"
  shows "extends (establish_event c) st st'"
    "r = Inr est \<Longrightarrow> st_cache st' = Some est \<and> validate_catalog (Some est) [Some col] = (None :: 'j err option)
       \<and> (cache_ok st \<longrightarrow> establishment_ok est)"
proof -
  have "extends (establish_event c) st st' \<and> (r = Inr est \<longrightarrow> st_cache st' = Some est
      \<and> validate_catalog (Some est) [Some col] = (None :: 'j err option) \<and> (cache_ok st \<longrightarrow> establishment_ok est))"
  proof (cases "st_cache st")
    case None
    obtain r1 st1 where o: "establish E J c [Some col] st = (r1, st1)" by (metis surj_pair)
    then show ?thesis
      by (rule establish_cases)
        (use assms None o parse_establishment_ok in \<open>auto simp: bind_established_def\<close>)
  next
    case (Some est1)
    then show ?thesis
      using assms by (auto simp: bind_established_def cache_ok_def split: option.splits)
  qed
  then show "extends (establish_event c) st st'"
    "r = Inr est \<Longrightarrow> st_cache st' = Some est \<and> validate_catalog (Some est) [Some col] = (None :: 'j err option)
       \<and> (cache_ok st \<longrightarrow> establishment_ok est)" by blast+
qed

interpretation bind_established_op: client_op "establish_event c" "bind_established E J c col" for E J c col
proof (unfold_locales, goal_cases)
  case (1 st)
  obtain r st' where "bind_established E J c col st = (r, st')" by (metis surj_pair)
  then show ?case using bind_established_frame(1) by (metis snd_conv)
qed

lemma resolve_id_authorised [op_intro]: "client_op event_authorised (resolve_create_id E doc_id)"
  unfolding resolve_create_id_def new_document_id_def by (intro op_intro)

interpretation create_typed_op: client_op event_authorised "create_typed_doc E J T cc doc_id doc"
  for E J T cc doc_id doc
  unfolding create_typed_doc_def by (intro op_intro)

interpretation get_doc_op: client_op event_authorised "get_doc_opts E J T cc doc_id opts" for E J T cc doc_id opts
  unfolding get_doc_opts_def by (intro op_intro)

lemma typed_write_authorised [op_intro]:
  "client_op event_authorised (send_typed_write E J c word collection doc_id detail)"
  unfolding send_typed_write_def by (intro op_intro)

interpretation delete_typed_op: client_op event_authorised "delete_typed_doc E J cc doc_id version"
  for E J cc doc_id version
  unfolding delete_typed_doc_def by (intro op_intro)

interpretation patch_typed_op: client_op event_authorised "patch_typed_doc E J T cc p" for E J T cc p
  unfolding patch_typed_doc_def by (intro op_intro)

interpretation operation_value_budget: budget_op u 0 "ensure_operation_id_value E J detail" for u E J detail
  by unfold_locales (simp add: ensure_operation_id_value_def new_operation_id_def new_ulid_def log_event_def
      sent_count_def split: prod.splits)

interpretation typed_write_budget: budget_op "attempts_max c" "read_cost c"
  "send_typed_write E J c word collection doc_id detail" for E J c word collection doc_id detail
  unfolding send_typed_write_def
  by (intro budget_rules budget_return budget_bind [OF ensure_budget.budget_op_axioms]
      budget_bind [OF operation_value_budget.budget_op_axioms] budget_bind [OF document_budget.budget_op_axioms])
    (simp_all add: read_cost_def)

section \<open>Bindings are unique\<close>

text \<open>Binding one collection after the other, successfully or not.\<close>

fun bind_all :: "'w env \<Rightarrow> 'j ojson \<Rightarrow> ('j, 's, 'p, 'd) typed_json
    \<Rightarrow> (collection_ref \<times> ('j, 'w) client option) list \<Rightarrow> ('j, 'w) bind_state
    \<Rightarrow> ('j err + ('j, 'w, 's) collection_client) list \<times> ('j, 'w) bind_state" where
  "bind_all E J T [] s = ([], s)"
| "bind_all E J T ((col, cl) # binds) s =
     (case bind E J T col cl s of (r, s1) \<Rightarrow> (case bind_all E J T binds s1 of (rs, s2) \<Rightarrow> (r # rs, s2)))"

definition bound_count :: "('e + 'c) list \<Rightarrow> nat" where
  "bound_count rs = length (filter (\<lambda>r. \<not> isl r) rs)"

lemma bound_count_simps [simp]: "bound_count [] = 0" "bound_count (Inl e # rs) = bound_count rs"
    "bound_count (Inr cc # rs) = Suc (bound_count rs)"
  by (simp_all add: bound_count_def)

lemma bind_result:
  assumes "bind E J T col cl (st, ctr) = (r, st', ctr')"
  shows "ctr' = (if isl r then ctr else ctr + 1)"
    "r = Inr cc \<Longrightarrow> cc_binding cc = Some (ctr + 1) \<and> cc_col cc = col \<and> cc_client cc = cl \<and> cl \<noteq> None \<and> cr_name col \<noteq> []"
  using assms
  by (auto simp: bind_def split: option.splits if_splits sum.splits prod.splits)

lemma bind_all_length: "bind_all E J T binds s = (rs, s') \<Longrightarrow> length rs = length binds"
  by (induction E J T binds s arbitrary: rs s' rule: bind_all.induct) (auto split: prod.splits)

lemma bind_all_bindings:
  "bind_all E J T binds (st, ctr) = (rs, s') \<Longrightarrow> i < length rs \<Longrightarrow> rs ! i = Inr cc \<Longrightarrow>
     cc_binding cc = Some (ctr + of_nat (bound_count (take (Suc i) rs))) \<and> cc_client cc \<noteq> None \<and> cr_name (cc_col cc) \<noteq> []"
proof (induction binds arbitrary: st ctr rs s' i)
  case (Cons b binds)
  obtain col cl where b: "b = (col, cl)" by (cases b)
  obtain r st1 ctr1 where r: "bind E J T col cl (st, ctr) = (r, st1, ctr1)" by (metis prod_cases3)
  obtain rs1 s1 where rs1: "bind_all E J T binds (st1, ctr1) = (rs1, s1)" by (metis surj_pair)
  have rs: "rs = r # rs1" using Cons.prems(1) b r rs1 by simp
  show ?case
  proof (cases i)
    case 0
    then show ?thesis using Cons.prems(3) rs bind_result(2) [OF r, of cc] by auto
  next
    case (Suc k)
    then have "cc_binding cc = Some (ctr1 + of_nat (bound_count (take (Suc k) rs1))) \<and> cc_client cc \<noteq> None
        \<and> cr_name (cc_col cc) \<noteq> []"
      using Cons.IH [OF rs1, of k] Cons.prems(2,3) rs by simp
    then show ?thesis
      using Suc rs bind_result(1) [OF r] by (cases r) (auto simp: algebra_simps)
  qed
qed simp

lemma bound_count_less:
  "i < j \<Longrightarrow> j < length rs \<Longrightarrow> rs ! j = Inr cc \<Longrightarrow> bound_count (take (Suc i) rs) < bound_count (take (Suc j) rs)"
proof -
  assume *: "i < j" "j < length rs" "rs ! j = Inr cc"
  then have "take (Suc j) rs = take (Suc i) rs @ drop (Suc i) (take j rs) @ [Inr cc]"
    by (metis Suc_leI append_assoc append_take_drop_id min.absorb1 take_Suc_conv_app_nth take_take)
  then have "bound_count (take (Suc j) rs)
      = bound_count (take (Suc i) rs) + bound_count (drop (Suc i) (take j rs)) + 1"
    by (simp add: bound_count_def)
  then show ?thesis by simp
qed

lemma bindings_differ:
  assumes "bind_all E J T binds s = (rs, s')" "length binds < 2 ^ 64" "i < j" "j < length rs"
    "rs ! i = Inr ci" "rs ! j = Inr cj"
  shows "cc_binding ci \<noteq> cc_binding cj"
proof
  obtain st ctr where s: "s = (st, ctr)" by (cases s)
  have len: "length rs < 2 ^ 64" using bind_all_length [OF assms(1)] assms(2) by simp
  have small: "bound_count (take (Suc k) rs) < 2 ^ 64" for k
    using len by (simp add: bound_count_def le_less_trans [OF length_filter_le] min_def)
  assume "cc_binding ci = cc_binding cj"
  then have "(of_nat (bound_count (take (Suc i) rs)) :: 64 word) = of_nat (bound_count (take (Suc j) rs))"
    using bind_all_bindings [OF assms(1) [unfolded s], of i ci] bind_all_bindings [OF assms(1) [unfolded s], of j cj]
      assms(3-6) by simp
  then have "bound_count (take (Suc i) rs) = bound_count (take (Suc j) rs)"
    using small by (simp add: word_unat_eq_iff unat_of_nat take_bit_nat_eq_self)
  with bound_count_less [OF assms(3,4,6)] show False by simp
qed

lemma bindings_differ_any:
  assumes "bind_all E J T binds s = (rs, s')" "length binds < 2 ^ 64" "i < length rs" "j < length rs" "i \<noteq> j"
    "rs ! i = Inr ci" "rs ! j = Inr cj"
  shows "different_binding (cc_binding ci) (cc_binding cj)" "cc_client cj \<noteq> None" "cc_binding cj \<noteq> None"
    "cr_name (cc_col cj) \<noteq> []"
proof -
  obtain st ctr where s: "s = (st, ctr)" by (cases s)
  have "cc_binding ci \<noteq> cc_binding cj"
    using bindings_differ [OF assms(1,2), of i j] bindings_differ [OF assms(1,2), of j i] assms(3-7) by (metis linorder_neqE_nat)
  then show "different_binding (cc_binding ci) (cc_binding cj)" by (auto simp: different_binding_def split: option.splits)
  show "cc_client cj \<noteq> None" "cc_binding cj \<noteq> None" "cr_name (cc_col cj) \<noteq> []"
    using bind_all_bindings [OF assms(1) [unfolded s] assms(4,7)] by simp_all
qed

section \<open>Created patches\<close>

lemma created_patch:
  assumes "create_patch J T cc item p = Inr q \<or> create_patch_from_changes J T cc item = Inr q"
  shows "require_item J cc item = None" "require_item_meta cc item = None" "\<exists>c. require_bound cc = Inr c"
    "\<exists>p'. q = patch_of_item cc item p' \<and> tj_patch_len T p' \<noteq> 0"
proof -
  have "require_item J cc item = None \<and> require_item_meta cc item = None \<and> (\<exists>c. require_bound cc = Inr c)
      \<and> (\<exists>p'. q = patch_of_item cc item p' \<and> tj_patch_len T p' \<noteq> 0)"
    using assms
    by (auto simp: create_patch_def create_patch_from_changes_def split: sum.splits option.splits if_splits)
  then show "require_item J cc item = None" "require_item_meta cc item = None" "\<exists>c. require_bound cc = Inr c"
    "\<exists>p'. q = patch_of_item cc item p' \<and> tj_patch_len T p' \<noteq> 0" by blast+
qed

lemma created_guard:
  fixes J :: "'j ojson"
  assumes "create_patch J T cc item p = Inr q \<or> create_patch_from_changes J T cc item = Inr q"
  shows "patch_guard T cc q = (None :: 'j err option)"
proof -
  obtain p' where q: "q = patch_of_item cc item p'" "tj_patch_len T p' \<noteq> 0"
    using created_patch(4) [OF assms] by blast
  have "\<not> different_binding (ci_binding item) (cc_binding cc)"
    using created_patch(1) [OF assms] by (auto simp: require_item_def split: if_splits)
  then have "\<not> different_binding (cc_binding cc) (cc_binding cc)"
    by (auto simp: different_binding_def split: option.splits)
  then show ?thesis
    using q created_patch(2) [OF assms] by (auto simp: patch_guard_def patch_of_item_def require_item_meta_def split: if_splits)
qed

section \<open>A scripted binding\<close>

definition sample_typed :: "(js, unit, js, js) typed_json" where
  "sample_typed = \<lparr>tj_compile = (\<lambda>fs t. Inr ()), tj_from_struct = Inr, tj_to_struct = Inr,
     tj_diff = (\<lambda>a b s. Inr (JArr [b])), tj_validate = (\<lambda>a p s. None),
     tj_patch_len = (\<lambda>p. length (js_items p)), tj_patch_json = (\<lambda>p. p), tj_zero_doc = JVoid\<rparr>"

definition todos :: collection_ref where
  "todos = \<lparr>cr_name = ''Todos'', cr_version = 0\<rparr>"

definition typed_est :: "js establishment" where
  "typed_est = sample_est\<lparr>es_schemas := [(''Todos'', \<lparr>sc_version = 0, sc_doc = JObj []\<rparr>)]\<rparr>"

lemma typed_est_ok: "establishment_ok typed_est"
  using parse_establishment_ok [OF sample_parse_any] by (simp add: establishment_ok_def typed_est_def)

definition todos_client :: "binding \<Rightarrow> (js, script, unit) collection_client" where
  "todos_client b = \<lparr>cc_client = Some (script_client 1 0), cc_col = todos, cc_schema = (), cc_binding = Some b\<rparr>"

definition todo_item :: "binding \<Rightarrow> (js, js) collection_item" where
  "todo_item b = \<lparr>ci_doc = JObj [], ci_original_doc = JObj [],
     ci_meta = \<lparr>dm_id = ''abcdef.1'', dm_schema = [], dm_version = ''v1''\<rparr>,
     ci_extra_fields = JVoid, ci_cache_summaries = JVoid, ci_result = ok_result,
     ci_original = JObj [], ci_binding = Some b\<rparr>"

lemma script_bind:
  "bind script_env SJ sample_typed todos (Some (script_client 1 0)) (script_state (Some typed_est) w, n)
     = (Inr (todos_client (n + 1)), script_state (Some typed_est) w, n + 1)"
proof -
  have cat: "validate_catalog (Some typed_est) [Some todos] = (None :: js err option)"
    by (simp add: validate_catalog_def col_mismatch_def typed_est_def todos_def)
  have "bind_schema SJ sample_typed todos typed_est = Inr ()"
    by (simp add: bind_schema_def typed_est_def todos_def sample_typed_def)
  then show ?thesis
    by (simp add: bind_def bind_established_def script_state_def cat todos_client_def) (simp add: todos_def)
qed

lemma script_bind_two:
  "bind_all script_env SJ sample_typed [(todos, Some (script_client 1 0)), (todos, Some (script_client 1 0))]
     (script_state (Some typed_est) w, 0)
   = ([Inr (todos_client 1), Inr (todos_client 2)], script_state (Some typed_est) w, 2)"
  by (simp add: script_bind)

definition todo_patch :: "binding \<Rightarrow> js collection_patch" where
  "todo_patch b = \<lparr>cp_patch = JArr [JNull], cp_id = ''abcdef.1'', cp_version = ''v1'', cp_marker = ''Todos:0'', cp_binding = Some b\<rparr>"

lemma script_create_patch:
  "create_patch SJ sample_typed (todos_client b) (todo_item b) (JArr [JNull]) = Inr (todo_patch b)"
  by (simp add: create_patch_def require_bound_def todos_client_def todo_item_def require_item_def different_binding_def
      require_item_meta_def sample_typed_def patch_of_item_def todo_patch_def todos_def schema_marker_def show_int_def
      show_nat.simps char_eval)

section \<open>Properties\<close>

text \<open>C16: Collections do not mix. Of any sequence of fewer than 2^64 bindings, successful or not, two
  clients never share a binding, also when they bind the same collection: a patch one of them
  created is refused by the other without a request, and so is the item it was created from.\<close>

theorem typed_isolation:
  assumes "bind_all E J T binds s = (rs, s')" "length binds < 2 ^ 64"
    and "i < length rs" "j < length rs" "i \<noteq> j" "rs ! i = Inr ci" "rs ! j = Inr cj"
    and "create_patch J T ci item p = Inr q \<or> create_patch_from_changes J T ci item = Inr q"
  shows "patch_typed_doc E' J T cj q st
        = (Inl (EMsg ''datorium: patch belongs to a different collection binding'' []), st)
    \<and> create_patch J T cj item p' = Inl (EMsg ''datorium: item belongs to a different collection binding'' [])
    \<and> create_patch_from_changes J T cj item = Inl (EMsg ''datorium: item belongs to a different collection binding'' [])"
proof -
  note diff = bindings_differ_any [OF assms(1-7)]
  obtain p1 where q: "q = patch_of_item ci item p1" using created_patch(4) [OF assms(8)] by blast
  have "\<not> different_binding (ci_binding item) (cc_binding ci)"
    using created_patch(1) [OF assms(8)] by (auto simp: require_item_def split: if_splits)
  with diff(1) have item: "different_binding (ci_binding item) (cc_binding cj)"
    by (auto simp: different_binding_def split: option.splits)
  obtain c where "cc_client cj = Some c" using diff(2) by blast
  with diff(3,4) have "require_bound cj = Inr c" by (simp add: require_bound_def)
  then show ?thesis
    using diff(1) item q
    by (simp add: patch_typed_doc_def patch_guard_def patch_of_item_def create_patch_def create_patch_from_changes_def
        require_item_def)
qed

theorem typed_isolation_witness:
  "patch_typed_doc script_env SJ sample_typed (todos_client 2) (todo_patch 1) (script_state None [])
     = (Inl (EMsg ''datorium: patch belongs to a different collection binding'' []), script_state None [])"
  using typed_isolation [OF script_bind_two, of 0 1 "todos_client 1" "todos_client 2" "todo_item 1" "JArr [JNull]" "todo_patch 1"]
    script_create_patch [of 1] by simp

text \<open>C26: A created patch can be sent. A patch that CreatePatch or CreatePatchFromChanges returns is
  well-formed for its client: it passes every check of PatchDoc, so that sending it never fails
  before the network, and it carries the id and the version of the document that was read.\<close>

theorem created_patch_sendable:
  assumes "create_patch J T cc item p = Inr q \<or> create_patch_from_changes J T cc item = Inr q"
  shows "cp_id q = dm_id (ci_meta item) \<and> cp_version q = dm_version (ci_meta item) \<and> cp_id q \<noteq> [] \<and> cp_version q \<noteq> []
    \<and> (\<exists>c. cc_client cc = Some c \<and> (\<forall>st. patch_typed_doc E J T cc q st
        = send_typed_write E J c ''patch'' (cr_name (cc_col cc)) (dm_id (ci_meta item))
            (oj_set J
               (oj_set J (oj_set J (oj_new_object J) ''$'' (oj_new_string J (schema_marker (cc_col cc))))
                  ''#'' (oj_new_string J (dm_version (ci_meta item))))
               ''RFC6902'' (tj_patch_json T (cp_patch q))) st))"
proof -
  obtain p1 where q: "q = patch_of_item cc item p1" using created_patch(4) [OF assms] by blast
  obtain c where c: "require_bound cc = Inr c" using created_patch(3) [OF assms] by blast
  then have "cc_client cc = Some c" by (auto simp: require_bound_def split: option.splits if_splits)
  moreover have "dm_id (ci_meta item) \<noteq> [] \<and> dm_version (ci_meta item) \<noteq> []"
    using created_patch(2) [OF assms] by (auto simp: require_item_meta_def split: if_splits)
  ultimately show ?thesis
    using created_guard [OF assms] c q by (simp add: patch_typed_doc_def patch_of_item_def)
qed

theorem created_patch_sendable_witness:
  "cp_version (todo_patch 1) = ''v1'' \<and> cp_id (todo_patch 1) \<noteq> []"
  using created_patch_sendable [OF disjI1 [OF script_create_patch [of 1]]] by (simp add: todo_item_def)

text \<open>C25: A bound client is backed by the server's schema. When Bind succeeds the cache holds a
  well-formed establishment document whose schema of the collection has the declared version and
  an object document, and the client's schema is the compilation of exactly that document with
  the two reference formats.\<close>

theorem bind_validated:
  assumes "bind E J T col cl (st, ctr) = (Inr cc, st', ctr')" "cache_ok st"
  shows "\<exists>c est entry. cl = Some c \<and> cc_client cc = Some c \<and> cc_col cc = col \<and> st_cache st' = Some est \<and> establishment_ok est
    \<and> map_of (es_schemas est) (cr_name col) = Some entry \<and> sc_version entry = cr_version col
    \<and> oj_is_object J (sc_doc entry)
    \<and> tj_compile T datorium_string_formats (oj_json J (sc_doc entry)) = Inr (cc_schema cc)"
proof -
  from assms(1) obtain c est where c: "cl = Some c" "bind_established E J c col st = (Inr est, st')"
    "bind_schema J T col est = Inr (cc_schema cc)" "cc_client cc = Some c" "cc_col cc = col"
    by (auto simp: bind_def split: option.splits if_splits sum.splits prod.splits)
  note est = bind_established_frame(2) [OF c(2) refl]
  then have "col_mismatch est col = None"
    by (simp add: validate_catalog_def Let_def split: if_splits option.splits)
  then obtain entry where "map_of (es_schemas est) (cr_name col) = Some entry" "sc_version entry = cr_version col"
    by (auto simp: col_mismatch_None)
  then show ?thesis
    using c est assms(2) by (auto simp: bind_schema_def split: if_splits sum.splits)
qed

theorem bind_validated_witness:
  "\<exists>entry. map_of (es_schemas typed_est) ''Todos'' = Some entry \<and> sc_version entry = 0"
proof -
  have "cache_ok (script_state (Some typed_est) [])"
    using typed_est_ok by (simp add: cache_ok_def script_state_def)
  from bind_validated [OF script_bind this, of 0] show ?thesis by (auto simp: script_state_def todos_def)
qed

text \<open>C36: A typed read that succeeds returns the document the server delivered in answer to the read
  command of that document, the last request of the log: the metadata are its system fields, the
  baseline is what removing exactly these three fields leaves, and the document of the item and
  its second copy are both decoded from that baseline, so that changing one leaves the other.\<close>

theorem get_doc_sound:
  assumes "cc_client cc = Some c" "0 \<le> cl_wm_retries c"
    and "get_doc_opts E J T cc doc_id opts st = ((item, None), st')"
  shows "rs_ok (ci_result item) \<and> ci_binding item = cc_binding cc
    \<and> (\<exists>detail evs rq n. st_trace st' = st_trace st @ evs @ [Sent rq] \<and> delivered J c rq (ci_result item)
        \<and> rq_method rq = ''POST'' \<and> authorised rq
        \<and> rq_body rq = Some (drop n (command_text ''read'' (cr_name (cc_col cc)) doc_id detail))
        \<and> (cl_tr_retries c = 0 \<longrightarrow> n = 0))
    \<and> (\<exists>en sot. oj_read J (rs_body (ci_result item)) = Inr en \<and> sot = oj_get J en ''sot'' \<and> oj_is_object J sot
        \<and> ci_meta item = \<lparr>dm_id = oj_str J (oj_get J sot ''!''), dm_schema = oj_str J (oj_get J sot ''$''),
                          dm_version = oj_str J (oj_get J sot ''#'')\<rparr>
        \<and> ci_original item = oj_remove J (oj_remove J (oj_remove J sot ''!'') ''$'') ''#''
        \<and> tj_to_struct T (ci_original item) = Inr (ci_doc item) \<and> ci_original_doc item = ci_doc item
        \<and> ci_extra_fields item = oj_get J en ''extraFields'' \<and> ci_cache_summaries item = oj_get J en ''cacheSummaries'')"
proof -
  from assms(1,3) obtain est st1 body res where en: "ensure_established E J c st = (Inr est, st1)"
    and body: "build_command_ordered J ''read'' (cr_name (cc_col cc)) doc_id (get_doc_detail J opts) = (Inr body :: 'a err + string)"
    and run: "run_document_command E J c est doc_id RouteRead body st1 = ((res, None), st')"
    and item: "item_from_result J T cc res = (item, None)"
    by (auto simp: get_doc_opts_def require_bound_def split: if_splits option.splits sum.splits prod.splits)
  have "\<exists>detail. trim_space body = command_text ''read'' (cr_name (cc_col cc)) doc_id detail"
    using build_command_ordered_Inr [OF body] by (auto simp: marshal_command_text)
  moreover have "answered_last J c (trim_space body) st st' res"
    using answered_later [OF run_document_answer [OF run assms(2)] ensure_established_frame(1) [OF en]] .
  moreover have "rs_ok res" using run_document_accepted [OF run assms(2)] by simp
  moreover have "ci_result item = res \<and> ci_binding item = cc_binding cc
    \<and> (\<exists>en sot. oj_read J (rs_body res) = Inr en \<and> sot = oj_get J en ''sot'' \<and> oj_is_object J sot
        \<and> ci_meta item = \<lparr>dm_id = oj_str J (oj_get J sot ''!''), dm_schema = oj_str J (oj_get J sot ''$''),
                          dm_version = oj_str J (oj_get J sot ''#'')\<rparr>
        \<and> ci_original item = oj_remove J (oj_remove J (oj_remove J sot ''!'') ''$'') ''#''
        \<and> tj_to_struct T (ci_original item) = Inr (ci_doc item) \<and> ci_original_doc item = ci_doc item
        \<and> ci_extra_fields item = oj_get J en ''extraFields'' \<and> ci_cache_summaries item = oj_get J en ''cacheSummaries'')"
    using item by (auto simp: item_from_result_def zero_item_def strip_system_def Let_def split: if_splits sum.splits)
  ultimately show ?thesis unfolding answered_last_def by (metis (no_types, lifting))
qed

lemma script_get_doc:
  "\<exists>st' item. get_doc_opts script_env SJ sample_typed (todos_client 1) ''abcdef.1'' None
     (script_state (Some sample_est) [answer ''S'']) = ((item, None), st') \<and> dm_version (ci_meta item) = ''v1''"
proof -
  have body: "build_command_ordered SJ ''read'' ''Todos'' ''abcdef.1'' (JObj []) = Inr read_body"
    by (simp add: build_command_ordered_def read_body_def marshal_command_text)
  have item: "item_from_result SJ sample_typed (todos_client 1) found_result
      = (\<lparr>ci_doc = JObj [], ci_original_doc = JObj [], ci_meta = \<lparr>dm_id = [], dm_schema = [], dm_version = ''v1''\<rparr>,
          ci_extra_fields = JVoid, ci_cache_summaries = JVoid, ci_result = found_result,
          ci_original = JObj [], ci_binding = Some 1\<rparr>, None)"
    by (simp add: item_from_result_def found_result_def script_reader_def sample_typed_def zero_item_def strip_system_def
        todos_client_def Let_def)
  have bound: "require_bound (todos_client 1) = Inr (script_client 1 0)" "cr_name (cc_col (todos_client 1)) = ''Todos''"
    by (simp_all add: require_bound_def todos_client_def todos_def)
  show ?thesis
    by (simp add: get_doc_opts_def bound script_state_def script_cached get_doc_detail_def body run_document_command_def
        script_route script_exec_ok [OF read_body_trim _ found_decode] item)
qed

theorem get_doc_sound_witness:
  "\<exists>item rq. dm_version (ci_meta item) = ''v1'' \<and> delivered SJ (script_client 1 0) rq (ci_result (item :: (js, js) collection_item))"
proof -
  obtain st' item where run: "get_doc_opts script_env SJ sample_typed (todos_client 1) ''abcdef.1'' None
     (script_state (Some sample_est) [answer ''S'']) = ((item, None), st')" "dm_version (ci_meta item) = ''v1''"
    using script_get_doc by blast
  from get_doc_sound [OF _ _ run(1), of "script_client 1 0"] run(2) show ?thesis by (auto simp: todos_client_def)
qed

end
