(* ===== verification/TestToken.thy ===== *)
theory TestToken
  imports Prelude
begin

text \<open>
  The development-only token minter (internal/testtoken/mint.go): which key signs, how long the
  token lives and what it claims. Reading files, decoding JSON, PEM and PKCS8, and the JWT
  package are fields of \<open>mint_env\<close>, a parameter; an error is its text. Durations and times
  are nanoseconds, durations in an int64.
\<close>

record auth_key =
  ak_kid :: string
  ak_alg :: string
  ak_status :: string
  ak_public_key :: string

record auth_file =
  af_issuer :: string
  af_audience :: string
  af_client_seconds :: int
  af_machine_seconds :: int
  af_admin_seconds :: int
  af_keys :: "auth_key list"

record claims =
  cs_issuer :: string
  cs_audience :: "string list"
  cs_subject :: string
  cs_issued_at :: int
  cs_expiration :: int
  cs_kind :: string

record ('k, 't) mint_env =
  me_read_file :: "string \<Rightarrow> string + string"
  me_unmarshal_auth :: "string \<Rightarrow> string + auth_file"
  me_pem_decode :: "string \<Rightarrow> string option"
  me_parse_pkcs8 :: "string \<Rightarrow> string + 'k"
  me_is_ed25519 :: "'k \<Rightarrow> bool"
  me_now :: int
  me_build :: "claims \<Rightarrow> string + 't"
  me_import_with_kid :: "'k \<Rightarrow> string \<Rightarrow> string + 'k"
  me_sign :: "'t \<Rightarrow> 'k \<Rightarrow> string + string"

definition load_ed25519_private_key_pem :: "('k, 't) mint_env \<Rightarrow> string \<Rightarrow> string + 'k" where
  "load_ed25519_private_key_pem M path =
     (case me_read_file M path of
        Inl e \<Rightarrow> Inl e
      | Inr raw \<Rightarrow>
          (case me_pem_decode M raw of
             None \<Rightarrow> Inl (''testtoken: no PEM block in '' @ path)
           | Some block \<Rightarrow>
               (case me_parse_pkcs8 M block of
                  Inl e \<Rightarrow> Inl e
                | Inr key \<Rightarrow>
                    if \<not> me_is_ed25519 M key then Inl ''testtoken: not an Ed25519 private key''
                    else Inr key)))"

fun active_kid :: "auth_key list \<Rightarrow> string" where
  "active_kid [] = []"
| "active_kid (k # ks) = (if ak_status k = ''active'' then ak_kid k else active_kid ks)"

definition second :: int where "second = 1000000000"
definition hour :: int where "hour = 3600000000000"

definition token_lifetime :: "auth_file \<Rightarrow> string \<Rightarrow> int \<Rightarrow> int" where
  "token_lifetime af kind lifetime =
     (if lifetime \<le> 0 then
        (if kind = ''admin'' then
           (if 0 < af_admin_seconds af then int64_wrap (af_admin_seconds af * second)
            else if 0 < af_client_seconds af then int64_wrap (af_client_seconds af * second)
            else hour)
         else if 0 < af_client_seconds af then int64_wrap (af_client_seconds af * second)
         else hour)
      else lifetime)"

definition mint_token :: "('k, 't) mint_env \<Rightarrow> string \<Rightarrow> string \<Rightarrow> string \<Rightarrow> string \<Rightarrow> int \<Rightarrow> string + string" where
  "mint_token M auth_path key_path subject kind0 lifetime0 =
     (let kind = (if kind0 = [] then ''client'' else kind0) in
      case me_read_file M auth_path of
        Inl e \<Rightarrow> Inl e
      | Inr raw \<Rightarrow>
          (case me_unmarshal_auth M raw of
             Inl e \<Rightarrow> Inl e
           | Inr af \<Rightarrow>
               (case load_ed25519_private_key_pem M key_path of
                  Inl e \<Rightarrow> Inl e
                | Inr priv \<Rightarrow>
                    (let kid = active_kid (af_keys af) in
                     if kid = [] then Inl (''testtoken: no active key in '' @ auth_path)
                     else
                       (case me_build M \<lparr>cs_issuer = af_issuer af, cs_audience = [af_audience af], cs_subject = subject,
                               cs_issued_at = me_now M,
                               cs_expiration = me_now M + token_lifetime af kind lifetime0, cs_kind = kind\<rparr> of
                          Inl e \<Rightarrow> Inl e
                        | Inr tok \<Rightarrow>
                            (case me_import_with_kid M priv kid of
                               Inl e \<Rightarrow> Inl e
                             | Inr key \<Rightarrow>
                                 (case me_sign M tok key of Inl e \<Rightarrow> Inl e | Inr jwt \<Rightarrow> Inr jwt)))))))"

definition mint_client_token :: "('k, 't) mint_env \<Rightarrow> string \<Rightarrow> string \<Rightarrow> string \<Rightarrow> int \<Rightarrow> string + string" where
  "mint_client_token M auth_path key_path subject lifetime = mint_token M auth_path key_path subject ''client'' lifetime"

definition mint_admin_token :: "('k, 't) mint_env \<Rightarrow> string \<Rightarrow> string \<Rightarrow> string \<Rightarrow> int \<Rightarrow> string + string" where
  "mint_admin_token M auth_path key_path subject lifetime = mint_token M auth_path key_path subject ''admin'' lifetime"

section \<open>The command\<close>

text \<open>
  The main function of cmd/mint-token/main.go. The flags are parsed as package flag does: one or
  two minuses, the value after an equals sign or in the next argument whatever it looks like, and
  the end at the first argument that is no flag. \<open>me_parse_duration\<close> (an argument here) is
  \<open>time.ParseDuration\<close>. The usage text of package flag is not modelled.
\<close>

record mint_flags =
  mf_auth :: string
  mf_key :: string
  mf_subject :: string
  mf_kind :: string
  mf_lifetime :: int

definition mint_defaults :: mint_flags where
  "mint_defaults = \<lparr>mf_auth = [], mf_key = [], mf_subject = ''integration'', mf_kind = ''client'', mf_lifetime = hour\<rparr>"

definition set_flag :: "(string \<Rightarrow> int option) \<Rightarrow> string \<Rightarrow> string \<Rightarrow> mint_flags \<Rightarrow> mint_flags option" where
  "set_flag parse_duration name v f =
     (if name = ''auth'' then Some (f\<lparr>mf_auth := v\<rparr>)
      else if name = ''key'' then Some (f\<lparr>mf_key := v\<rparr>)
      else if name = ''subject'' then Some (f\<lparr>mf_subject := v\<rparr>)
      else if name = ''kind'' then Some (f\<lparr>mf_kind := v\<rparr>)
      else if name = ''lifetime'' then map_option (\<lambda>d. f\<lparr>mf_lifetime := d\<rparr>) (parse_duration v)
      else None)"

definition flag_names :: "string list" where
  "flag_names = [''auth'', ''key'', ''subject'', ''kind'', ''lifetime'']"

text \<open>The name and the value of an argument: the first equals sign after the first byte parts them.\<close>

fun cut_value :: "string \<Rightarrow> string \<times> string option" where
  "cut_value [] = ([], None)"
| "cut_value (ch # s) =
     (ch # takeWhile (\<lambda>x. x \<noteq> CHR ''='') s,
      case dropWhile (\<lambda>x. x \<noteq> CHR ''='') s of [] \<Rightarrow> None | _ # v \<Rightarrow> Some v)"

datatype flag_end = Parsed mint_flags | HelpAsked | BadFlags

fun flag_name :: "string \<Rightarrow> string option" where
  "flag_name (c1 # c2 # s) =
     (if c1 \<noteq> CHR ''-'' then None else if c2 = CHR ''-'' then (if s = [] then None else Some s) else Some (c2 # s))"
| "flag_name _ = None"

fun parse_flags :: "(string \<Rightarrow> int option) \<Rightarrow> string list \<Rightarrow> mint_flags \<Rightarrow> flag_end" where
  "parse_flags D [] f = Parsed f"
| "parse_flags D (a # args) f =
     (case flag_name a of
        None \<Rightarrow> Parsed f
      | Some name \<Rightarrow>
          if name = [] \<or> hd name = CHR ''-'' \<or> hd name = CHR ''='' then BadFlags
          else
            (case cut_value name of (n, v) \<Rightarrow>
               if n \<notin> set flag_names then (if n = ''help'' \<or> n = ''h'' then HelpAsked else BadFlags)
               else
                 (case v of
                    Some u \<Rightarrow> (case set_flag D n u f of None \<Rightarrow> BadFlags | Some f' \<Rightarrow> parse_flags D args f')
                  | None \<Rightarrow>
                      (case args of
                         [] \<Rightarrow> BadFlags
                       | u # rest \<Rightarrow> (case set_flag D n u f of None \<Rightarrow> BadFlags | Some f' \<Rightarrow> parse_flags D rest f')))))"

text \<open>How the process ends: the exit code and what it printed on the standard output.\<close>

datatype mint_exit = FlagHelp | FlagError | UsageShown | MintFailed string | TokenPrinted string

fun exit_code :: "mint_exit \<Rightarrow> int" where
  "exit_code FlagHelp = 0"
| "exit_code FlagError = 2"
| "exit_code UsageShown = 2"
| "exit_code (MintFailed _) = 1"
| "exit_code (TokenPrinted _) = 0"

definition mint_main :: "('k, 't) mint_env \<Rightarrow> (string \<Rightarrow> int option) \<Rightarrow> string list \<Rightarrow> mint_exit" where
  "mint_main M D args =
     (case parse_flags D args mint_defaults of
        HelpAsked \<Rightarrow> FlagHelp
      | BadFlags \<Rightarrow> FlagError
      | Parsed f \<Rightarrow>
          if mf_auth f = [] \<or> mf_key f = [] then UsageShown
          else
            (case mint_token M (mf_auth f) (mf_key f) (mf_subject f) (mf_kind f) (mf_lifetime f) of
               Inl e \<Rightarrow> MintFailed e
             | Inr tok \<Rightarrow> TokenPrinted tok))"

section \<open>Lemmas\<close>

text \<open>The first active key, whatever its position; a later one is used only behind inactive ones.\<close>

lemma active_kid_split:
  "active_kid ks \<noteq> [] \<Longrightarrow> \<exists>pre k post. ks = pre @ k # post \<and> ak_status k = ''active'' \<and> ak_kid k = active_kid ks
     \<and> list_all (\<lambda>k'. ak_status k' \<noteq> ''active'') pre"
proof (induction ks)
  case (Cons k ks)
  show ?case
  proof (cases "ak_status k = ''active''")
    case True
    then show ?thesis by (intro exI [of _ "[]"]) auto
  next
    case False
    with Cons obtain pre k' post where "ks = pre @ k' # post \<and> ak_status k' = ''active'' \<and> ak_kid k' = active_kid ks
        \<and> list_all (\<lambda>k'. ak_status k' \<noteq> ''active'') pre" by auto
    with False show ?thesis by (intro exI [of _ "k # pre"] exI [of _ k'] exI [of _ post]) auto
  qed
qed simp

text \<open>A lifetime below 292 years is not changed by the 64-bit product, and is positive.\<close>

lemma token_lifetime_positive:
  "af_client_seconds af \<le> 9223372036 \<Longrightarrow> af_admin_seconds af \<le> 9223372036 \<Longrightarrow> 0 < token_lifetime af kind lifetime"
  by (auto simp: token_lifetime_def second_def hour_def)

section \<open>The flags of the command\<close>

text \<open>The arguments that pass each flag in an argument of its own, with its value in the next one.\<close>

definition mint_arguments :: "(int \<Rightarrow> string) \<Rightarrow> mint_flags \<Rightarrow> string list" where
  "mint_arguments print f = [''-auth'', mf_auth f, ''-key'', mf_key f, ''-subject'', mf_subject f,
     ''--kind'', mf_kind f, ''-lifetime'', print (mf_lifetime f)]"

lemma parse_flags_rendered:
  "D (print (mf_lifetime f)) = Some (mf_lifetime f) \<Longrightarrow> parse_flags D (mint_arguments print f) g = Parsed f"
  by (simp add: mint_arguments_def flag_names_def set_flag_def)

lemma parse_flags_inline:
  "n \<in> set flag_names \<Longrightarrow> set_flag D n v f = Some f' \<Longrightarrow>
     parse_flags D ((CHR ''-'' # n @ CHR ''='' # v) # args) f = parse_flags D args f'"
  by (auto simp: flag_names_def)

lemma active_kid_first: "active_kid (pre @ k # post) = ak_kid k"
  if "list_all (\<lambda>k'. ak_status k' \<noteq> ''active'') pre" "ak_status k = ''active''"
  using that by (induction pre) auto

lemma load_key_Inr: "load_ed25519_private_key_pem M path = Inr priv \<longleftrightarrow>
  (\<exists>pem block. me_read_file M path = Inr pem \<and> me_pem_decode M pem = Some block
     \<and> me_parse_pkcs8 M block = Inr priv \<and> me_is_ed25519 M priv)"
  by (auto simp: load_ed25519_private_key_pem_def split: sum.splits option.splits if_splits)

lemma mint_token_iff:
  "mint_token M auth_path key_path subject kind lifetime = Inr jwt \<longleftrightarrow> (\<exists>raw af priv tok key.
    me_read_file M auth_path = Inr raw \<and> me_unmarshal_auth M raw = Inr af
    \<and> load_ed25519_private_key_pem M key_path = Inr priv \<and> active_kid (af_keys af) \<noteq> []
    \<and> me_build M \<lparr>cs_issuer = af_issuer af, cs_audience = [af_audience af], cs_subject = subject,
        cs_issued_at = me_now M,
        cs_expiration = me_now M + token_lifetime af (if kind = [] then ''client'' else kind) lifetime,
        cs_kind = (if kind = [] then ''client'' else kind)\<rparr> = Inr tok
    \<and> me_import_with_kid M priv (active_kid (af_keys af)) = Inr key
    \<and> me_sign M tok key = Inr jwt)"
  by (auto simp: mint_token_def Let_def split: sum.splits if_splits)

text \<open>With both paths given the command mints what the flags ask, and exits with 0 or 1.\<close>

lemma mint_main_given:
  assumes "parse_flags D args mint_defaults = Parsed f" "mf_auth f \<noteq> []" "mf_key f \<noteq> []"
  shows "mint_main M D args = TokenPrinted jwt \<longleftrightarrow>
      mint_token M (mf_auth f) (mf_key f) (mf_subject f) (mf_kind f) (mf_lifetime f) = Inr jwt"
    and "exit_code (mint_main M D args) = (if \<exists>jwt. mint_main M D args = TokenPrinted jwt then 0 else 1)"
  using assms by (simp_all add: mint_main_def split: sum.splits)

lemma parse_flags_paths:
  "parse_flags D [''-auth'', a, ''-key'', k] mint_defaults = Parsed (mint_defaults\<lparr>mf_auth := a, mf_key := k\<rparr>)"
  by (simp add: flag_names_def set_flag_def)

lemma asked_flags:
  assumes "(args = [''-auth'', a, ''-key'', k, ''-subject'', s, ''--kind'', kd, ''-lifetime'', shown] \<and> D shown = Some d)
    \<or> (args = [''-auth'', a, ''-key'', k] \<and> s = ''integration'' \<and> kd = ''client'' \<and> d = 3600000000000)"
  shows "parse_flags D args mint_defaults =
    Parsed \<lparr>mf_auth = a, mf_key = k, mf_subject = s, mf_kind = kd, mf_lifetime = d\<rparr>"
  using assms
proof
  assume "args = [''-auth'', a, ''-key'', k, ''-subject'', s, ''--kind'', kd, ''-lifetime'', shown] \<and> D shown = Some d"
  with parse_flags_rendered [of D "\<lambda>_. shown" "\<lparr>mf_auth = a, mf_key = k, mf_subject = s, mf_kind = kd, mf_lifetime = d\<rparr>"]
  show ?thesis by (simp add: mint_arguments_def)
next
  assume "args = [''-auth'', a, ''-key'', k] \<and> s = ''integration'' \<and> kd = ''client'' \<and> d = 3600000000000"
  with parse_flags_paths [of D a k] show ?thesis by (simp add: mint_defaults_def hour_def)
qed

text \<open>What is signed, in terms of the keys of the file and the contents of the key's file.\<close>

lemma mint_token_first:
  "mint_token M a k s kd d = Inr jwt \<longleftrightarrow> (\<exists>raw af pem block priv pre ak post tok key.
     me_read_file M a = Inr raw \<and> me_unmarshal_auth M raw = Inr af
     \<and> me_read_file M k = Inr pem \<and> me_pem_decode M pem = Some block
     \<and> me_parse_pkcs8 M block = Inr priv \<and> me_is_ed25519 M priv
     \<and> af_keys af = pre @ ak # post \<and> ak_status ak = ''active'' \<and> ak_kid ak \<noteq> []
     \<and> list_all (\<lambda>k'. ak_status k' \<noteq> ''active'') pre
     \<and> me_build M \<lparr>cs_issuer = af_issuer af, cs_audience = [af_audience af], cs_subject = s,
         cs_issued_at = me_now M,
         cs_expiration = me_now M + token_lifetime af (if kd = [] then ''client'' else kd) d,
         cs_kind = (if kd = [] then ''client'' else kd)\<rparr> = Inr tok
     \<and> me_import_with_kid M priv (ak_kid ak) = Inr key \<and> me_sign M tok key = Inr jwt)"
  (is "_ \<longleftrightarrow> ?asked")
proof
  assume "mint_token M a k s kd d = Inr jwt"
  then obtain raw af priv tok key where t: "me_read_file M a = Inr raw" "me_unmarshal_auth M raw = Inr af"
    "load_ed25519_private_key_pem M k = Inr priv" "active_kid (af_keys af) \<noteq> []"
    "me_import_with_kid M priv (active_kid (af_keys af)) = Inr key" "me_sign M tok key = Inr jwt"
    and built: "me_build M \<lparr>cs_issuer = af_issuer af, cs_audience = [af_audience af], cs_subject = s,
      cs_issued_at = me_now M,
      cs_expiration = me_now M + token_lifetime af (if kd = [] then ''client'' else kd) d,
      cs_kind = (if kd = [] then ''client'' else kd)\<rparr> = Inr tok"
    unfolding mint_token_iff by blast
  from active_kid_split [OF t(4)] obtain pre ak post where "af_keys af = pre @ ak # post"
    "ak_status ak = ''active''" "ak_kid ak = active_kid (af_keys af)"
    "list_all (\<lambda>k'. ak_status k' \<noteq> ''active'') pre" by blast
  with t(1,2,4-6) t(3) [unfolded load_key_Inr] built show ?asked by metis
next
  assume ?asked
  then show "mint_token M a k s kd d = Inr jwt"
    using active_kid_first by (auto simp: mint_token_def load_ed25519_private_key_pem_def)
qed

text \<open>C38: Asked with every flag (or with the two paths alone, which means the subject integration,
  the kind client and an hour), the command prints a token exactly when the two files read and
  decode, the key is an Ed25519 one, some key of the auth file is active and the first active one
  has an id, and the JWT package builds and signs: a token of the file's issuer and audience, of the
  asked subject, of the asked kind (client when it is empty), issued now, signed under the id of
  the first active key, which expires after the asked lifetime, or, when that is not positive, after
  the file's seconds for an admin (of an admin token, when they are positive) or else for a client, or an hour.
  An empty path shows the usage with exit code 2; any other refusal exits with 1, a token with 0.\<close>

theorem mint_main_prints:
  assumes "(args = [''-auth'', a, ''-key'', k, ''-subject'', s, ''--kind'', kd, ''-lifetime'', shown] \<and> D shown = Some d)
    \<or> (args = [''-auth'', a, ''-key'', k] \<and> s = ''integration'' \<and> kd = ''client'' \<and> d = 3600000000000)"
  shows "if a = [] \<or> k = [] then mint_main M D args = UsageShown \<and> exit_code (mint_main M D args) = 2
    else (\<forall>jwt. mint_main M D args = TokenPrinted jwt \<longleftrightarrow>
        (\<exists>raw af pem block priv pre ak post tok key.
          me_read_file M a = Inr raw \<and> me_unmarshal_auth M raw = Inr af
          \<and> me_read_file M k = Inr pem \<and> me_pem_decode M pem = Some block
          \<and> me_parse_pkcs8 M block = Inr priv \<and> me_is_ed25519 M priv
          \<and> af_keys af = pre @ ak # post \<and> ak_status ak = ''active'' \<and> ak_kid ak \<noteq> []
          \<and> list_all (\<lambda>k'. ak_status k' \<noteq> ''active'') pre
          \<and> me_build M \<lparr>cs_issuer = af_issuer af, cs_audience = [af_audience af], cs_subject = s,
              cs_issued_at = me_now M,
              cs_expiration = me_now M +
                (if 0 < d then d
                 else if kd = ''admin'' \<and> 0 < af_admin_seconds af then int64_wrap (af_admin_seconds af * 1000000000)
                 else if 0 < af_client_seconds af then int64_wrap (af_client_seconds af * 1000000000)
                 else 3600000000000),
              cs_kind = (if kd = [] then ''client'' else kd)\<rparr> = Inr tok
          \<and> me_import_with_kid M priv (ak_kid ak) = Inr key \<and> me_sign M tok key = Inr jwt))
      \<and> exit_code (mint_main M D args) = (if \<exists>jwt. mint_main M D args = TokenPrinted jwt then 0 else 1)"
proof (cases "a = [] \<or> k = []")
  case True
  then show ?thesis using asked_flags [where D = D, OF assms] by (auto simp: mint_main_def)
next
  case False
  have life: "token_lifetime af (if kd = [] then ''client'' else kd) d =
      (if 0 < d then d
       else if kd = ''admin'' \<and> 0 < af_admin_seconds af then int64_wrap (af_admin_seconds af * 1000000000)
       else if 0 < af_client_seconds af then int64_wrap (af_client_seconds af * 1000000000)
       else 3600000000000)" for af
    by (simp add: token_lifetime_def second_def hour_def)
  have given: "mint_main M D args = TokenPrinted jwt \<longleftrightarrow> mint_token M a k s kd d = Inr jwt" for jwt
    using mint_main_given(1) [OF asked_flags [where D = D, OF assms], of M jwt] False by simp
  from False show ?thesis
    using given mint_token_first [of M a k s kd d, unfolded life] mint_main_given(2) [OF asked_flags [where D = D, OF assms], of M]
    by simp
qed

text \<open>An auth file with two active keys behind an inactive one, and a JWT package whose token
  shows who signed it and for how many seconds.\<close>

definition two_active :: auth_file where
  "two_active = \<lparr>af_issuer = ''iss'', af_audience = ''aud'', af_client_seconds = 600, af_machine_seconds = 0, af_admin_seconds = 60,
     af_keys = [\<lparr>ak_kid = ''k0'', ak_alg = ''EdDSA'', ak_status = ''retired'', ak_public_key = []\<rparr>,
       \<lparr>ak_kid = ''k1'', ak_alg = ''EdDSA'', ak_status = ''active'', ak_public_key = []\<rparr>,
       \<lparr>ak_kid = ''k2'', ak_alg = ''EdDSA'', ak_status = ''active'', ak_public_key = []\<rparr>]\<rparr>"

definition shown_signer :: "(string, claims) mint_env" where
  "shown_signer = \<lparr>me_read_file = (\<lambda>p. if p = ''auth.json'' \<or> p = ''key.pem'' then Inr p else Inl ''no such file''),
     me_unmarshal_auth = (\<lambda>raw. Inr two_active), me_pem_decode = Some, me_parse_pkcs8 = Inr, me_is_ed25519 = (\<lambda>_. True),
     me_now = 0, me_build = Inr, me_import_with_kid = (\<lambda>_ kid. Inr kid),
     me_sign = (\<lambda>t key. Inr (key @ ''/'' @ cs_kind t @ replicate (nat (cs_expiration t div 60000000000)) CHR ''m''))\<rparr>"

theorem mint_main_prints_witness:
  "mint_main shown_signer (\<lambda>_. Some 0) [''-auth'', ''auth.json'', ''-key'', ''key.pem'', ''-subject'', ''me'', ''--kind'', ''admin'',
      ''-lifetime'', ''0s''] = TokenPrinted ''k1/adminm''
   \<and> (\<exists>pre ak post. af_keys two_active = pre @ ak # post \<and> ak_status ak = ''active''
        \<and> list_all (\<lambda>k'. ak_status k' \<noteq> ''active'') pre)
   \<and> mint_main shown_signer (\<lambda>_. Some 0) [''-auth'', ''auth.json'', ''-key'', ''key.pem''] =
        TokenPrinted (''k1/client'' @ replicate 60 CHR ''m'')
   \<and> exit_code (mint_main shown_signer (\<lambda>_. Some 0) [''-auth'', ''auth.json'', ''-key'', ''key.pem'']) = 0"
proof (intro conjI)
  show asked: "mint_main shown_signer (\<lambda>_. Some 0) [''-auth'', ''auth.json'', ''-key'', ''key.pem'', ''-subject'', ''me'', ''--kind'', ''admin'',
      ''-lifetime'', ''0s''] = TokenPrinted ''k1/adminm''"
    and short: "mint_main shown_signer (\<lambda>_. Some 0) [''-auth'', ''auth.json'', ''-key'', ''key.pem''] =
      TokenPrinted (''k1/client'' @ replicate 60 CHR ''m'')"
    by code_simp+
  show "\<exists>pre ak post. af_keys two_active = pre @ ak # post \<and> ak_status ak = ''active''
      \<and> list_all (\<lambda>k'. ak_status k' \<noteq> ''active'') pre"
    using mint_main_prints [of "[''-auth'', ''auth.json'', ''-key'', ''key.pem'', ''-subject'', ''me'', ''--kind'', ''admin'', ''-lifetime'', ''0s'']"
      "''auth.json''" "''key.pem''" "''me''" "''admin''" "''0s''" "\<lambda>_. Some 0" 0 shown_signer] asked
    by (auto simp: shown_signer_def)
  show "exit_code (mint_main shown_signer (\<lambda>_. Some 0) [''-auth'', ''auth.json'', ''-key'', ''key.pem'']) = 0"
    using mint_main_prints [of "[''-auth'', ''auth.json'', ''-key'', ''key.pem'']" "''auth.json''" "''key.pem''" "''integration''" "''client''" "''1h''"
      "\<lambda>_. Some 0" 3600000000000 shown_signer] short
    by simp
qed

end
