(* ===== verification/Cache.thy ===== *)
theory Cache
  imports Main
begin

text \<open>
  The establishment cache of a client (\<open>establishmentCache\<close> in establish.go) used by any number of
  goroutines. The calls of \<open>get\<close> and \<open>set\<close> are broken into the steps of the code: the call, the
  acquisition of the \<open>sync.RWMutex\<close>, the access to the field, the release by the deferred unlock
  with the return. The scheduler picks any goroutine that can move. A store to the field is two
  steps, and what it holds in between is \<open>Torn\<close>: an access that is not excluded by the lock
  would find it. The state records the calls, the returns and the stores in a log, which no step
  reads. The result is that \<open>get\<close> and \<open>set\<close> are atomic, which Shared relies on.
\<close>

section \<open>State and steps\<close>

datatype 'a cell = Value 'a | Torn

datatype 'a pc =
    Idle
  | GetWaits
  | GetHolds
  | GetLoaded "'a cell"
  | SetWaits 'a
  | SetHolds 'a
  | SetStores 'a
  | SetStored

datatype 'a cache_call =
    GetCall nat
  | GetReturn nat "'a cell"
  | SetCall nat 'a
  | Stored nat 'a
  | SetReturn nat

text \<open>The lock is held by some readers or by one writer.\<close>

record 'a cache =
  ca_cfg :: "'a cell"
  ca_readers :: "nat set"
  ca_writer :: "nat option"
  ca_pcs :: "nat \<Rightarrow> 'a pc"
  ca_log :: "'a cache_call list"

definition new_cache :: "'a \<Rightarrow> 'a cache" where
  "new_cache v = \<lparr>ca_cfg = Value v, ca_readers = {}, ca_writer = None, ca_pcs = (\<lambda>_. Idle), ca_log = []\<rparr>"

abbreviation moves_to :: "'a cache \<Rightarrow> nat \<Rightarrow> 'a pc \<Rightarrow> 'a cache" where
  "moves_to s i p \<equiv> s\<lparr>ca_pcs := (ca_pcs s)(i := p)\<rparr>"

abbreviation logs :: "'a cache \<Rightarrow> 'a cache_call \<Rightarrow> 'a cache" where
  "logs s e \<equiv> s\<lparr>ca_log := ca_log s @ [e]\<rparr>"

inductive cache_get :: "nat \<Rightarrow> 'a cache \<Rightarrow> 'a cache \<Rightarrow> bool" for i s where
  get_call: "ca_pcs s i = Idle \<Longrightarrow> cache_get i s (logs (moves_to s i GetWaits) (GetCall i))"
| get_rlock: "ca_pcs s i = GetWaits \<Longrightarrow> ca_writer s = None \<Longrightarrow>
    cache_get i s ((moves_to s i GetHolds)\<lparr>ca_readers := insert i (ca_readers s)\<rparr>)"
| get_load: "ca_pcs s i = GetHolds \<Longrightarrow> cache_get i s (moves_to s i (GetLoaded (ca_cfg s)))"
| get_return: "ca_pcs s i = GetLoaded v \<Longrightarrow>
    cache_get i s (logs ((moves_to s i Idle)\<lparr>ca_readers := ca_readers s - {i}\<rparr>) (GetReturn i v))"

inductive cache_set :: "nat \<Rightarrow> 'a cache \<Rightarrow> 'a cache \<Rightarrow> bool" for i s where
  set_call: "ca_pcs s i = Idle \<Longrightarrow> cache_set i s (logs (moves_to s i (SetWaits v)) (SetCall i v))"
| set_lock: "ca_pcs s i = SetWaits v \<Longrightarrow> ca_writer s = None \<Longrightarrow> ca_readers s = {} \<Longrightarrow>
    cache_set i s ((moves_to s i (SetHolds v))\<lparr>ca_writer := Some i\<rparr>)"
| set_begin: "ca_pcs s i = SetHolds v \<Longrightarrow> cache_set i s ((moves_to s i (SetStores v))\<lparr>ca_cfg := Torn\<rparr>)"
| set_end: "ca_pcs s i = SetStores v \<Longrightarrow>
    cache_set i s (logs ((moves_to s i SetStored)\<lparr>ca_cfg := Value v\<rparr>) (Stored i v))"
| set_return: "ca_pcs s i = SetStored \<Longrightarrow>
    cache_set i s (logs ((moves_to s i Idle)\<lparr>ca_writer := None\<rparr>) (SetReturn i))"

inductive cache_step :: "'a cache \<Rightarrow> 'a cache \<Rightarrow> bool" where
  by_get: "cache_get i s t \<Longrightarrow> cache_step s t"
| by_set: "cache_set i s t \<Longrightarrow> cache_step s t"

abbreviation cache_runs :: "'a \<Rightarrow> 'a cache \<Rightarrow> bool" where
  "cache_runs v0 s \<equiv> cache_step\<^sup>*\<^sup>* (new_cache v0) s"

lemmas cache_moves = cache_get.intros [THEN by_get] cache_set.intros [THEN by_set]

section \<open>The lock\<close>

text \<open>
  The holders are the goroutines inside a critical section, a writer excludes all others, and
  the field is torn only between the two steps of the writer's store.
\<close>

fun in_read :: "'a pc \<Rightarrow> bool" where
  "in_read GetHolds = True" | "in_read (GetLoaded _) = True" | "in_read _ = False"

fun in_write :: "'a pc \<Rightarrow> bool" where
  "in_write (SetHolds _) = True" | "in_write (SetStores _) = True" | "in_write SetStored = True" | "in_write _ = False"

definition lock_inv :: "'a cache \<Rightarrow> bool" where
  "lock_inv s \<longleftrightarrow>
     (\<forall>i. (i \<in> ca_readers s) = in_read (ca_pcs s i)) \<and> (\<forall>i. (ca_writer s = Some i) = in_write (ca_pcs s i))
     \<and> (ca_writer s \<noteq> None \<longrightarrow> ca_readers s = {})
     \<and> (ca_cfg s = Torn \<longrightarrow> (\<exists>i v. ca_pcs s i = SetStores v))"

lemma lock_inv_writer: "lock_inv s \<Longrightarrow> in_write (ca_pcs s i) \<Longrightarrow> in_write (ca_pcs s j) \<Longrightarrow> i = j"
  by (metis lock_inv_def option.inject)

lemma lock_inv_reader: "lock_inv s \<Longrightarrow> in_read (ca_pcs s i) \<Longrightarrow> \<not> in_write (ca_pcs s j)"
  by (metis lock_inv_def empty_iff option.distinct(1))

lemma lock_inv_get: "cache_get i s t \<Longrightarrow> lock_inv s \<Longrightarrow> lock_inv t"
  by (induction rule: cache_get.induct) (auto simp: lock_inv_def; metis in_read.simps in_write.simps)+

lemma lock_inv_set: "cache_set i s t \<Longrightarrow> lock_inv s \<Longrightarrow> lock_inv t"
proof (induction rule: cache_set.induct)
  case set_return
  then have "\<not> in_write (ca_pcs s j)" if "j \<noteq> i" for j
    using that lock_inv_writer [of s i j] by auto
  moreover have "ca_pcs s j \<noteq> SetStores v" for j v
    using calculation [of j] set_return.hyps by (cases "j = i") auto
  ultimately show ?case using set_return by (auto simp: lock_inv_def)
qed (auto simp: lock_inv_def; metis in_read.simps in_write.simps)+

lemma lock_inv_step: "cache_step s t \<Longrightarrow> lock_inv s \<Longrightarrow> lock_inv t"
  by (cases rule: cache_step.cases) (auto intro: lock_inv_get lock_inv_set)

lemma lock_inv_init: "lock_inv (new_cache v)"
  by (simp add: lock_inv_def new_cache_def)

lemma lock_inv_runs: "cache_runs v s \<Longrightarrow> lock_inv s"
  by (induction rule: rtranclp_induct) (auto intro: lock_inv_init lock_inv_step)

section \<open>The register\<close>

text \<open>
  The specification: the value of a register after the stores of a log. A value is held during a
  call when the register has it after some part of the log between the call and its return.
\<close>

fun register :: "'a \<Rightarrow> 'a cache_call list \<Rightarrow> 'a" where
  "register v0 [] = v0"
| "register v0 (Stored i v # cs) = register v cs"
| "register v0 (_ # cs) = register v0 cs"

fun call_of :: "'a cache_call \<Rightarrow> nat" where
  "call_of (GetCall i) = i" | "call_of (GetReturn i v) = i" | "call_of (SetCall i v) = i"
| "call_of (Stored i v) = i" | "call_of (SetReturn i) = i"

definition open_call :: "'a cache_call \<Rightarrow> nat \<Rightarrow> 'a cache_call list \<Rightarrow> 'a cache_call list \<Rightarrow> 'a cache_call list \<Rightarrow> bool" where
  "open_call c i l xs ys \<longleftrightarrow> l = xs @ c # ys \<and> (\<forall>d \<in> set ys. call_of d = i \<longrightarrow> (\<exists>w. d = Stored i w))"

definition held_since_call :: "'a \<Rightarrow> nat \<Rightarrow> 'a cache_call list \<Rightarrow> 'a \<Rightarrow> bool" where
  "held_since_call v0 i l v \<longleftrightarrow>
     (\<exists>xs ys zs. open_call (GetCall i) i l xs (ys @ zs) \<and> register v0 (xs @ GetCall i # ys) = v)"

definition stored_since_call :: "nat \<Rightarrow> 'a cache_call list \<Rightarrow> bool" where
  "stored_since_call i l \<longleftrightarrow>
     (\<exists>v xs ys. open_call (SetCall i v) i l xs ys \<and> filter (\<lambda>c. \<exists>w. c = Stored i w) ys = [Stored i v])"

lemma register_append [simp]: "register v0 (xs @ ys) = register (register v0 xs) ys"
  by (induction v0 xs rule: register.induct) auto

fun return_ok :: "'a \<Rightarrow> 'a cache_call list \<Rightarrow> 'a cache_call \<Rightarrow> bool" where
  "return_ok v0 l (GetReturn i u) = (\<exists>v. u = Value v \<and> held_since_call v0 i l v)"
| "return_ok v0 l (SetReturn i) = stored_since_call i l"
| "return_ok v0 l _ = True"

definition atomic_log :: "'a \<Rightarrow> 'a cache_call list \<Rightarrow> bool" where
  "atomic_log v0 l \<longleftrightarrow> (\<forall>n < length l. return_ok v0 (take n l) (l ! n))"

lemma atomic_log_Nil: "atomic_log v0 []"
  by (simp add: atomic_log_def)

lemma atomic_log_snoc: "atomic_log v0 (l @ [c]) \<longleftrightarrow> atomic_log v0 l \<and> return_ok v0 l c"
  by (auto simp: atomic_log_def All_less_Suc nth_append)

text \<open>What the log says of a goroutine at each point of its call.\<close>

fun pc_inv :: "'a \<Rightarrow> 'a cache_call list \<Rightarrow> nat \<Rightarrow> 'a pc \<Rightarrow> bool" where
  "pc_inv v0 l i Idle = True"
| "pc_inv v0 l i GetWaits = (\<exists>xs ys. open_call (GetCall i) i l xs ys)"
| "pc_inv v0 l i GetHolds = (\<exists>xs ys. open_call (GetCall i) i l xs ys)"
| "pc_inv v0 l i (GetLoaded u) = (\<exists>v. u = Value v \<and> held_since_call v0 i l v)"
| "pc_inv v0 l i SetStored = stored_since_call i l"
| "pc_inv v0 l i (SetWaits v) = (\<exists>xs ys. open_call (SetCall i v) i l xs ys \<and> (\<forall>w. Stored i w \<notin> set ys))"
| "pc_inv v0 l i (SetHolds v) = (\<exists>xs ys. open_call (SetCall i v) i l xs ys \<and> (\<forall>w. Stored i w \<notin> set ys))"
| "pc_inv v0 l i (SetStores v) = (\<exists>xs ys. open_call (SetCall i v) i l xs ys \<and> (\<forall>w. Stored i w \<notin> set ys))"

lemma open_call_snoc:
  "open_call c i l xs ys \<Longrightarrow> call_of d \<noteq> i \<or> (\<exists>w. d = Stored i w) \<Longrightarrow>
     open_call c i (l @ [d]) xs (ys @ [d])"
  by (auto simp: open_call_def)

lemma open_call_new: "open_call c i (l @ [c]) l []"
  by (simp add: open_call_def)

lemma waiting_new: "\<exists>xs ys. open_call c i (l @ [c]) xs ys \<and> (\<forall>w. Stored i w \<notin> set ys)"
  using open_call_new by fastforce

lemma held_snoc: "held_since_call v0 i l v \<Longrightarrow> call_of d \<noteq> i \<Longrightarrow> held_since_call v0 i (l @ [d]) v"
  unfolding held_since_call_def by (metis append.assoc open_call_snoc)

lemma held_now: "open_call (GetCall i) i l xs ys \<Longrightarrow> held_since_call v0 i l (register v0 l)"
  unfolding held_since_call_def open_call_def by (metis append.right_neutral)

lemma stored_now:
  assumes "open_call (SetCall i v) i l xs ys" "\<forall>w. Stored i w \<notin> set ys"
  shows "stored_since_call i (l @ [Stored i v])"
proof -
  have "open_call (SetCall i v) i (l @ [Stored i v]) xs (ys @ [Stored i v])"
    using assms(1) by (rule open_call_snoc) simp
  moreover have "filter (\<lambda>c. \<exists>w. c = Stored i w) ys = []"
    by (rule filter_False) (use assms(2) in auto)
  ultimately show ?thesis
    unfolding stored_since_call_def
    by (intro exI [of _ v] exI [of _ xs] exI [of _ "ys @ [Stored i v]"]) simp
qed

lemma stored_snoc: "stored_since_call i l \<Longrightarrow> call_of d \<noteq> i \<Longrightarrow> stored_since_call i (l @ [d])"
  unfolding stored_since_call_def using open_call_snoc by fastforce

lemma waiting_snoc:
  assumes "\<exists>xs ys. open_call c i l xs ys \<and> (\<forall>w. Stored i w \<notin> set ys)" "call_of d \<noteq> i"
  shows "\<exists>xs ys. open_call c i (l @ [d]) xs ys \<and> (\<forall>w. Stored i w \<notin> set ys)"
proof -
  from assms(1) obtain xs ys where "open_call c i l xs ys" "\<forall>w. Stored i w \<notin> set ys" by blast
  then have "open_call c i (l @ [d]) xs (ys @ [d])" "\<forall>w. Stored i w \<notin> set (ys @ [d])"
    using assms(2) by (auto intro: open_call_snoc)
  then show ?thesis by blast
qed

lemma pc_inv_snoc: "pc_inv v0 l i p \<Longrightarrow> call_of d \<noteq> i \<Longrightarrow> pc_inv v0 (l @ [d]) i p"
  by (cases p) (auto intro: held_snoc stored_snoc waiting_snoc dest: open_call_snoc)

definition atomic_inv :: "'a \<Rightarrow> 'a cache \<Rightarrow> bool" where
  "atomic_inv v0 s \<longleftrightarrow> atomic_log v0 (ca_log s) \<and> (\<forall>i. pc_inv v0 (ca_log s) i (ca_pcs s i))
     \<and> (ca_cfg s = Torn \<or> ca_cfg s = Value (register v0 (ca_log s)))"

lemma atomic_inv_init: "atomic_inv v0 (new_cache v0)"
  by (simp add: atomic_inv_def new_cache_def atomic_log_Nil)

lemma atomic_inv_get:
  assumes "cache_get i s t" "atomic_inv v0 s" "lock_inv s"
  shows "atomic_inv v0 t"
  using assms
proof (induction rule: cache_get.induct)
  case get_call
  then show ?case
    by (auto simp: atomic_inv_def atomic_log_snoc pc_inv_snoc intro: open_call_new)
next
  case get_rlock
  have "pc_inv v0 (ca_log s) i GetWaits" using get_rlock by (metis atomic_inv_def)
  then show ?case using get_rlock by (auto simp: atomic_inv_def)
next
  case get_load
  have "ca_cfg s \<noteq> Torn"
    using get_load lock_inv_reader [of s i] by (metis lock_inv_def in_read.simps(1) in_write.simps(2))
  then have "ca_cfg s = Value (register v0 (ca_log s))" using get_load by (auto simp: atomic_inv_def)
  moreover have "pc_inv v0 (ca_log s) i GetHolds" using get_load by (metis atomic_inv_def)
  ultimately show ?case using get_load by (auto simp: atomic_inv_def intro: held_now)
next
  case (get_return v)
  have "pc_inv v0 (ca_log s) i (GetLoaded v)" using get_return by (metis atomic_inv_def)
  then show ?case using get_return by (auto simp: atomic_inv_def atomic_log_snoc pc_inv_snoc)
qed

lemma atomic_inv_set:
  assumes "cache_set i s t" "atomic_inv v0 s" "lock_inv s"
  shows "atomic_inv v0 t"
  using assms
proof (induction rule: cache_set.induct)
  case (set_call v)
  then show ?case
    by (auto simp: atomic_inv_def atomic_log_snoc pc_inv_snoc intro: waiting_new)
next
  case (set_lock v)
  have "pc_inv v0 (ca_log s) i (SetWaits v)" using set_lock by (metis atomic_inv_def)
  then show ?case using set_lock by (auto simp: atomic_inv_def)
next
  case (set_begin v)
  have "pc_inv v0 (ca_log s) i (SetHolds v)" using set_begin by (metis atomic_inv_def)
  then show ?case using set_begin by (auto simp: atomic_inv_def)
next
  case (set_end v)
  have "pc_inv v0 (ca_log s) i (SetStores v)" using set_end by (metis atomic_inv_def)
  then show ?case using set_end
    by (auto simp: atomic_inv_def atomic_log_snoc pc_inv_snoc intro: stored_now)
next
  case set_return
  have "pc_inv v0 (ca_log s) i SetStored" using set_return by (metis atomic_inv_def)
  then show ?case using set_return by (auto simp: atomic_inv_def atomic_log_snoc pc_inv_snoc)
qed

lemma atomic_inv_runs: "cache_runs v0 s \<Longrightarrow> atomic_inv v0 s"
proof (induction rule: rtranclp_induct)
  case base
  show ?case by (rule atomic_inv_init)
next
  case (step s t)
  then show ?case
    using lock_inv_runs [OF step.hyps(1)]
    by (auto elim!: cache_step.cases intro: atomic_inv_get atomic_inv_set)
qed

section \<open>Properties\<close>

text \<open>C4: The cache is atomic. In every interleaving of any number of goroutines each \<open>get\<close> returns a
  value the field really had at some moment between its call and its return (never one that is
  being stored), and each \<open>set\<close> stores its value exactly once between its call and its return;
  a goroutine that stores excludes all others.\<close>

theorem cache_atomic:
  assumes "cache_runs v0 s"
  shows "atomic_log v0 (ca_log s)
    \<and> (\<forall>i j. in_write (ca_pcs s i) \<longrightarrow> i \<noteq> j \<longrightarrow> \<not> in_write (ca_pcs s j) \<and> \<not> in_read (ca_pcs s j))"
  using atomic_inv_runs [OF assms] lock_inv_runs [OF assms] lock_inv_writer lock_inv_reader
  unfolding atomic_inv_def by metis

text \<open>Calls that meet a free lock run to their end.\<close>

lemma set_alone:
  assumes "ca_pcs s i = Idle" "ca_writer s = None" "ca_readers s = {}"
  shows "cache_step\<^sup>*\<^sup>* s (s\<lparr>ca_cfg := Value v, ca_log := ca_log s @ [SetCall i v, Stored i v, SetReturn i]\<rparr>)"
proof -
  define s1 where "s1 = logs (moves_to s i (SetWaits v)) (SetCall i v)"
  define s2 where "s2 = (moves_to s1 i (SetHolds v))\<lparr>ca_writer := Some i\<rparr>"
  define s3 where "s3 = (moves_to s2 i (SetStores v))\<lparr>ca_cfg := Torn\<rparr>"
  define s4 where "s4 = logs ((moves_to s3 i SetStored)\<lparr>ca_cfg := Value v\<rparr>) (Stored i v)"
  define s5 where "s5 = logs ((moves_to s4 i Idle)\<lparr>ca_writer := None\<rparr>) (SetReturn i)"
  have step1: "cache_step s s1" unfolding s1_def
    by (rule cache_moves) (simp_all add:  assms)
  have step2: "cache_step s1 s2" unfolding s2_def
    by (rule cache_moves) (simp_all add: s1_def assms)
  have step3: "cache_step s2 s3" unfolding s3_def
    by (rule cache_moves) (simp_all add: s1_def s2_def assms)
  have step4: "cache_step s3 s4" unfolding s4_def
    by (rule cache_moves) (simp_all add: s1_def s2_def s3_def assms)
  have step5: "cache_step s4 s5" unfolding s5_def
    by (rule cache_moves) (simp_all add: s1_def s2_def s3_def s4_def assms)
  have "cache_step\<^sup>*\<^sup>* s s5"
    using step1 step2 step3 step4 step5 by (meson r_into_rtranclp rtranclp_trans)
  then show ?thesis
    using assms by (cases s) (simp add: s1_def s2_def s3_def s4_def s5_def fun_upd_idem)
qed

lemma get_alone:
  assumes "ca_pcs s i = Idle" "ca_writer s = None" "ca_readers s = {}"
  shows "cache_step\<^sup>*\<^sup>* s (s\<lparr>ca_log := ca_log s @ [GetCall i, GetReturn i (ca_cfg s)]\<rparr>)"
proof -
  define s1 where "s1 = logs (moves_to s i GetWaits) (GetCall i)"
  define s2 where "s2 = (moves_to s1 i GetHolds)\<lparr>ca_readers := insert i (ca_readers s1)\<rparr>"
  define s3 where "s3 = moves_to s2 i (GetLoaded (ca_cfg s2))"
  define s4 where "s4 = logs ((moves_to s3 i Idle)\<lparr>ca_readers := ca_readers s3 - {i}\<rparr>) (GetReturn i (ca_cfg s2))"
  have step1: "cache_step s s1" unfolding s1_def
    by (rule cache_moves) (simp_all add:  assms)
  have step2: "cache_step s1 s2" unfolding s2_def
    by (rule cache_moves) (simp_all add: s1_def assms)
  have step3: "cache_step s2 s3" unfolding s3_def
    by (rule cache_moves) (simp_all add: s1_def s2_def assms)
  have step4: "cache_step s3 s4" unfolding s4_def
    by (rule cache_moves) (simp_all add: s1_def s2_def s3_def assms)
  have "cache_step\<^sup>*\<^sup>* s s4"
    using step1 step2 step3 step4 by (meson r_into_rtranclp rtranclp_trans)
  then show ?thesis
    using assms by (cases s) (simp add: s1_def s2_def s3_def s4_def fun_upd_idem)
qed

theorem cache_atomic_witness:
  "atomic_log (5::nat) [SetCall 0 7, Stored 0 7, SetReturn 0, GetCall 1, GetReturn 1 (Value 7)]"
proof -
  let ?c = "(new_cache (5::nat))\<lparr>ca_cfg := Value 7, ca_log := [SetCall 0 7, Stored 0 7, SetReturn 0]\<rparr>"
  have "cache_runs 5 ?c" using set_alone [of "new_cache (5::nat)" 0 7] by (simp add: new_cache_def)
  then have "cache_runs 5 (?c\<lparr>ca_log := ca_log ?c @ [GetCall 1, GetReturn 1 (Value 7)]\<rparr>)"
    using get_alone [of ?c 1] by (simp add: new_cache_def)
  from cache_atomic [OF this] show ?thesis by simp
qed

text \<open>C21: The lock cannot deadlock. While any goroutine is inside a call of \<open>get\<close> or \<open>set\<close>, some
  goroutine inside a call can make a step.\<close>

theorem cache_progress:
  assumes "cache_runs v0 s" "ca_pcs s i \<noteq> Idle"
  shows "\<exists>j t. ca_pcs s j \<noteq> Idle \<and> (cache_get j s t \<or> cache_set j s t)"
proof -
  note inv = lock_inv_runs [OF assms(1)]
  have moving: ?thesis if "in_read (ca_pcs s j) \<or> in_write (ca_pcs s j)" for j
    using that by (cases "ca_pcs s j") (auto intro!: exI [of _ j] dest: get_load get_return set_begin set_end set_return)
  show ?thesis
  proof (cases "\<exists>j. in_read (ca_pcs s j) \<or> in_write (ca_pcs s j)")
    case False
    then have "ca_writer s = None" "ca_readers s = {}" "\<not> in_read (ca_pcs s i)" "\<not> in_write (ca_pcs s i)"
      using inv by (auto simp: lock_inv_def)
    then show ?thesis
      using assms(2) by (cases "ca_pcs s i") (auto intro!: exI [of _ i] dest: get_rlock set_lock)
  qed (use moving in blast)
qed

theorem cache_progress_witness:
  "\<exists>j t. cache_get j (logs (moves_to (new_cache (0::nat)) 3 GetWaits) (GetCall 3)) t
      \<or> cache_set j (logs (moves_to (new_cache (0::nat)) 3 GetWaits) (GetCall 3)) t"
proof -
  let ?c = "logs (moves_to (new_cache (0::nat)) 3 GetWaits) (GetCall 3)"
  have "cache_runs 0 ?c" by (rule r_into_rtranclp, rule cache_moves) (simp add: new_cache_def)
  from cache_progress [OF this, of 3] show ?thesis by (auto simp: new_cache_def)
qed

end
