(* ===== verification/Shared.thy ===== *)
theory Shared
  imports Typed Cache
begin

text \<open>
  Several goroutines on one client. A client has one shared mutable field, the establishment
  cache; everything else it holds is fixed by New. An operation is a program whose steps are the
  atomic accesses to the cache (Cache shows that \<open>get\<close> and \<open>set\<close> are atomic) and, between them,
  the requests, which leave the cache alone. The operations of the code that use the cache are
  written as such programs; run without interference they are the definitions of Client, Command,
  Crud and Typed. A schedule is a list of goroutine numbers and says who makes the next step.
\<close>

section \<open>Programs\<close>

datatype ('a, 'j, 'w) prog =
    Return 'a
  | Get "'j establishment option \<Rightarrow> ('a, 'j, 'w) prog"
  | Put "'j establishment" "('a, 'j, 'w) prog"
  | Fetch "('j, 'w) state \<Rightarrow> ('j err + 'j establishment) \<times> ('j, 'w) state"
      "'j err + 'j establishment \<Rightarrow> ('a, 'j, 'w) prog"
  | Post "('j, 'w) state \<Rightarrow> ('j result \<times> 'j err option) \<times> ('j, 'w) state"
      "'j result \<times> 'j err option \<Rightarrow> ('a, 'j, 'w) prog"

fun prog_step :: "('a, 'j, 'w) prog \<Rightarrow> ('j, 'w) state \<Rightarrow> ('a, 'j, 'w) prog \<times> ('j, 'w) state" where
  "prog_step (Return a) st = (Return a, st)"
| "prog_step (Get k) st = (k (st_cache st), st)"
| "prog_step (Put est p) st = (p, st\<lparr>st_cache := Some est\<rparr>)"
| "prog_step (Fetch f k) st = (case f st of (x, st') \<Rightarrow> (k x, st'))"
| "prog_step (Post f k) st = (case f st of (x, st') \<Rightarrow> (k x, st'))"

primrec after :: "('a, 'j, 'w) prog \<Rightarrow> ('a \<Rightarrow> ('b, 'j, 'w) prog) \<Rightarrow> ('b, 'j, 'w) prog" where
  "after (Return a) h = h a"
| "after (Get k) h = Get (\<lambda>x. after (k x) h)"
| "after (Put est p) h = Put est (after p h)"
| "after (Fetch f k) h = Fetch f (\<lambda>x. after (k x) h)"
| "after (Post f k) h = Post f (\<lambda>x. after (k x) h)"

text \<open>A program on its own, and the programs of all goroutines under a schedule.\<close>

primrec exec :: "('a, 'j, 'w) prog \<Rightarrow> ('j, 'w) state \<Rightarrow> 'a \<times> ('j, 'w) state" where
  "exec (Return a) = (\<lambda>st. (a, st))"
| "exec (Get k) = (\<lambda>st. exec (k (st_cache st)) st)"
| "exec (Put est p) = (\<lambda>st. exec p (st\<lparr>st_cache := Some est\<rparr>))"
| "exec (Fetch f k) = (\<lambda>st. case f st of (x, st') \<Rightarrow> exec (k x) st')"
| "exec (Post f k) = (\<lambda>st. case f st of (x, st') \<Rightarrow> exec (k x) st')"

fun interleave :: "nat list \<Rightarrow> (nat \<Rightarrow> ('a, 'j, 'w) prog) \<Rightarrow> ('j, 'w) state
    \<Rightarrow> (nat \<Rightarrow> ('a, 'j, 'w) prog) \<times> ('j, 'w) state" where
  "interleave [] ps st = (ps, st)"
| "interleave (i # is) ps st =
     (case prog_step (ps i) st of (p, st') \<Rightarrow> interleave is (ps(i := p)) st')"

lemma exec_after: "exec (after p h) st = (case exec p st of (a, st') \<Rightarrow> exec (h a) st')"
  by (induction p arbitrary: st) (auto split: prod.splits)

section \<open>The operations\<close>

text \<open>Establish, up to the point where the document is stored.\<close>

definition fetch_establishment :: "'w env \<Rightarrow> 'j ojson \<Rightarrow> ('j, 'w) client \<Rightarrow> collection_ref option list
    \<Rightarrow> ('j, 'w) state \<Rightarrow> ('j err + 'j establishment) \<times> ('j, 'w) state" where
  "fetch_establishment E J c cols st =
     (case do_json E J c ''GET'' (cf_establishment_url (cl_cfg c)) (api_prefix @ ''/establish'') None [] True st of
        ((res, Some e), st') \<Rightarrow> (Inl e, st')
      | ((res, None), st') \<Rightarrow>
          (case parse_establishment J res of
             Inl e \<Rightarrow> (Inl e, st')
           | Inr est \<Rightarrow>
               (case validate_catalog (Some est) cols of
                  Some e \<Rightarrow> (Inl e, st')
                | None \<Rightarrow> (Inr est, st'))))"

definition establish_prog :: "'w env \<Rightarrow> 'j ojson \<Rightarrow> ('j, 'w) client \<Rightarrow> collection_ref option list
    \<Rightarrow> ('j err option, 'j, 'w) prog" where
  "establish_prog E J c cols =
     Fetch (fetch_establishment E J c cols)
       (\<lambda>x. case x of Inl e \<Rightarrow> Return (Some e) | Inr est \<Rightarrow> Put est (Return None))"

definition ensure_prog :: "'w env \<Rightarrow> 'j ojson \<Rightarrow> ('j, 'w) client \<Rightarrow> ('j err + 'j establishment, 'j, 'w) prog" where
  "ensure_prog E J c =
     Get (\<lambda>cached. case cached of
            Some est \<Rightarrow> Return (Inr est)
          | None \<Rightarrow> after (establish_prog E J c []) (\<lambda>err. case err of
                      Some e \<Rightarrow> Return (Inl e)
                    | None \<Rightarrow> Get (\<lambda>cached'. case cached' of
                                None \<Rightarrow> Return (Inl (EMsg ''datorium: establishment cache empty after fetch'' []))
                              | Some est \<Rightarrow> Return (Inr est))))"

definition base_address :: "('j, 'w) client \<Rightarrow> 'j establishment \<Rightarrow> string" where
  "base_address c est =
     (let name = gc_establishment_server (es_general est); u = server_base_url (Some est) name in
      if u = [] then cf_establishment_url (cl_cfg c) else rewrite_url c name u)"

definition base_prog :: "'w env \<Rightarrow> 'j ojson \<Rightarrow> ('j, 'w) client \<Rightarrow> ('j err + string, 'j, 'w) prog" where
  "base_prog E J c =
     Get (\<lambda>cached. case cached of
            Some est \<Rightarrow> Return (Inr (base_address c est))
          | None \<Rightarrow> after (establish_prog E J c []) (\<lambda>err. case err of
                      Some e \<Rightarrow> Return (Inl e)
                    | None \<Rightarrow> Get (\<lambda>cached'. case cached' of
                                None \<Rightarrow> Return (Inl nil_dereference)
                              | Some est \<Rightarrow> Return (Inr (base_address c est)))))"

definition bound_prog :: "'w env \<Rightarrow> 'j ojson \<Rightarrow> ('j, 'w) client \<Rightarrow> collection_ref
    \<Rightarrow> ('j err + 'j establishment, 'j, 'w) prog" where
  "bound_prog E J c col =
     Get (\<lambda>cached. case cached of
            None \<Rightarrow> after (establish_prog E J c [Some col]) (\<lambda>err. case err of
                      Some e \<Rightarrow> Return (Inl e)
                    | None \<Rightarrow> Get (\<lambda>cached'. case cached' of
                                None \<Rightarrow> Return (Inl (EMsg ''datorium: establishment cache empty after fetch'' []))
                              | Some est \<Rightarrow> Return (Inr est)))
          | Some est \<Rightarrow>
              (case validate_catalog (Some est) [Some col] of
                 Some e \<Rightarrow> Return (Inl e)
               | None \<Rightarrow> Return (Inr est)))"

text \<open>All of Bind. The process-wide counter gives every successful Bind a number of its own (Typed);
  \<open>b\<close> is the one it gives to this Bind.\<close>

definition bind_prog :: "'w env \<Rightarrow> 'j ojson \<Rightarrow> ('j, 's, 'p, 'd) typed_json \<Rightarrow> collection_ref
    \<Rightarrow> ('j, 'w) client option \<Rightarrow> binding \<Rightarrow> ('j err + ('j, 'w, 's) collection_client, 'j, 'w) prog" where
  "bind_prog E J T col cl b =
     (case cl of
        None \<Rightarrow> Return (Inl (EMsg ''datorium: nil client'' []))
      | Some c \<Rightarrow>
          if cr_name col = [] then Return (Inl (EMsg ''datorium: collection is required'' []))
          else after (bound_prog E J c col) (\<lambda>x. case x of
              Inl e \<Rightarrow> Return (Inl e)
            | Inr est \<Rightarrow>
                (case bind_schema J T col est of
                   Inl e \<Rightarrow> Return (Inl e)
                 | Inr sch \<Rightarrow>
                     Return (Inr \<lparr>cc_client = Some c, cc_col = col, cc_schema = sch, cc_binding = Some b\<rparr>))))"

function loop_prog :: "'w env \<Rightarrow> 'j ojson \<Rightarrow> ('j, 'w) client \<Rightarrow> string \<Rightarrow> 'j resolver option
    \<Rightarrow> int \<Rightarrow> string \<Rightarrow> 'j result \<Rightarrow> ('j result \<times> 'j err option, 'j, 'w) prog" where
  "loop_prog E J c body resolve attempt base last_res =
     (if attempt \<le> cl_wm_retries c then
        Post (post_command E J c base body) (\<lambda>x. case x of
           (res, Some e) \<Rightarrow> Return (zero_result J, Some e)
         | (res, None) \<Rightarrow>
             if rs_ok res then Return (res, None)
             else
               (let ae = app_error_from_result J res in
                if ap_code ae \<noteq> code_wrong_machine then Return (res, Some (EApp ae))
                else if attempt = cl_wm_retries c then Return (res, Some (EApp ae))
                else
                  Fetch (fetch_establishment E J c []) (\<lambda>y. case y of
                     Inl e \<Rightarrow> Return (res, Some e)
                   | Inr fresh \<Rightarrow> Put fresh (Get (\<lambda>cached. case (cached, resolve) of
                          (Some est, Some route_of) \<Rightarrow>
                            (case route_of est of
                               Inl e \<Rightarrow> Return (res, Some e)
                             | Inr route \<Rightarrow>
                                 if rt_base_url route = [] then Return (res, Some (EApp ae))
                                 else loop_prog E J c body resolve (attempt + 1) (rt_base_url route) res)
                        | _ \<Rightarrow> Return (res, Some (EApp ae)))))))
      else Return (last_res, Some (EApp (app_error_from_result J last_res))))"
  by pat_completeness auto

termination
  by (relation "measure (\<lambda>(E, J, c, body, resolve, attempt, base, l). nat (cl_wm_retries c + 1 - attempt))") auto

declare loop_prog.simps [simp del]

definition routed_prog :: "'w env \<Rightarrow> 'j ojson \<Rightarrow> ('j, 'w) client \<Rightarrow> route \<Rightarrow> string \<Rightarrow> 'j resolver option
    \<Rightarrow> ('j result \<times> 'j err option, 'j, 'w) prog" where
  "routed_prog E J c initial body resolve =
     loop_prog E J c body resolve 0
       (if rt_base_url initial = [] then cf_establishment_url (cl_cfg c) else rt_base_url initial) (zero_result J)"

definition read_prog :: "'w env \<Rightarrow> 'j ojson \<Rightarrow> ('j, 'w) client \<Rightarrow> string \<Rightarrow> string \<Rightarrow> read_options option
    \<Rightarrow> ('j err + 'j read_result, 'j, 'w) prog" where
  "read_prog E J c collection document_id opts =
     (if collection = [] \<or> document_id = [] then
        Return (Inl (EMsg ''datorium: collection and id are required'' []))
      else after (ensure_prog E J c) (\<lambda>x. case x of
          Inl e \<Rightarrow> Return (Inl e)
        | Inr est \<Rightarrow>
            (case build_command ''read'' collection document_id (GMap (read_detail opts)) of
               Inl e \<Rightarrow> Return (Inl e)
             | Inr body \<Rightarrow>
                 (case route_document c est document_id RouteRead of
                    Inl e \<Rightarrow> Return (Inl e)
                  | Inr route \<Rightarrow>
                      after (routed_prog E J c route body
                               (Some (\<lambda>est'. route_document c est' document_id RouteRead))) (\<lambda>y. case y of
                          (res, Some e) \<Rightarrow> Return (Inl e)
                        | (res, None) \<Rightarrow> Return (Inr (read_result_from J res)))))))"

section \<open>Without interference\<close>

lemma establish_fetch:
  "establish E J c cols st =
     (case fetch_establishment E J c cols st of
        (Inl e, st') \<Rightarrow> (Some e, st')
      | (Inr est, st') \<Rightarrow> (None, st'\<lparr>st_cache := Some est\<rparr>))"
  by (auto simp: establish_def fetch_establishment_def split: prod.splits option.splits sum.splits)

lemma exec_establish: "exec (establish_prog E J c cols) st = establish E J c cols st"
  by (auto simp: establish_prog_def establish_fetch split: prod.splits sum.splits)

lemma exec_ensure: "exec (ensure_prog E J c) st = ensure_established E J c st"
  by (auto simp: ensure_prog_def ensure_established_def exec_after exec_establish split: prod.splits option.splits)

lemma exec_base: "exec (base_prog E J c) st = establishment_base E J c st"
  by (auto simp: base_prog_def base_address_def establishment_base_def exec_after exec_establish Let_def
      split: prod.splits option.splits)

lemma exec_bound: "exec (bound_prog E J c col) st = bind_established E J c col st"
  by (auto simp: bound_prog_def bind_established_def exec_after exec_establish split: prod.splits option.splits)

lemma exec_bind:
  "bind E J T col cl (st, ctr) =
     (case exec (bind_prog E J T col cl (ctr + 1)) st of (r, st') \<Rightarrow> (r, st', if isl r then ctr else ctr + 1))"
  by (auto simp: bind_prog_def bind_def exec_after exec_bound split: prod.splits option.splits sum.splits)

lemma exec_loop: "exec (loop_prog E J c body resolve k base l) st = execute_loop E J c body resolve k base l st"
proof (induction E J c body resolve k base l st rule: execute_loop.induct)
  case (1 E J c body resolve k base l st)
  show ?case
  proof (cases "k \<le> cl_wm_retries c")
    case True
    obtain res err st1 where p: "post_command E J c base body st = ((res, err), st1)" by (metis surj_pair)
    show ?thesis
    proof (cases "err = None \<and> \<not> rs_ok res \<and> ap_code (app_error_from_result J res) = code_wrong_machine
        \<and> k \<noteq> cl_wm_retries c")
      case bounced: True
      have "exec (loop_prog E J c body resolve (k + 1) (rt_base_url route) res) st2
          = execute_loop E J c body resolve (k + 1) (rt_base_url route) res st2"
        if "fetch_establishment E J c [] st1 = (Inr est, st')" "st2 = st'\<lparr>st_cache := Some est\<rparr>"
          "resolve = Some f" "f est = Inr route" "rt_base_url route \<noteq> []" for est st' st2 f route
      proof -
        have es: "establish E J c [] st1 = (None, st2)" "st_cache st2 = Some est"
          using that by (simp_all add: establish_fetch)
        have p': "post_command E J c base body st = ((res, None), st1)" using p bounced by simp
        show ?thesis
          by (rule "1.IH" [OF True p' [symmetric] refl refl _ refl _ _ es(1) [symmetric] refl refl es(2) that(3,4)])
            (use bounced that(5) in auto)
      qed
      then show ?thesis
        using True p bounced
        by (subst loop_prog.simps, subst execute_loop.simps)
          (auto simp: Let_def establish_fetch split: prod.splits sum.splits option.splits)
    next
      case False
      then show ?thesis
        using True p
        by (subst loop_prog.simps, subst execute_loop.simps) (auto simp: Let_def split: option.splits)
    qed
  qed (simp add: loop_prog.simps execute_loop.simps)
qed

lemma exec_routed: "exec (routed_prog E J c initial body resolve) st = execute_routed E J c initial body resolve st"
  by (simp add: routed_prog_def execute_routed_def exec_loop)

lemma exec_read: "exec (read_prog E J c collection document_id opts) st = read_doc E J c collection document_id opts st"
  by (auto simp: read_prog_def read_doc_def run_document_command_def exec_after exec_ensure exec_routed
      split: prod.splits sum.splits option.splits)

section \<open>How many steps a program makes\<close>

fun done_in :: "nat \<Rightarrow> ('a, 'j, 'w) prog \<Rightarrow> bool" where
  "done_in n (Return a) = True"
| "done_in 0 _ = False"
| "done_in (Suc n) (Get k) = (\<forall>x. done_in n (k x))"
| "done_in (Suc n) (Put est p) = done_in n p"
| "done_in (Suc n) (Fetch f k) = (\<forall>x. done_in n (k x))"
| "done_in (Suc n) (Post f k) = (\<forall>x. done_in n (k x))"

lemma done_in_mono: "done_in n p \<Longrightarrow> n \<le> m \<Longrightarrow> done_in m p"
proof (induction n p arbitrary: m rule: done_in.induct)
  case (1 n a)
  show ?case by (cases m) simp_all
next
  case (3 n k)
  then show ?case by (cases m) simp_all
next
  case (4 n est p)
  then show ?case by (cases m) simp_all
next
  case (5 n f k)
  then show ?case by (cases m) simp_all
next
  case (6 n f k)
  then show ?case by (cases m) simp_all
qed simp_all

lemma done_in_after: "done_in n p \<Longrightarrow> (\<And>a. done_in m (h a)) \<Longrightarrow> done_in (n + m) (after p h)"
proof (induction n p rule: done_in.induct)
  case (1 n a)
  then show ?case using done_in_mono [of m "h a" "n + m"] by simp
qed auto

lemma done_in_0: "done_in 0 p \<Longrightarrow> \<exists>a. p = Return a"
  by (cases p) auto

lemma prog_step_done: "done_in (Suc n) p \<Longrightarrow> prog_step p st = (p', st') \<Longrightarrow> done_in n p'"
  by (cases p) (auto split: prod.splits elim: done_in.elims)

lemma interleave_done:
  assumes "done_in n (ps i)" "n \<le> count_list sched i" "interleave sched ps st = (ps', st')"
  shows "\<exists>a. ps' i = Return a"
  using assms
proof (induction sched arbitrary: n ps st)
  case Nil
  then show ?case using done_in_0 by auto
next
  case (Cons j sched)
  obtain p st1 where s: "prog_step (ps j) st = (p, st1)" by (metis surj_pair)
  then have rest: "interleave sched (ps(j := p)) st1 = (ps', st')" using Cons.prems by simp
  show ?case
  proof (cases "i = j")
    case False
    then show ?thesis using Cons.IH [OF _ _ rest, of n] Cons.prems by simp
  next
    case True
    have "done_in (n - 1) p"
    proof (cases n)
      case 0
      then obtain a where "ps j = Return a" using Cons.prems(1) True done_in_0 by blast
      then have "p = Return a" using s by simp
      then show ?thesis by simp
    next
      case (Suc m)
      then show ?thesis using prog_step_done Cons.prems(1) s True by auto
    qed
    then show ?thesis using Cons.IH [OF _ _ rest, of "n - 1"] Cons.prems True by simp
  qed
qed

lemma exec_step: "prog_step p st = (p', st') \<Longrightarrow> exec p' st' = exec p st"
  by (cases p) (auto split: prod.splits)

text \<open>A goroutine that runs alone reaches the end of its program in the state \<open>exec\<close> gives.\<close>

lemma interleave_alone:
  "done_in n (ps i) \<Longrightarrow> exec (ps i) st = (a, st') \<Longrightarrow> interleave (replicate n i) ps st = (ps(i := Return a), st')"
proof (induction n arbitrary: ps st)
  case 0
  then show ?case using done_in_0 [of "ps i"] by (auto simp: fun_upd_idem)
next
  case (Suc n)
  obtain p st1 where s: "prog_step (ps i) st = (p, st1)" by (metis surj_pair)
  have "exec p st1 = (a, st')" using exec_step [OF s] Suc.prems(2) by simp
  then show ?case
    using Suc.IH [of "ps(i := p)" st1] prog_step_done [OF Suc.prems(1) s] s by (simp del: fun_upd_apply add: fun_upd_same)
qed

lemma establish_steps: "done_in 2 (establish_prog E J c cols)"
  by (auto simp: establish_prog_def numeral_2_eq_2 split: sum.splits)

lemma ensure_steps: "done_in 4 (ensure_prog E J c)"
proof -
  have "done_in (2 + 1) (after (establish_prog E J c []) (\<lambda>err. case err of
      Some e \<Rightarrow> Return (Inl e)
    | None \<Rightarrow> Get (\<lambda>cached'. case cached' of
                None \<Rightarrow> Return (Inl (EMsg ''datorium: establishment cache empty after fetch'' []))
              | Some est \<Rightarrow> Return (Inr est))))" for c :: "('a, 'b) client"
    by (rule done_in_after [OF establish_steps]) (auto split: option.splits)
  then show ?thesis by (auto simp: ensure_prog_def eval_nat_numeral split: option.splits)
qed

lemma loop_steps: "k \<le> cl_wm_retries c \<Longrightarrow>
    done_in (4 * nat (cl_wm_retries c - k) + 1) (loop_prog E J c body resolve k base l)"
proof (induction E J c body resolve k base l rule: loop_prog.induct)
  case (1 E J c body resolve k base l)
  show ?case
  proof (cases "k = cl_wm_retries c")
    case True
    then show ?thesis by (subst loop_prog.simps) (auto simp: Let_def split: option.splits)
  next
    case False
    then have n: "4 * nat (cl_wm_retries c - k) + 1 = Suc (Suc (Suc (Suc (4 * nat (cl_wm_retries c - (k + 1)) + 1))))"
      using "1.prems" by simp
    show ?thesis unfolding n
      by (subst loop_prog.simps) (use "1.prems" "1.IH" False in \<open>auto simp: Let_def split: option.splits sum.splits\<close>)
  qed
qed

section \<open>A contract that interference cannot break\<close>

text \<open>
  What a program relies on: the others store well-formed documents only and never empty the
  cache. \<open>keeps A Q p b\<close> says that \<open>p\<close>, started when the cache is known to be filled if \<open>b\<close>,
  logs only events in \<open>A\<close>, stores well-formed documents only, and ends with a value in \<open>Q\<close>,
  whatever documents the cache holds when it looks.
\<close>

primrec keeps :: "(event \<Rightarrow> bool) \<Rightarrow> (bool \<Rightarrow> 'a \<Rightarrow> bool) \<Rightarrow> ('a, 'j, 'w) prog \<Rightarrow> bool \<Rightarrow> bool" where
  "keeps A Q (Return a) = (\<lambda>b. Q b a)"
| "keeps A Q (Get k) = (\<lambda>b. \<forall>x. (b \<longrightarrow> x \<noteq> None) \<and> (\<forall>est. x = Some est \<longrightarrow> establishment_ok est)
     \<longrightarrow> keeps A Q (k x) (x \<noteq> None))"
| "keeps A Q (Put est p) = (\<lambda>b. establishment_ok est \<and> keeps A Q p True)"
| "keeps A Q (Fetch f k) = (\<lambda>b. request_op A f \<and> (\<forall>st x st'. f st = (x, st') \<longrightarrow> keeps A Q (k x) b))"
| "keeps A Q (Post f k) = (\<lambda>b. request_op A f \<and> (\<forall>st x st'. f st = (x, st') \<longrightarrow> keeps A Q (k x) b))"

lemma keeps_after:
  "keeps A P p b \<Longrightarrow> (\<And>a b'. P b' a \<Longrightarrow> keeps A Q (h a) b') \<Longrightarrow> keeps A Q (after p h) b"
  by (induction p arbitrary: b) auto

lemma request_op_mono: "request_op A f \<Longrightarrow> (\<And>ev. A ev \<Longrightarrow> B ev) \<Longrightarrow> request_op B f"
  by (auto simp: request_op_def request_op_axioms_def intro: op_mono)

lemma keeps_mono:
  "keeps A P p b \<Longrightarrow> (\<And>ev. A ev \<Longrightarrow> B ev) \<Longrightarrow> (\<And>b a. P b a \<Longrightarrow> Q b a) \<Longrightarrow> keeps B Q p b"
  by (induction p arbitrary: b) (auto intro: request_op_mono)

text \<open>The state of a system of goroutines, each with its contract.\<close>

definition system_ok :: "(nat \<Rightarrow> event \<Rightarrow> bool) \<Rightarrow> (nat \<Rightarrow> bool \<Rightarrow> 'a \<Rightarrow> bool)
    \<Rightarrow> (nat \<Rightarrow> ('a, 'j, 'w) prog) \<Rightarrow> ('j, 'w) state \<Rightarrow> bool" where
  "system_ok A Q ps st \<longleftrightarrow> cache_ok st
     \<and> (\<forall>i. \<exists>b. keeps (A i) (Q i) (ps i) b \<and> (b \<longrightarrow> st_cache st \<noteq> None))"

lemma prog_step_keeps:
  assumes "keeps A Q p b" "cache_ok st" "b \<longrightarrow> st_cache st \<noteq> None" "prog_step p st = (p', st')"
  shows "extends A st st' \<and> (\<exists>b'. keeps A Q p' b' \<and> (b' \<longrightarrow> st_cache st' \<noteq> None))"
proof (cases p)
  case (Fetch f k)
  obtain x st1 where f: "f st = (x, st1)" by (metis surj_pair)
  from assms Fetch have op: "request_op A f" by simp
  show ?thesis
    using assms Fetch f client_op.run_extends_to [OF request_op.axioms(1) [OF op] f] request_op.cache_same [OF op f]
    by auto
next
  case (Post f k)
  obtain x st1 where f: "f st = (x, st1)" by (metis surj_pair)
  from assms Post have op: "request_op A f" by simp
  have "keeps A Q (k x) b" using assms(1) Post f by (cases x) auto
  then show ?thesis
    using assms Post f client_op.run_extends_to [OF request_op.axioms(1) [OF op] f] request_op.cache_same [OF op f]
    by auto
next
  case (Put est q)
  then have "keeps A Q p' True" "st' = st\<lparr>st_cache := Some est\<rparr>" "establishment_ok est" using assms by auto
  then show ?thesis by (auto intro: extends_cache_set)
next
  case (Get k)
  then have "keeps A Q p' (st_cache st \<noteq> None)" "st' = st" using assms by (auto simp: cache_ok_def)
  then show ?thesis by (auto intro!: exI [of _ "st_cache st \<noteq> None"])
qed (use assms in auto)

lemma interleave_keeps:
  assumes "system_ok A Q ps st" "interleave sched ps st = (ps', st')"
  shows "system_ok A Q ps' st' \<and> extends (\<lambda>ev. \<exists>i. A i ev) st st'"
  using assms
proof (induction sched arbitrary: ps st)
  case (Cons j sched)
  obtain p st1 where s: "prog_step (ps j) st = (p, st1)" by (metis surj_pair)
  from Cons.prems(1) obtain b where b: "keeps (A j) (Q j) (ps j) b" "b \<longrightarrow> st_cache st \<noteq> None" "cache_ok st"
    by (auto simp: system_ok_def)
  note step = prog_step_keeps [OF b(1,3,2) s]
  then have "system_ok A Q (ps(j := p)) st1"
    using Cons.prems(1) unfolding system_ok_def by (auto simp: extends_def)
  moreover have "extends (\<lambda>ev. \<exists>i. A i ev) st st1"
    by (rule extends_mono [OF conjunct1 [OF step]]) blast
  moreover have "interleave sched (ps(j := p)) st1 = (ps', st')" using Cons.prems(2) s by simp
  ultimately show ?case using Cons.IH extends_trans by blast
qed simp

text \<open>What a goroutine that has finished returned.\<close>

lemma system_returns:
  "system_ok A Q ps st \<Longrightarrow> ps i = Return a \<Longrightarrow> \<exists>b. Q i b a \<and> (b \<longrightarrow> st_cache st \<noteq> None)"
  by (auto simp: system_ok_def) (metis keeps.simps(1))

section \<open>The operations keep the contract\<close>

lemma fetch_cases:
  fixes J :: "'j ojson"
  assumes "fetch_establishment E J c cols st = (r, st')"
  shows "st_cache st' = st_cache st" "extends (establish_event c) st st'"
    "r = Inr est \<Longrightarrow> establishment_ok est \<and> validate_catalog (Some est) cols = (None :: 'j err option)"
proof -
  obtain res err st1 where d: "do_json E J c ''GET'' (cf_establishment_url (cl_cfg c))
      (api_prefix @ ''/establish'') None [] True st = ((res, err), st1)" by (metis surj_pair)
  have "st' = st1" using assms d by (auto simp: fetch_establishment_def split: option.splits sum.splits)
  then show "st_cache st' = st_cache st" "extends (establish_event c) st st'"
    using json_call.cache_same [OF d] json_call.run_extends_to [OF d] by simp_all
  show "r = Inr est \<Longrightarrow> establishment_ok est \<and> validate_catalog (Some est) cols = (None :: 'j err option)"
    using assms d by (auto simp: fetch_establishment_def split: option.splits sum.splits intro: parse_establishment_ok)
qed

interpretation fetch_op: request_op "establish_event c" "fetch_establishment E J c cols" for E J c cols
proof (unfold_locales, goal_cases)
  case (1 st)
  obtain r st' where "fetch_establishment E J c cols st = (r, st')" by (metis surj_pair)
  then show ?case using fetch_cases(2) by (metis snd_conv)
next
  case (2 st)
  obtain r st' where "fetch_establishment E J c cols st = (r, st')" by (metis surj_pair)
  then show ?case using fetch_cases(1) by (metis snd_conv)
qed

text \<open>The error of an establishment that failed is the error of its own fetch.\<close>

definition fetch_fails :: "'w env \<Rightarrow> 'j ojson \<Rightarrow> ('j, 'w) client \<Rightarrow> collection_ref option list \<Rightarrow> 'j err \<Rightarrow> bool" where
  "fetch_fails E J c cols e \<longleftrightarrow> (\<exists>st st'. fetch_establishment E J c cols st = (Inl e, st'))"

lemma establish_keeps:
  "keeps (establish_event c) (\<lambda>b r. case r of None \<Rightarrow> b | Some e \<Rightarrow> fetch_fails E J c cols e)
     (establish_prog E J c cols) b"
  by (auto simp: establish_prog_def fetch_fails_def fetch_op.request_op_axioms fetch_cases(3) split: sum.splits)

lemma ensure_keeps:
  "keeps (establish_event c)
     (\<lambda>b r. case r of Inl e \<Rightarrow> fetch_fails E J c [] e | Inr est \<Rightarrow> b \<and> establishment_ok est) (ensure_prog E J c) b"
  by (auto simp: ensure_prog_def split: option.splits intro!: keeps_after [OF establish_keeps])

lemma base_keeps:
  "keeps (establish_event c)
     (\<lambda>b r. case r of Inl e \<Rightarrow> fetch_fails E J c [] e | Inr u \<Rightarrow> \<exists>est. establishment_ok est \<and> u = base_address c est)
     (base_prog E J c) b"
  by (auto simp: base_prog_def split: option.splits intro!: keeps_after [OF establish_keeps])

definition routed_answer :: "'j ojson \<Rightarrow> ('j, 'w) client \<Rightarrow> 'j result \<times> 'j err option \<Rightarrow> bool" where
  "routed_answer J c x \<longleftrightarrow>
     (case x of (res, None) \<Rightarrow> rs_ok res \<and> (\<exists>rq. delivered J c rq res) | (res, Some e) \<Rightarrow> \<not> rs_ok res)"

lemma loop_keeps:
  "k \<le> cl_wm_retries c \<Longrightarrow> hop_ok base0 resolve base \<Longrightarrow>
     keeps (command_event c body (hop_ok base0 resolve)) (\<lambda>b. routed_answer J c)
       (loop_prog E J c body resolve k base l) b"
proof (induction "nat (cl_wm_retries c - k)" arbitrary: k base l b rule: less_induct)
  case less
  let ?A = "command_event c body (hop_ok base0 resolve)"
  have post: "request_op ?A (post_command E J c base body)"
    using less.prems by (intro request_op_mono [OF post_op.request_op_axioms]) (auto simp: command_event_def)
  have fetch: "request_op ?A (fetch_establishment E J c [])"
    by (rule request_op_mono [OF fetch_op.request_op_axioms]) (simp add: command_event_def)
  have zero: "\<not> rs_ok (zero_result J)" by (simp add: zero_result_def)
  have again: "keeps (command_event c body (hop_ok base0 (Some f))) (\<lambda>b. routed_answer J c)
      (loop_prog E J c body (Some f) (k + 1) (rt_base_url r) res) b'"
    if "k \<noteq> cl_wm_retries c" "resolve = Some f" "f est = Inr r" "rt_base_url r \<noteq> []" "establishment_ok est"
    for f est r res b'
    unfolding that(2) [symmetric]
    by (rule less.hyps) (use less.prems that in \<open>auto simp: hop_ok_def resolved_base_def\<close>)
  show ?case
    using less.prems(1)
    by (subst loop_prog.simps)
      (auto simp: Let_def post fetch zero routed_answer_def fetch_cases(3) post_command_frame(4)
        split: option.splits sum.splits intro!: again)
qed

lemma routed_keeps:
  "0 \<le> cl_wm_retries c \<Longrightarrow>
     keeps (command_event c body (hop_ok (start_base c initial) resolve)) (\<lambda>b. routed_answer J c)
       (routed_prog E J c initial body resolve) b"
  unfolding routed_prog_def start_base_def by (rule loop_keeps) (simp_all add: hop_ok_def)

lemma routed_steps: "0 \<le> cl_wm_retries c \<Longrightarrow>
    done_in (4 * nat (cl_wm_retries c) + 1) (routed_prog E J c initial body resolve)"
  using loop_steps [of 0 c] by (simp add: routed_prog_def)

end
