(* ===== verification/SharedProps.thy ===== *)
theory SharedProps
  imports Shared Recovery
begin

text \<open>
  Properties of several goroutines on one client: what holds under every schedule, the agreement
  of the concurrent model with the sequential one, and two races of the code.
\<close>

section \<open>A changing server\<close>

definition versioned_schema :: "int \<Rightarrow> js" where
  "versioned_schema v = JObj [(''since'', JNum v)]"

definition versioned_env :: "int \<Rightarrow> js" where
  "versioned_env v = JObj [(''ok'', JBool True), (''general'', JObj [(''version'', JNum v)]),
     (''schemas'', JObj [(''Todos'', JObj [(''version'', JNum v), (''schema'', versioned_schema v)])])]"

definition versioned_est :: "int \<Rightarrow> js establishment" where
  "versioned_est v = \<lparr>es_general = zero_general\<lparr>gc_version := v\<rparr>, es_servers = [], es_shard_map = [],
     es_schemas = [(''Todos'', \<lparr>sc_version = v, sc_doc = versioned_schema v\<rparr>)], es_searches = JVoid, es_auth = JVoid,
     es_env = versioned_env v\<rparr>"

definition race_json :: "js ojson" where
  "race_json = sample_json (\<lambda>t. if t = ''1'' then Inr (versioned_env 1)
     else if t = ''2'' then Inr (versioned_env 2) else Inl ''bad json'')"

lemma versioned_parse:
  "parse_establishment (sample_json reader) \<lparr>rs_ok = True, rs_errors = es, rs_env = versioned_env v, rs_body = b\<rparr>
     = Inr (versioned_est v)"
  by (simp add: parse_establishment_def envelope_of_def versioned_env_def versioned_est_def parse_general_def Let_def
      check_shard_map_def zero_general_def js_int0_def)

definition versioned_answer :: "int \<Rightarrow> (string + response) \<times> nat" where
  "versioned_answer v = answer (if v = 1 then ''1'' else ''2'')"

lemma versioned_decode:
  "v = 1 \<or> v = 2 \<Longrightarrow> decode_result race_json (if v = 1 then ''1'' else ''2'')
     = Inr \<lparr>rs_ok = True, rs_errors = [], rs_env = versioned_env v, rs_body = (if v = 1 then ''1'' else ''2'')\<rparr>"
  by (auto simp: decode_result_def race_json_def versioned_env_def Let_def)

lemma versioned_fetch:
  assumes "catalog_mismatches (versioned_est v) cols = []" "v = 1 \<or> v = 2"
  shows "fetch_establishment script_env race_json (script_client wm 0) cols
      \<lparr>st_cache = cache, st_trace = tr, st_world = versioned_answer v # w\<rparr>
    = (Inr (versioned_est v), \<lparr>st_cache = cache, st_trace = tr @ [Sent (json_rq (script_client wm 0) ''GET'' ''http://e''
        (api_prefix @ ''/establish'') [] None)], st_world = w\<rparr>)"
proof -
  have url: "cf_establishment_url (cl_cfg (script_client wm 0)) = ''http://e''"
    by (simp add: script_client_def script_config_def)
  have parse: "parse_establishment race_json \<lparr>rs_ok = True, rs_errors = es, rs_env = versioned_env v, rs_body = b\<rparr>
      = Inr (versioned_est v)" for es b
    by (simp add: race_json_def versioned_parse)
  have valid: "validate_catalog (Some (versioned_est v)) cols = (None :: js err option)"
    using assms(1) by (simp add: validate_catalog_def)
  have "length (if v = 1 then ''1'' else ''2'') \<le> 10" by simp
  note answered = read_answer [OF this, of race_json]
  show ?thesis
    using versioned_decode [OF assms(2)]
    by (simp add: answered fetch_establishment_def script_do_json_one script_once versioned_answer_def answer_def url
        parse valid split del: if_split)
qed

abbreviation todos1 :: collection_ref where "todos1 \<equiv> \<lparr>cr_name = ''Todos'', cr_version = 1\<rparr>"
abbreviation todos2 :: collection_ref where "todos2 \<equiv> \<lparr>cr_name = ''Todos'', cr_version = 2\<rparr>"

text \<open>A codec that compiles a schema text to itself.\<close>

definition text_typed :: "(js, string, unit, js) typed_json" where
  "text_typed = \<lparr>tj_compile = (\<lambda>fs t. Inr t), tj_from_struct = Inr, tj_to_struct = Inr,
     tj_diff = (\<lambda>a b s. Inr ()), tj_validate = (\<lambda>a p s. None),
     tj_patch_len = (\<lambda>p. 0), tj_patch_json = (\<lambda>p. JVoid), tj_zero_doc = JVoid\<rparr>"

lemma todos1_mismatches: "catalog_mismatches (versioned_est 1) [Some todos1] = []" "catalog_mismatches est [] = []"
  "catalog_mismatches (versioned_est 2) [Some todos2] = []"
  "validate_catalog (Some (versioned_est 2)) [Some todos1] \<noteq> (None :: js err option)"
  by (simp_all add: versioned_est_def validate_catalog_def col_mismatch_def)

lemmas versioned_fetches = versioned_fetch [OF todos1_mismatches(1) disjI1 [OF refl]]
  versioned_fetch [OF todos1_mismatches(2) disjI1 [OF refl]] versioned_fetch [OF todos1_mismatches(2) disjI2 [OF refl]]
  versioned_fetch [OF todos1_mismatches(3) disjI2 [OF refl]]

lemma versioned_bind_schema:
  "cr_name col = ''Todos'' \<Longrightarrow> bind_schema race_json text_typed col (versioned_est v) = Inr (js_text (versioned_schema v))"
  by (simp add: bind_schema_def versioned_est_def versioned_schema_def race_json_def text_typed_def)

section \<open>Properties\<close>

text \<open>C3: Interference leaves routed commands sound. Let any number of goroutines run routed commands
  on one client, in any interleaving of their steps. The cache only ever holds well-formed
  documents; every request is authorised and is either a fetch of the establishment document or
  a post of one goroutine's command to its own first base or to a base its resolver computes from
  a well-formed document; and every goroutine that has finished returned a delivered ok:true
  result without an error, or an error with a result that is not ok.\<close>

theorem shared_hops:
  assumes "0 \<le> cl_wm_retries c" "cache_ok st"
    and "interleave sched (\<lambda>i. routed_prog E J c (initial i) (body i) (resolve i)) st = (ps', st')"
  shows "cache_ok st'
    \<and> (\<forall>ev \<in> set (drop (length (st_trace st)) (st_trace st')). event_authorised ev
         \<and> (\<exists>i. command_event c (body i) (hop_ok (start_base c (initial i)) (resolve i)) ev))
    \<and> (\<forall>i a. ps' i = Return a \<longrightarrow> routed_answer J c a)"
proof -
  let ?A = "\<lambda>i. command_event c (body i) (hop_ok (start_base c (initial i)) (resolve i))"
  have "system_ok ?A (\<lambda>i b. routed_answer J c) (\<lambda>i. routed_prog E J c (initial i) (body i) (resolve i)) st"
    using assms(2) routed_keeps [OF assms(1)] by (auto simp: system_ok_def)
  from interleave_keeps [OF this assms(3)]
  have ok: "system_ok ?A (\<lambda>i b. routed_answer J c) ps' st'" "extends (\<lambda>ev. \<exists>i. ?A i ev) st st'" by blast+
  from ok(2) have "\<exists>i. ?A i ev" if "ev \<in> set (drop (length (st_trace st)) (st_trace st'))" for ev
    using that by (auto simp: extends_def list_all_iff)
  then show ?thesis
    using ok(1) system_returns [OF ok(1)] command_event_authorised by (auto simp: system_ok_def) blast
qed

lemma script_retries: "cl_wm_retries (script_client 1 0) = 1"
  by (simp add: script_client_def)

theorem shared_hops_witness:
  "\<exists>ps' st'. interleave [0, 1, 1, 0, 2] (\<lambda>i. routed_prog script_env SJ (script_client 1 0) script_start ''{}'' (Some script_resolve))
      (script_state None [answer ''W'', answer ''E'', answer ''K'']) = (ps', st') \<and> cache_ok st'"
proof -
  obtain ps' st' where run: "interleave [0, 1, 1, 0, 2]
      (\<lambda>i. routed_prog script_env SJ (script_client 1 0) script_start ''{}'' (Some script_resolve))
      (script_state None [answer ''W'', answer ''E'', answer ''K'']) = (ps', st')" by (metis surj_pair)
  from shared_hops [OF _ _ run] show ?thesis using run by (simp add: script_retries cache_ok_def script_state_def)
qed

text \<open>C9: Routed commands are wait-free. Whatever the other goroutines run and however they are
  scheduled, a routed command has returned once its own goroutine has made 4 m + 1 steps, m being
  the bounce bound.\<close>

theorem shared_wait_free:
  assumes "0 \<le> cl_wm_retries c" "ps i = routed_prog E J c initial body resolve"
    and "4 * nat (cl_wm_retries c) + 1 \<le> count_list sched i" "interleave sched ps st = (ps', st')"
  shows "\<exists>a. ps' i = Return a"
  using interleave_done [OF _ assms(3,4)] routed_steps [OF assms(1)] assms(2) by metis

theorem shared_wait_free_witness:
  "\<exists>a. fst (interleave [0, 1, 0, 0, 1, 0, 0] (\<lambda>i. routed_prog script_env SJ (script_client 1 0) script_start ''{}'' (Some script_resolve))
      (script_state None [answer ''W'', answer ''E'', answer ''K''])) 0 = Return a"
proof -
  obtain ps' st' where run: "interleave [0, 1, 0, 0, 1, 0, 0]
      (\<lambda>i. routed_prog script_env SJ (script_client 1 0) script_start ''{}'' (Some script_resolve))
      (script_state None [answer ''W'', answer ''E'', answer ''K'']) = (ps', st')" by (metis surj_pair)
  from shared_wait_free [where i = 0 and c = "script_client 1 0", OF _ refl _ run]
  have "\<exists>a. ps' 0 = Return a" by (simp add: script_retries)
  then show ?thesis by (simp only: run fst_conv)
qed

text \<open>The concurrent model and the sequential one agree: a goroutine whose steps are not
  interleaved with others returns what \<open>executeRouted\<close> returns and leaves its state.\<close>

lemma shared_alone:
  assumes "0 \<le> cl_wm_retries c" "ps i = routed_prog E J c initial body resolve"
  shows "interleave (replicate (4 * nat (cl_wm_retries c) + 1) i) ps st
    = (case execute_routed E J c initial body resolve st of (a, st') \<Rightarrow> (ps(i := Return a), st'))"
proof -
  obtain a st' where a: "execute_routed E J c initial body resolve st = (a, st')" by (metis surj_pair)
  have "done_in (4 * nat (cl_wm_retries c) + 1) (ps i)" using routed_steps [OF assms(1)] assms(2) by simp
  then show ?thesis
    using interleave_alone [of "4 * nat (cl_wm_retries c) + 1" ps i st a st'] a assms(2)
    by (simp add: exec_routed)
qed

text \<open>C10: A goroutine never meets an empty cache after its own fetch. Whatever the others do, as long
  as they only store well-formed documents, establishmentBase never dereferences nil: it returns
  the error of its own fetch, or the address a well-formed document gives.\<close>

theorem shared_base_safe:
  assumes "cache_ok st" "ps i = base_prog E J c" "\<forall>j. j \<noteq> i \<longrightarrow> (\<exists>A Q. keeps A Q (ps j) False)"
    and "interleave sched ps st = (ps', st')" "ps' i = Return r"
  shows "case r of Inl e \<Rightarrow> fetch_fails E J c [] e | Inr u \<Rightarrow> \<exists>est. establishment_ok est \<and> u = base_address c est"
proof -
  from assms(3) obtain A Q where AQ: "\<And>j. j \<noteq> i \<Longrightarrow> keeps (A j) (Q j) (ps j) False" by metis
  let ?A = "A(i := establish_event c)"
  let ?Q = "Q(i := \<lambda>b r. case r of Inl e \<Rightarrow> fetch_fails E J c [] e | Inr u \<Rightarrow> \<exists>est. establishment_ok est \<and> u = base_address c est)"
  have "keeps (?A j) (?Q j) (ps j) False" for j
    using AQ [of j] base_keeps [of c E J False] assms(2) by (cases "j = i") simp_all
  then have "system_ok ?A ?Q ps st" using assms(1) unfolding system_ok_def by blast
  from system_returns [OF conjunct1 [OF interleave_keeps [OF this assms(4)]] assms(5)] show ?thesis by simp
qed

theorem shared_base_safe_witness:
  "\<exists>est. establishment_ok est \<and> fst (interleave [0] (\<lambda>i. base_prog script_env SJ (script_client 1 0))
      (script_state (Some sample_est) [])) 0 = Return (Inr (base_address (script_client 1 0) est))"
proof -
  let ?ps = "\<lambda>i. base_prog script_env SJ (script_client 1 0) :: (js err + string, js, script) prog"
  let ?st = "script_state (Some sample_est) []"
  have run: "interleave [0] ?ps ?st = (?ps(0 := Return (Inr (base_address (script_client 1 0) sample_est))), ?st)"
    by (simp add: base_prog_def script_state_def)
  have "cache_ok ?st" using parse_establishment_ok [OF sample_parse] by (simp add: cache_ok_def script_state_def)
  from shared_base_safe [where i = 0, OF this refl _ run] run show ?thesis using base_keeps by fastforce
qed

text \<open>C6: Bind can be overtaken. Goroutine 0 binds version 1 of a collection on an empty cache,
  goroutine 1 binds version 2 of it, and the server moves from version 1 to version 2 between the
  answers to the two fetches. The document that goroutine 0 fetched passed the check, but it takes the document the
  other stored after it: Bind returns, without an error, a client that declares version 1 and holds
  the schema compiled from the document of version 2, which the check refuses for that declaration.\<close>

theorem bind_race:
  "\<exists>sched ps' st' cc. interleave sched
      ((\<lambda>_. bind_prog script_env race_json text_typed todos2 (Some (script_client 3 0)) 2)
         (0 := bind_prog script_env race_json text_typed todos1 (Some (script_client 3 0)) 1))
      (script_state None [versioned_answer 1, versioned_answer 2]) = (ps', st')
    \<and> ps' 0 = Return (Inr cc) \<and> cc_col cc = \<lparr>cr_name = ''Todos'', cr_version = 1\<rparr>
    \<and> st_cache st' = Some (versioned_est 2)
    \<and> map_of (es_schemas (versioned_est 2)) ''Todos'' = Some \<lparr>sc_version = 2, sc_doc = versioned_schema 2\<rparr>
    \<and> cc_schema cc = js_text (versioned_schema 2) \<and> cc_schema cc \<noteq> js_text (versioned_schema 1)
    \<and> validate_catalog (Some (versioned_est 2)) [Some (cc_col cc)] \<noteq> (None :: js err option)"
proof -
  let ?ps = "(\<lambda>_. bind_prog script_env race_json text_typed todos2 (Some (script_client 3 0)) 2)
         (0 := bind_prog script_env race_json text_typed todos1 (Some (script_client 3 0)) 1)"
  let ?run = "interleave [0, 1, 0, 0, 1, 1, 0] ?ps (script_state None [versioned_answer 1, versioned_answer 2])"
  let ?cc = "\<lparr>cc_client = Some (script_client 3 0), cc_col = todos1, cc_schema = js_text (versioned_schema 2),
    cc_binding = Some 1\<rparr>"
  have "fst ?run 0 = Return (Inr ?cc) \<and> st_cache (snd ?run) = Some (versioned_est 2)"
    by (simp add: bind_prog_def bound_prog_def establish_prog_def script_state_def versioned_fetches
      versioned_bind_schema)
  moreover have "js_text (versioned_schema 2) \<noteq> js_text (versioned_schema 1)"
    by code_simp
  moreover have "map_of (es_schemas (versioned_est 2)) ''Todos'' = Some \<lparr>sc_version = 2, sc_doc = versioned_schema 2\<rparr>"
    by (simp add: versioned_est_def)
  ultimately show ?thesis
    using todos1_mismatches(4) by (intro exI [of _ "[0, 1, 0, 0, 1, 1, 0]"] exI [of _ "fst ?run"] exI [of _ "snd ?run"] exI [of _ ?cc]) simp
qed

text \<open>C11: The cache can go back. Two goroutines fetch the document; the one that was answered first, with
  version 1, stores it last. The other has already worked with version 2, which is lost: the
  store does not compare versions.\<close>

theorem cache_regress:
  "\<exists>sched ps' st'. interleave sched (\<lambda>_. ensure_prog script_env race_json (script_client 3 0))
      (script_state None [versioned_answer 1, versioned_answer 2]) = (ps', st')
    \<and> ps' 1 = Return (Inr (versioned_est 2)) \<and> st_cache st' = Some (versioned_est 1)
    \<and> gc_version (es_general (versioned_est 1)) < gc_version (es_general (versioned_est 2))"
proof -
  let ?run = "interleave [0, 1, 0, 1, 1, 1, 0] (\<lambda>_. ensure_prog script_env race_json (script_client 3 0))
      (script_state None [versioned_answer 1, versioned_answer 2])"
  have "fst ?run 1 = Return (Inr (versioned_est 2)) \<and> st_cache (snd ?run) = Some (versioned_est 1)"
    by (simp add: ensure_prog_def establish_prog_def script_state_def versioned_fetches)
  moreover have "gc_version (es_general (versioned_est 1)) < gc_version (es_general (versioned_est 2))"
    by (simp add: versioned_est_def)
  ultimately show ?thesis by (metis prod.collapse)
qed

end
