(* ===== verification/Driver.thy ===== *)
theory Driver
  imports Search Resolve Typed SearchPath
begin

text \<open>
  The helpers of the integration driver (cmd/todo-integration/main.go): the loops that poll a
  server until it shows what is awaited or a deadline passes, the choice of document ids by slot
  range, and the environment. The clock is a function of the world; a loop that never ends is
  \<open>None\<close>. The host record holds what the driver takes from outside: environment variables, the
  clock, texts that package fmt gives, the struct codecs of the three document types and one
  constructor of ojson patches.
\<close>

section \<open>Documents of the driver\<close>

record user =
  us_display_name :: string
  us_email :: string
  us_todo_lists :: "string list"

record todo_list =
  tl_title :: string
  tl_owner :: string
  tl_owner_summary :: string

record todo =
  td_title :: string
  td_status :: string
  td_list :: string
  td_list_summary :: string

definition users_col :: collection_ref where "users_col = \<lparr>cr_name = ''Users'', cr_version = 0\<rparr>"
definition todo_lists_col :: collection_ref where "todo_lists_col = \<lparr>cr_name = ''TodoLists'', cr_version = 0\<rparr>"
definition todos_col :: collection_ref where "todos_col = \<lparr>cr_name = ''Todos'', cr_version = 0\<rparr>"

record ('j, 'w, 's, 'p) host =
  ho_getenv :: "string \<Rightarrow> string"
  ho_now :: "'w \<Rightarrow> int \<times> 'w"
  ho_text :: "'j err \<Rightarrow> string"
  ho_duration :: "int \<Rightarrow> string"
  ho_values :: "'j list \<Rightarrow> string"
  ho_syntax :: "'j \<Rightarrow> string"
  ho_users :: "('j, 's, 'p, user) typed_json"
  ho_todo_lists :: "('j, 's, 'p, todo_list) typed_json"
  ho_todos :: "('j, 's, 'p, todo) typed_json"
  ho_replace :: "string \<Rightarrow> 'j \<Rightarrow> string + 'p"

section \<open>Polling\<close>

definition one_second :: int where "one_second = 1000000000"

definition read_clock :: "('j, 'w, 's, 'p) host \<Rightarrow> ('j, 'w) state \<Rightarrow> int \<times> ('j, 'w) state" where
  "read_clock H st = (case ho_now H (st_world st) of (t, w) \<Rightarrow> (t, st\<lparr>st_world := w\<rparr>))"

text \<open>How a loop ends: with what was awaited, by the context, or at its deadline.\<close>

datatype 'l poll_end = Seen | Cancelled string | TimedOut 'l

text \<open>The loop that looks at the clock before each attempt, and the one that looks after it.\<close>

partial_function (option) poll_while :: "'w env \<Rightarrow> ('j, 'w, 's, 'p) host
    \<Rightarrow> (('j, 'w) state \<Rightarrow> (bool \<times> 'l) \<times> ('j, 'w) state) \<Rightarrow> int \<Rightarrow> int \<Rightarrow> 'l \<Rightarrow> ('j, 'w) state
    \<Rightarrow> ('l poll_end \<times> ('j, 'w) state) option" where
  "poll_while E H attempt deadline d noted st =
     (case read_clock H st of (t, st1) \<Rightarrow>
        if t < deadline then
          (case attempt st1 of ((seen, l), st2) \<Rightarrow>
             if seen then Some (Seen, st2)
             else (case wait_timer E d st2 of
                     (Some e, st3) \<Rightarrow> Some (Cancelled e, st3)
                   | (None, st3) \<Rightarrow> poll_while E H attempt deadline d l st3))
        else Some (TimedOut noted, st1))"

partial_function (option) poll_until :: "'w env \<Rightarrow> ('j, 'w, 's, 'p) host
    \<Rightarrow> (('j, 'w) state \<Rightarrow> (bool \<times> 'l) \<times> ('j, 'w) state) \<Rightarrow> int \<Rightarrow> int \<Rightarrow> ('j, 'w) state
    \<Rightarrow> ('l poll_end \<times> ('j, 'w) state) option" where
  "poll_until E H attempt deadline d st =
     (case attempt st of ((seen, l), st1) \<Rightarrow>
        if seen then Some (Seen, st1)
        else (case read_clock H st1 of (t, st2) \<Rightarrow>
                if \<not> t < deadline then Some (TimedOut l, st2)
                else (case wait_timer E d st2 of
                        (Some e, st3) \<Rightarrow> Some (Cancelled e, st3)
                      | (None, st3) \<Rightarrow> poll_until E H attempt deadline d st3)))"

definition ready_attempt :: "'w env \<Rightarrow> 'j ojson \<Rightarrow> ('j, 'w) client \<Rightarrow> ('j, 'w) state
    \<Rightarrow> (bool \<times> unit) \<times> ('j, 'w) state" where
  "ready_attempt E J c st =
     (case ready E J c st of ((res, err), st') \<Rightarrow>
        ((err = None \<and> rs_ok res
            \<and> oj_is_boolean J (value_field J res ''ready'') \<and> oj_bool J (value_field J res ''ready''), ()), st'))"

definition wait_ready :: "'w env \<Rightarrow> 'j ojson \<Rightarrow> ('j, 'w, 's, 'p) host \<Rightarrow> ('j, 'w) client \<Rightarrow> int
    \<Rightarrow> ('j, 'w) state \<Rightarrow> (('j err + unit) \<times> ('j, 'w) state) option" where
  "wait_ready E J H c timeout st =
     (case read_clock H st of (t, st0) \<Rightarrow>
        map_option (\<lambda>(fin, st'). case fin of
            Seen \<Rightarrow> (Inr (), st')
          | Cancelled e \<Rightarrow> (Inl (EExt e), st')
          | TimedOut _ \<Rightarrow> (Inl (EMsg ''server not ready within %s'' [ho_duration H timeout]), st'))
          (poll_while E H (ready_attempt E J c) (t + timeout) (one_second div 2) () st0))"

definition default_interval :: "int \<Rightarrow> int" where
  "default_interval d = (if d \<le> 0 then 2 * one_second else d)"

text \<open>
  The variable \<open>last\<close> of the loops is a text; here it is the error or the format with its
  arguments that the text comes from, empty at the start.
\<close>

type_synonym 'j remark = "'j err option"

definition remark_text :: "('j, 'w, 's, 'p) host \<Rightarrow> 'j remark \<Rightarrow> string" where
  "remark_text H noted = (case noted of None \<Rightarrow> [] | Some e \<Rightarrow> ho_text H e)"

definition cached_read :: "'w env \<Rightarrow> 'j ojson \<Rightarrow> ('j, 'w) client \<Rightarrow> string \<Rightarrow> string \<Rightarrow> ('j, 'w) state
    \<Rightarrow> ('j err + 'j read_result) \<times> ('j, 'w) state" where
  "cached_read E J c collection rid st =
     read_doc E J c collection rid (Some \<lparr>ro_extra_fields = False, ro_cache_summaries = True\<rparr>) st"

definition present :: "'j ojson \<Rightarrow> 'j \<Rightarrow> bool" where
  "present J v \<longleftrightarrow> \<not> oj_is_missing J v \<and> \<not> oj_is_null J v"

definition shows_title :: "'j ojson \<Rightarrow> string \<Rightarrow> string \<Rightarrow> 'j \<Rightarrow> bool" where
  "shows_title J list_id want_title v \<longleftrightarrow> oj_str J (oj_get J v ''!'') = list_id
     \<and> oj_str J (oj_get J v ''title'') = want_title \<and> present J (oj_get J v ''#'')"

definition front_page_attempt :: "'w env \<Rightarrow> 'j ojson \<Rightarrow> ('j, 'w, 's, 'p) host \<Rightarrow> ('j, 'w) client
    \<Rightarrow> string \<Rightarrow> string \<Rightarrow> string \<Rightarrow> ('j, 'w) state \<Rightarrow> (bool \<times> 'j remark) \<times> ('j, 'w) state" where
  "front_page_attempt E J H c user_id list_id want_title st =
     (case cached_read E J c ''Users'' user_id st of
        (Inl e, st') \<Rightarrow> ((False, Some e), st')
      | (Inr rr, st') \<Rightarrow>
          (case summaries_for_array_field J rr ''todoLists'' of
             Inl e \<Rightarrow> ((False, Some e), st')
           | Inr sums \<Rightarrow>
               ((list_ex (shows_title J list_id want_title) sums,
                 Some (EMsg ''todoLists=%s cacheSummaries=%s summaries=%v''
                   [oj_json J (oj_get J (rr_sot rr) ''todoLists''), oj_json J (rr_cache_summaries rr), ho_values H sums])),
                st')))"

definition wait_user_front_page_title :: "'w env \<Rightarrow> 'j ojson \<Rightarrow> ('j, 'w, 's, 'p) host \<Rightarrow> ('j, 'w) client
    \<Rightarrow> string \<Rightarrow> string \<Rightarrow> string \<Rightarrow> int \<Rightarrow> int \<Rightarrow> ('j, 'w) state
    \<Rightarrow> (('j err + unit) \<times> ('j, 'w) state) option" where
  "wait_user_front_page_title E J H c user_id list_id want_title timeout interval st =
     (case read_clock H st of (t, st0) \<Rightarrow>
        map_option (\<lambda>(fin, st'). case fin of
            Seen \<Rightarrow> (Inr (), st')
          | Cancelled e \<Rightarrow> (Inl (EExt e), st')
          | TimedOut noted \<Rightarrow>
              (Inl (EMsg (''Users/%s front page missing TodoLists/%s title %q within %s (last=%s). '' @
                          ''If cacheSummaries is empty/nil while todoLists has @@ refs, rebuild the Compose image '' @
                          ''from a datoriumdb checkout that includes recursive FindRefFields (array cached refs)'')
                      [user_id, list_id, want_title, ho_duration H timeout, remark_text H noted]), st'))
          (poll_until E H (front_page_attempt E J H c user_id list_id want_title) (t + timeout)
             (default_interval interval) st0))"

definition summary_attempt :: "'w env \<Rightarrow> 'j ojson \<Rightarrow> ('j, 'w) client \<Rightarrow> string \<Rightarrow> string \<Rightarrow> string
    \<Rightarrow> string \<Rightarrow> string \<Rightarrow> string \<Rightarrow> ('j, 'w) state \<Rightarrow> (bool \<times> 'j remark) \<times> ('j, 'w) state" where
  "summary_attempt E J c collection rid ref_coll ref_id field want st =
     (case cached_read E J c collection rid st of
        (Inl e, st') \<Rightarrow> ((False, Some e), st')
      | (Inr rr, st') \<Rightarrow>
          (let sums = oj_get J (rr_cache_summaries rr) ref_coll; sum = oj_get J sums ref_id in
           if oj_is_object J sum then
             ((oj_str J (oj_get J sum field) = want \<and> present J (oj_get J sum ''#''),
               Some (EMsg ''%s'' [oj_json J sum])), st')
           else if oj_is_object J sums then
             ((False, Some (EMsg ''no summary for %s/%s in %s'' [ref_coll, ref_id, oj_json J sums])), st')
           else
             ((False, Some (EMsg ''no cacheSummaries.%s (env=%s)''
                [ref_coll, oj_json J (rr_cache_summaries rr)])), st')))"

definition wait_cache_summary :: "'w env \<Rightarrow> 'j ojson \<Rightarrow> ('j, 'w, 's, 'p) host \<Rightarrow> ('j, 'w) client
    \<Rightarrow> string \<Rightarrow> string \<Rightarrow> string \<Rightarrow> string \<Rightarrow> string \<Rightarrow> string \<Rightarrow> int \<Rightarrow> int \<Rightarrow> ('j, 'w) state
    \<Rightarrow> (('j err + unit) \<times> ('j, 'w) state) option" where
  "wait_cache_summary E J H c collection rid ref_coll ref_id field want timeout interval st =
     (case read_clock H st of (t, st0) \<Rightarrow>
        map_option (\<lambda>(fin, st'). case fin of
            Seen \<Rightarrow> (Inr (), st')
          | Cancelled e \<Rightarrow> (Inl (EExt e), st')
          | TimedOut noted \<Rightarrow>
              (Inl (EMsg ''cache summary %s/%s.%s != %q within %s (last=%s)''
                      [ref_coll, ref_id, field, want, ho_duration H timeout, remark_text H noted]), st'))
          (poll_until E H (summary_attempt E J c collection rid ref_coll ref_id field want) (t + timeout)
             (default_interval interval) st0))"

definition search_attempt :: "'w env \<Rightarrow> 'j ojson \<Rightarrow> ('j, 'w) client \<Rightarrow> string \<Rightarrow> string
    \<Rightarrow> (string \<times> goany) list option \<Rightarrow> string list option \<Rightarrow> string \<Rightarrow> ('j, 'w) state
    \<Rightarrow> (bool \<times> 'j remark) \<times> ('j, 'w) state" where
  "search_attempt E J c collection name vars segs want_id st =
     (case search E J c collection name vars segs st of
        (Inl e, st') \<Rightarrow> ((False, Some e), st')
      | (Inr sr, st') \<Rightarrow>
          ((want_id \<in> set (sr_matches sr), Some (EMsg ''%s'' [join_with (CHR '','') (sr_matches sr)])), st'))"

definition wait_search :: "'w env \<Rightarrow> 'j ojson \<Rightarrow> ('j, 'w, 's, 'p) host \<Rightarrow> ('j, 'w) client
    \<Rightarrow> string \<Rightarrow> string \<Rightarrow> (string \<times> goany) list option \<Rightarrow> string list option \<Rightarrow> string \<Rightarrow> int
    \<Rightarrow> ('j, 'w) state \<Rightarrow> (('j err + unit) \<times> ('j, 'w) state) option" where
  "wait_search E J H c collection name vars segs want_id timeout st =
     (case read_clock H st of (t, st0) \<Rightarrow>
        map_option (\<lambda>(fin, st'). case fin of
            Seen \<Rightarrow> (Inr (), st')
          | Cancelled e \<Rightarrow> (Inl (EExt e), st')
          | TimedOut noted \<Rightarrow>
              (Inl (EMsg ''search %s.%s missing %s within %s (last=%s)''
                      [collection, name, want_id, ho_duration H timeout, remark_text H noted]), st'))
          (poll_while E H (search_attempt E J c collection name vars segs want_id) (t + timeout)
             (one_second div 2) None st0))"

section \<open>Ids by slot range\<close>

definition pad_zeros :: "nat \<Rightarrow> string \<Rightarrow> string" where
  "pad_zeros n s = replicate (n - length s) (CHR ''0'') @ s"

definition candidate :: "nat \<Rightarrow> string" where
  "candidate i = ''todo'' @ pad_zeros 8 (show_nat i)"

text \<open>The loop has \<open>n\<close> rounds left; the panic is \<open>None\<close>.\<close>

fun find_id_loop :: "byte \<Rightarrow> byte \<Rightarrow> string list \<Rightarrow> nat \<Rightarrow> nat \<Rightarrow> string option" where
  "find_id_loop start fin excl i 0 = None"
| "find_id_loop start fin excl i (Suc n) =
     (let rid = candidate i; s = slot rid in
      if rid \<in> set excl then find_id_loop start fin excl (Suc i) n
      else if start \<le> s \<and> s \<le> fin then Some rid
      else find_id_loop start fin excl (Suc i) n)"

definition find_id_excluding :: "byte \<Rightarrow> byte \<Rightarrow> string list \<Rightarrow> string option" where
  "find_id_excluding start fin excl = find_id_loop start fin excl 0 200000"

definition find_id :: "byte \<Rightarrow> byte \<Rightarrow> string option" where
  "find_id start fin = find_id_excluding start fin []"

definition env_or :: "('j, 'w, 's, 'p) host \<Rightarrow> string \<Rightarrow> string \<Rightarrow> string" where
  "env_or H k def = (if ho_getenv H k \<noteq> [] then ho_getenv H k else def)"

end
