(* ===== verification/Integration.thy ===== *)
theory Integration
  imports Driver
begin

text \<open>
  The program of the integration driver (\<open>run\<close> in cmd/todo-integration/main.go) and the main
  functions of both commands. An action takes the state of the driver (the client's state with
  the binding counter, the lines printed so far, as formats with their arguments, and whether it
  panicked) to an error or a value; \<open>None\<close> is a run that does not end. \<open>run\<close> is one long function; its stages here are
  its stretches between two of the printed steps.
\<close>

section \<open>Actions\<close>

record ('j, 'w) driver =
  dv_bind :: "('j, 'w) bind_state"
  dv_out :: "(string \<times> string list) list"
  dv_panic :: bool

type_synonym ('a, 'j, 'w) action = "('j, 'w) driver \<Rightarrow> (('j err + 'a) \<times> ('j, 'w) driver) option"

definition finish :: "'a \<Rightarrow> ('a, 'j, 'w) action" where
  "finish a = (\<lambda>s. Some (Inr a, s))"

definition fail :: "'j err \<Rightarrow> ('a, 'j, 'w) action" where
  "fail e = (\<lambda>s. Some (Inl e, s))"

definition seq :: "('a, 'j, 'w) action \<Rightarrow> ('a \<Rightarrow> ('b, 'j, 'w) action) \<Rightarrow> ('b, 'j, 'w) action" where
  "seq f g = (\<lambda>s. case f s of
       None \<Rightarrow> None
     | Some (Inl e, s') \<Rightarrow> Some (Inl e, s')
     | Some (Inr a, s') \<Rightarrow> g a s')"

text \<open>\<open>fmt.Errorf\<close> around an error, checks, and what is done when an action fails.\<close>

definition annotate :: "string \<Rightarrow> ('a, 'j, 'w) action \<Rightarrow> ('a, 'j, 'w) action" where
  "annotate fmt f = (\<lambda>s. case f s of
       Some (Inl e, s') \<Rightarrow> Some (Inl (EWrap fmt [] e), s')
     | r \<Rightarrow> r)"

definition check :: "bool \<Rightarrow> 'j err \<Rightarrow> (unit, 'j, 'w) action" where
  "check b e = (if b then finish () else fail e)"

definition or_else :: "('a, 'j, 'w) action \<Rightarrow> ('j err \<Rightarrow> ('a, 'j, 'w) action) \<Rightarrow> ('a, 'j, 'w) action" where
  "or_else f g = (\<lambda>s. case f s of Some (Inl e, s') \<Rightarrow> g e s' | r \<Rightarrow> r)"

text \<open>Printing, and the operations of the client.\<close>

definition step :: "string \<Rightarrow> (unit, 'j, 'w) action" where
  "step name = (\<lambda>s. Some (Inr (), s\<lparr>dv_out := dv_out s @ [(''[%s]'', [name])]\<rparr>))"

definition detail :: "string \<Rightarrow> string list \<Rightarrow> (unit, 'j, 'w) action" where
  "detail fmt args = (\<lambda>s. Some (Inr (), s\<lparr>dv_out := dv_out s @ [(''  '' @ fmt, args)]\<rparr>))"

definition call :: "(('j, 'w) state \<Rightarrow> ('j err + 'a) \<times> ('j, 'w) state) \<Rightarrow> ('a, 'j, 'w) action" where
  "call f = (\<lambda>s. case f (fst (dv_bind s)) of (r, st) \<Rightarrow> Some (r, s\<lparr>dv_bind := (st, snd (dv_bind s))\<rparr>))"

definition call_item :: "(('j, 'w) state \<Rightarrow> ('a \<times> 'j err option) \<times> ('j, 'w) state) \<Rightarrow> ('a, 'j, 'w) action" where
  "call_item f = (\<lambda>s. case f (fst (dv_bind s)) of ((a, err), st) \<Rightarrow>
     Some (case err of None \<Rightarrow> Inr a | Some e \<Rightarrow> Inl e, s\<lparr>dv_bind := (st, snd (dv_bind s))\<rparr>))"

definition call_loop :: "(('j, 'w) state \<Rightarrow> (('j err + 'a) \<times> ('j, 'w) state) option) \<Rightarrow> ('a, 'j, 'w) action" where
  "call_loop f = (\<lambda>s. map_option (\<lambda>(r, st). (r, s\<lparr>dv_bind := (st, snd (dv_bind s))\<rparr>)) (f (fst (dv_bind s))))"

definition call_bind :: "(('j, 'w) bind_state \<Rightarrow> ('j err + 'a) \<times> ('j, 'w) bind_state) \<Rightarrow> ('a, 'j, 'w) action" where
  "call_bind f = (\<lambda>s. case f (dv_bind s) of (r, b) \<Rightarrow> Some (r, s\<lparr>dv_bind := b\<rparr>))"

definition pure_call :: "'j err + 'a \<Rightarrow> ('a, 'j, 'w) action" where
  "pure_call r = (\<lambda>s. Some (r, s))"

text \<open>\<open>err\<close> of a call whose result is not used.\<close>

definition error_of :: "('a, 'j, 'w) action \<Rightarrow> ('j err option, 'j, 'w) action" where
  "error_of f = (\<lambda>s. case f s of
       None \<Rightarrow> None
     | Some (Inl e, s') \<Rightarrow> Some (Inr (Some e), s')
     | Some (Inr a, s') \<Rightarrow> Some (Inr None, s'))"

section \<open>Setting up\<close>

definition driver_config :: "('j, 'w, 's, 'p) host \<Rightarrow> string \<Rightarrow> ('j, 'w) config" where
  "driver_config H tok =
     (let base1 = env_or H ''DATORIUM_SERVER1_URL'' ''http://127.0.0.1:18081'';
          base2 = env_or H ''DATORIUM_SERVER2_URL'' ''http://127.0.0.1:18082'' in
      \<lparr>cf_establishment_url = base1, cf_token = tok, cf_token_source = None, cf_http_client = None,
       cf_base_url_rewrite = map_of [(''server1'', base1), (''server2'', base2),
         (''http://server1:8080'', base1), (''http://server2:8080'', base2)],
       cf_prefer_server = [], cf_wrong_machine_retries = 5, cf_transport_retries = 0,
       cf_create_verify_delay = 0, cf_user_agent = []\<rparr>)"

definition connect :: "'w env \<Rightarrow> ('j, 'w, 's, 'p) host \<Rightarrow> (('j, 'w) client, 'j, 'w) action" where
  "connect E H =
     (let tok = ho_getenv H ''DATORIUM_TOKEN'' in
      if tok = [] then fail (EMsg ''DATORIUM_TOKEN is required'' [])
      else pure_call (new_client E (driver_config H tok)))"

definition bind_collections :: "'w env \<Rightarrow> 'j ojson \<Rightarrow> ('j, 'w, 's, 'p) host \<Rightarrow> ('j, 'w) client
    \<Rightarrow> (('j, 'w, 's) collection_client \<times> ('j, 'w, 's) collection_client \<times> ('j, 'w, 's) collection_client, 'j, 'w) action" where
  "bind_collections E J H c =
     seq (step ''BIND_TYPED'') (\<lambda>_.
     seq (annotate ''bind Users: %w'' (call_bind (bind E J (ho_users H) users_col (Some c)))) (\<lambda>users.
     seq (annotate ''bind TodoLists: %w'' (call_bind (bind E J (ho_todo_lists H) todo_lists_col (Some c)))) (\<lambda>todo_lists.
     seq (annotate ''bind Todos: %w'' (call_bind (bind E J (ho_todos H) todos_col (Some c)))) (\<lambda>todos.
     seq (call (\<lambda>st. (case cached_establishment st of
            None \<Rightarrow> Inl (EMsg ''establishment cache missing after Bind'' [])
          | Some est \<Rightarrow> if gc_version (es_general est) < 1
                        then Inl (EMsg ''establishment cache missing after Bind'' []) else Inr est, st))) (\<lambda>est.
     seq (detail ''bound Users, TodoLists, Todos; establishment %q version %d''
            [gc_name (es_general est), show_int (gc_version (es_general est))]) (\<lambda>_.
     finish (users, todo_lists, todos)))))))"

record ids =
  id_user_low :: string
  id_user_high :: string
  id_list_low :: string
  id_todo_high :: string
  id_todo_typed :: string

text \<open>
  A panic of \<open>findIDExcluding\<close> ends the process: the action stops the run as an error does, and
  records that the process panicked, which its exit code depends on.
\<close>

definition pick :: "string option \<Rightarrow> (string, 'j, 'w) action" where
  "pick r = (\<lambda>s. case r of
       None \<Rightarrow> Some (Inl (EExt ''no id in range''), s\<lparr>dv_panic := True\<rparr>)
     | Some rid \<Rightarrow> Some (Inr rid, s))"

definition pick_ids :: "(ids, 'j, 'w) action" where
  "pick_ids =
     seq (step ''PICK_IDS'') (\<lambda>_.
     seq (pick (find_id 0x00 0x7F)) (\<lambda>user_low.
     seq (pick (find_id 0x80 0xFF)) (\<lambda>user_high.
     seq (pick (find_id_excluding 0x00 0x7F [user_low])) (\<lambda>list_low.
     seq (pick (find_id_excluding 0x80 0xFF [user_high])) (\<lambda>todo_high.
     seq (pick (find_id_excluding 0x80 0xFF [user_high, todo_high])) (\<lambda>todo_typed.
     seq (detail ''userLow=%s(%s) userHigh=%s(%s) listLow=%s(%s) todoHigh=%s(%s) todoTyped=%s(%s)''
            [user_low, slot_hex user_low, user_high, slot_hex user_high, list_low, slot_hex list_low,
             todo_high, slot_hex todo_high, todo_typed, slot_hex todo_typed]) (\<lambda>_.
     finish \<lparr>id_user_low = user_low, id_user_high = user_high, id_list_low = list_low,
             id_todo_high = todo_high, id_todo_typed = todo_typed\<rparr>)))))))"

section \<open>Users and a list\<close>

text \<open>The arrow of the printed lines, in UTF-8.\<close>

definition arrow :: string where "arrow = [CHR 0xE2, CHR 0x86, CHR 0x92]"
definition list_title :: string where "list_title = ''Ship client''"
definition updated_list_title :: string where "updated_list_title = ''Ship client v2''"
definition updated_name :: string where "updated_name = ''Grace Hopper''"

definition create_stage :: "'w env \<Rightarrow> 'j ojson \<Rightarrow> ('j, 'w, 's, 'p) host \<Rightarrow> ('j, 'w) client
    \<Rightarrow> ('j, 'w, 's) collection_client \<Rightarrow> ('j, 'w, 's) collection_client \<Rightarrow> ids \<Rightarrow> (unit, 'j, 'w) action" where
  "create_stage E J H c users todo_lists k =
     seq (step ''CREATING_USERS_RAW'') (\<lambda>_.
     seq (annotate ''raw create userLow: %w'' (call (create_doc E J c ''Users'' (id_user_low k)
            (Some [(''$'', GStr ''Users:0''), (''displayName'', GStr ''Ada''),
                   (''email'', GStr ''ada@example.com''), (''todoLists'', GSlice [])])))) (\<lambda>_.
     seq (detail ''raw Create Users/%s (Ada)'' [id_user_low k]) (\<lambda>_.
     seq (step ''CREATING_USERS_TYPED'') (\<lambda>_.
     seq (annotate ''typed create userHigh: %w'' (call (create_typed_doc E J (ho_users H) users (Some (id_user_high k))
            \<lparr>us_display_name = ''Grace'', us_email = ''grace@example.com'', us_todo_lists = []\<rparr>))) (\<lambda>_.
     seq (detail ''typed CreateDoc Users/%s (Grace)'' [id_user_high k]) (\<lambda>_.
     seq (step ''CREATING_LIST_TYPED'') (\<lambda>_.
     seq (annotate ''typed create list: %w'' (call (create_typed_doc E J (ho_todo_lists H) todo_lists (Some (id_list_low k))
            \<lparr>tl_title = list_title, tl_owner = format_direct ''Users'' (id_user_high k),
             tl_owner_summary = format_cached ''Users'' (id_user_high k)\<rparr>))) (\<lambda>_.
     detail ''typed CreateDoc TodoLists/%s title=%q'' [id_list_low k, list_title]))))))))"

text \<open>The list is linked to its owner, and the owner's front page must show its title.\<close>

definition link_stage :: "'w env \<Rightarrow> 'j ojson \<Rightarrow> ('j, 'w, 's, 'p) host \<Rightarrow> ('j, 'w) client \<Rightarrow> ids
    \<Rightarrow> (unit, 'j, 'w) action" where
  "link_stage E J H c k =
     seq (step ''LINK_LIST_TO_USER_RAW'') (\<lambda>_.
     seq (annotate ''raw read owner before linking list: %w''
            (call (read_doc E J c ''Users'' (id_user_high k) None))) (\<lambda>owner.
     seq (annotate ''raw append todoLists cached ref: %w'' (call (patch_doc E J c ''Users'' (id_user_high k)
            (Some (patch_detail_appending_cached_ref (oj_str J (oj_get J (rr_sot owner) ''$''))
                     (oj_str J (oj_get J (rr_sot owner) ''#'')) ''todoLists'' ''TodoLists'' (id_list_low k)))))) (\<lambda>_.
     seq (detail ''raw Patch appended @@__TodoLists__%s onto Users/%s.todoLists'' [id_list_low k, id_user_high k]) (\<lambda>_.
     seq (step ''READ_USER_FRONT_PAGE'') (\<lambda>_.
     seq (annotate ''user front page initial: %w'' (call_loop (wait_user_front_page_title E J H c
            (id_user_high k) (id_list_low k) list_title (45 * one_second) (2 * one_second)))) (\<lambda>_.
     detail ''raw Read Users/%s with cacheSummaries; todoLists front page shows title %q''
       [id_user_high k, list_title]))))))"

definition patch_list_stage :: "'w env \<Rightarrow> 'j ojson \<Rightarrow> ('j, 'w, 's, 'p) host \<Rightarrow> ('j, 'w) client
    \<Rightarrow> ('j, 'w, 's) collection_client \<Rightarrow> ids \<Rightarrow> (unit, 'j, 'w) action" where
  "patch_list_stage E J H c todo_lists k =
     seq (step ''PATCH_LIST_TITLE_TYPED'') (\<lambda>_.
     seq (annotate ''typed get list before title patch: %w''
            (call_item (get_doc E J (ho_todo_lists H) todo_lists (id_list_low k)))) (\<lambda>item.
     seq (annotate ''typed create patch for list title: %w'' (pure_call (create_patch_from_changes J (ho_todo_lists H)
            todo_lists (item\<lparr>ci_doc := (ci_doc item)\<lparr>tl_title := updated_list_title\<rparr>\<rparr>)))) (\<lambda>list_patch.
     seq (annotate ''typed patch list title: %w''
            (call (patch_typed_doc E J (ho_todo_lists H) todo_lists list_patch))) (\<lambda>_.
     seq (detail (''typed CreatePatchFromChanges + PatchDoc TodoLists/%s title '' @ arrow @ '' %q'') [id_list_low k, updated_list_title]) (\<lambda>_.
     seq (step ''WAIT_FRONT_PAGE_UPDATE'') (\<lambda>_.
     seq (annotate ''user front page after list patch: %w'' (call_loop (wait_user_front_page_title E J H c
            (id_user_high k) (id_list_low k) updated_list_title (15 * one_second) (2 * one_second)))) (\<lambda>_.
     detail ''re-read Users/%s; cached TodoLists/%s.title now %q'' [id_user_high k, id_list_low k, updated_list_title])))))))"

section \<open>References\<close>

definition resolve_stage :: "'w env \<Rightarrow> 'j ojson \<Rightarrow> ('j, 'w, 's, 'p) host \<Rightarrow> ('j, 'w) client
    \<Rightarrow> ('j, 'w, 's) collection_client \<Rightarrow> ids \<Rightarrow> (unit, 'j, 'w) action" where
  "resolve_stage E J H c todo_lists k =
     (let owner_direct = format_direct ''Users'' (id_user_high k) in
     seq (step ''RESOLVE_LIVE_REF'') (\<lambda>_.
     seq (annotate ''typed get list: %w'' (call_item (get_doc_opts E J (ho_todo_lists H) todo_lists (id_list_low k)
            (Some \<lparr>ro_extra_fields = False, ro_cache_summaries = True\<rparr>)))) (\<lambda>item.
     seq (check (tl_owner (ci_doc item) = owner_direct)
            (EMsg ''expected owner %q, got %#v'' [owner_direct, tl_owner (ci_doc item)])) (\<lambda>_.
     seq (annotate ''resolve owner: %w'' (call (resolve_direct_ref E J c (tl_owner (ci_doc item)) None))) (\<lambda>owner.
     seq (check (oj_str J (oj_get J (rr_sot owner) ''displayName'') = ''Grace'')
            (EMsg ''resolved owner displayName=%#v'' [ho_syntax H (oj_get J (rr_sot owner) ''displayName'')])) (\<lambda>_.
     detail (''typed GetDocOpts + raw ResolveDirectRef '' @ arrow @ '' Grace'') []))))))"

text \<open>The list is read once so that the server makes a stub, then the owner is patched.\<close>

definition cached_ref_stage :: "'w env \<Rightarrow> 'j ojson \<Rightarrow> ('j, 'w, 's, 'p) host \<Rightarrow> ('j, 'w) client
    \<Rightarrow> ('j, 'w, 's) collection_client \<Rightarrow> ids \<Rightarrow> (unit, 'j, 'w) action" where
  "cached_ref_stage E J H c users k =
     seq (step ''READ_CACHED_REF'') (\<lambda>_.
     seq (annotate ''seed list cacheSummaries read: %w'' (call (read_doc E J c ''TodoLists'' (id_list_low k)
            (Some \<lparr>ro_extra_fields = False, ro_cache_summaries = True\<rparr>)))) (\<lambda>seed.
     seq (let sm = oj_get J (oj_get J (rr_cache_summaries seed) ''Users'') (id_user_high k) in
          if oj_is_object J sm then
            detail ''raw seed read TodoLists/%s; Users/%s summary=%s'' [id_list_low k, id_user_high k, oj_json J sm]
          else detail ''raw seed read TodoLists/%s; no Users cacheSummaries yet'' [id_list_low k]) (\<lambda>_.
     seq (step ''PATCH_CACHED_TARGET_TYPED'') (\<lambda>_.
     seq (annotate ''typed get owner before patch: %w''
            (call_item (get_doc E J (ho_users H) users (id_user_high k)))) (\<lambda>owner.
     seq (annotate ''build owner patch: %w'' (pure_call (case ho_replace H ''/displayName'' (oj_new_string J updated_name) of
            Inl e \<Rightarrow> Inl (EExt e) | Inr op \<Rightarrow> Inr op))) (\<lambda>op.
     seq (annotate ''typed CreatePatch owner displayName: %w''
            (pure_call (create_patch J (ho_users H) users owner op))) (\<lambda>owner_patch.
     seq (annotate ''typed PatchDoc owner displayName: %w''
            (call (patch_typed_doc E J (ho_users H) users owner_patch))) (\<lambda>_.
     seq (detail (''typed CreatePatch + PatchDoc Users/%s displayName '' @ arrow @ '' %q'') [id_user_high k, updated_name]) (\<lambda>_.
     seq (step ''WAIT_CACHE_UPDATE'') (\<lambda>_.
     seq (annotate ''cached summary did not observe owner patch: %w'' (call_loop (wait_cache_summary E J H c
            ''TodoLists'' (id_list_low k) ''Users'' (id_user_high k) ''displayName'' updated_name
            (15 * one_second) (2 * one_second)))) (\<lambda>_.
     detail ''re-read TodoLists/%s; cached Users/%s.displayName now %q''
       [id_list_low k, id_user_high k, updated_name])))))))))))"

section \<open>Todos\<close>

definition code_document_not_found :: string where "code_document_not_found = ''documentNotFound''"

definition not_found :: "'j err option \<Rightarrow> bool" where
  "not_found err = (case err of None \<Rightarrow> False | Some e \<Rightarrow> is_app_code e code_document_not_found)"

definition error_text :: "('j, 'w, 's, 'p) host \<Rightarrow> 'j err option \<Rightarrow> string" where
  "error_text H err = (case err of None \<Rightarrow> ''<nil>'' | Some e \<Rightarrow> ho_text H e)"

definition create_todo_stage :: "'w env \<Rightarrow> 'j ojson \<Rightarrow> ('j, 'w) client \<Rightarrow> ids \<Rightarrow> (unit, 'j, 'w) action" where
  "create_todo_stage E J c k =
     seq (step ''CREATING_TODO_RAW'') (\<lambda>_.
     seq (annotate ''raw create todo: %w'' (call (create_doc E J c ''Todos'' (id_todo_high k)
            (Some [(''$'', GStr ''Todos:0''), (''title'', GStr ''Write integration test''), (''status'', GStr ''open''),
                   (''list'', GStr (format_direct ''TodoLists'' (id_list_low k))),
                   (''listSummary'', GStr (format_cached ''TodoLists'' (id_list_low k)))])))) (\<lambda>_.
     detail ''raw Create Todos/%s status=open'' [id_todo_high k]))"

definition system_fields :: "'j ojson \<Rightarrow> 'j read_result \<Rightarrow> (string \<times> goany) list" where
  "system_fields J rr = [(''$'', GStr (oj_str J (oj_get J (rr_sot rr) ''$''))),
                         (''#'', GStr (oj_str J (oj_get J (rr_sot rr) ''#'')))]"

text \<open>The stage returns the last read of the todo.\<close>

definition patch_todo_stage :: "'w env \<Rightarrow> 'j ojson \<Rightarrow> ('j, 'w, 's, 'p) host \<Rightarrow> ('j, 'w) client \<Rightarrow> ids
    \<Rightarrow> ('j read_result, 'j, 'w) action" where
  "patch_todo_stage E J H c k =
     seq (step ''PATCHING_TODO_RAW'') (\<lambda>_.
     seq (annotate ''raw read todo before patch: %w'' (call (read_doc E J c ''Todos'' (id_todo_high k) None))) (\<lambda>rr0.
     seq (annotate ''raw patch todo: %w'' (call (patch_doc E J c ''Todos'' (id_todo_high k)
            (Some (system_fields J rr0 @ [(''RFC6902'', GSlice [GMap [(''op'', GStr ''replace''),
               (''path'', GStr ''/status''), (''value'', GStr ''done'')]])]))))) (\<lambda>patched.
     (let before_ver = oj_str J (oj_get J (rr_sot rr0) ''#'') in
     seq (check (wr_version patched \<noteq> [])
            (EMsg ''expected versions.after after raw patch, got empty Version (env=%s)''
               [oj_json J (value_field J (wr_result patched) ''versions'')])) (\<lambda>_.
     seq (check (wr_version patched \<noteq> before_ver)
            (EMsg ''expected new version after raw patch, still %q'' [wr_version patched])) (\<lambda>_.
     seq (check (wr_version_before patched = [] \<or> wr_version_before patched = before_ver)
            (EMsg ''versions.before=%q want %q'' [wr_version_before patched, before_ver])) (\<lambda>_.
     seq (annotate ''raw read todo after patch: %w'' (call (read_doc E J c ''Todos'' (id_todo_high k)
            (Some \<lparr>ro_extra_fields = False, ro_cache_summaries = True\<rparr>)))) (\<lambda>rr1.
     seq (check (oj_str J (oj_get J (rr_sot rr1) ''status'') = ''done'')
            (EMsg ''status=%#v want done'' [ho_syntax H (oj_get J (rr_sot rr1) ''status'')])) (\<lambda>_.
     seq (detail (''raw Patch status open '' @ arrow @ '' done; version %s '' @ arrow @ '' %s'')
            [before_ver, wr_version patched]) (\<lambda>_.
     finish rr1))))))))))"

definition search_todo_stage :: "'w env \<Rightarrow> 'j ojson \<Rightarrow> ('j, 'w, 's, 'p) host \<Rightarrow> ('j, 'w) client \<Rightarrow> ids
    \<Rightarrow> (unit, 'j, 'w) action" where
  "search_todo_stage E J H c k =
     seq (step ''WAIT_SEARCH'') (\<lambda>_.
     seq (call_loop (wait_search E J H c ''Todos'' ''byStatus'' (Some [(''status'', GStr ''done'')])
            (Some (equals_string_segments [''done''])) (id_todo_high k) (45 * one_second))) (\<lambda>_.
     detail ''search Todos.byStatus matched %s'' [id_todo_high k]))"

definition delete_todo_stage :: "'w env \<Rightarrow> 'j ojson \<Rightarrow> ('j, 'w, 's, 'p) host \<Rightarrow> ('j, 'w) client \<Rightarrow> ids
    \<Rightarrow> 'j read_result \<Rightarrow> (unit, 'j, 'w) action" where
  "delete_todo_stage E J H c k rr =
     seq (step ''DELETING_TODO_RAW'') (\<lambda>_.
     seq (or_else (call (delete_doc E J c ''Todos'' (id_todo_high k) (Some (system_fields J rr))))
            (\<lambda>e. seq (or_else (call (read_doc E J c ''Todos'' (id_todo_high k) None))
                        (\<lambda>rerr. fail (EWrap ''raw delete todo: %w (re-read: %v)'' [ho_text H rerr] e))) (\<lambda>rr'.
                 annotate ''raw delete todo retry: %w''
                   (call (delete_doc E J c ''Todos'' (id_todo_high k) (Some (system_fields J rr'))))))) (\<lambda>_.
     seq (error_of (call (read_doc E J c ''Todos'' (id_todo_high k) None))) (\<lambda>err.
     seq (check (not_found err)
            (EMsg ''expected documentNotFound after raw delete, got %v'' [error_text H err])) (\<lambda>_.
     detail ''raw Delete confirmed (documentNotFound)'' []))))"

text \<open>
  The typed todo: created, read, changed and patched from the private baseline (the second copy
  of the item is corrupted on purpose), read again, and deleted.
\<close>

definition typed_patch_stage :: "'w env \<Rightarrow> 'j ojson \<Rightarrow> ('j, 'w, 's, 'p) host
    \<Rightarrow> ('j, 'w, 's) collection_client \<Rightarrow> ids \<Rightarrow> (('j, todo) collection_item, 'j, 'w) action" where
  "typed_patch_stage E J H todos k =
     seq (step ''TYPED_TODO_CRUD'') (\<lambda>_.
     seq (annotate ''typed create todo: %w'' (call (create_typed_doc E J (ho_todos H) todos (Some (id_todo_typed k))
            \<lparr>td_title = ''Typed path coverage'', td_status = ''open'',
             td_list = format_direct ''TodoLists'' (id_list_low k),
             td_list_summary = format_cached ''TodoLists'' (id_list_low k)\<rparr>))) (\<lambda>_.
     seq (annotate ''typed get todo: %w'' (call_item (get_doc E J (ho_todos H) todos (id_todo_typed k)))) (\<lambda>item.
     seq (check (td_status (ci_doc item) = ''open'' \<and> td_status (ci_original_doc item) = ''open'')
            (EMsg ''typed get todo status=%q original=%q''
               [td_status (ci_doc item), td_status (ci_original_doc item)])) (\<lambda>_.
     seq (annotate ''typed CreatePatchFromChanges todo: %w'' (pure_call (create_patch_from_changes J (ho_todos H) todos
            (item\<lparr>ci_doc := (ci_doc item)\<lparr>td_status := ''done''\<rparr>,
                  ci_original_doc := (ci_original_doc item)\<lparr>td_status := ''corrupted''\<rparr>\<rparr>)))) (\<lambda>typed_patch.
     seq (annotate ''typed PatchDoc todo: %w''
            (call (patch_typed_doc E J (ho_todos H) todos typed_patch))) (\<lambda>patched.
     seq (check (wr_version patched \<noteq> [] \<and> wr_version patched \<noteq> dm_version (ci_meta item))
            (EMsg ''typed patch did not advance version: before=%q after=%q''
               [dm_version (ci_meta item), wr_version patched])) (\<lambda>_.
     seq (annotate ''typed get todo after patch: %w'' (call_item (get_doc E J (ho_todos H) todos (id_todo_typed k)))) (\<lambda>item'.
     seq (check (td_status (ci_doc item') = ''done'')
            (EMsg ''typed todo status=%q want done'' [td_status (ci_doc item')])) (\<lambda>_.
     finish item')))))))))"

definition typed_delete_stage :: "'w env \<Rightarrow> 'j ojson \<Rightarrow> ('j, 'w, 's, 'p) host
    \<Rightarrow> ('j, 'w, 's) collection_client \<Rightarrow> ids \<Rightarrow> ('j, todo) collection_item \<Rightarrow> (unit, 'j, 'w) action" where
  "typed_delete_stage E J H todos k item =
     seq (or_else (call (delete_typed_doc E J todos (dm_id (ci_meta item)) (dm_version (ci_meta item))))
            (\<lambda>e. seq (or_else (call_item (get_doc E J (ho_todos H) todos (id_todo_typed k)))
                        (\<lambda>rerr. fail (EWrap ''typed delete todo: %w (re-get: %v)'' [ho_text H rerr] e))) (\<lambda>item'.
                 annotate ''typed delete todo retry: %w''
                   (call (delete_typed_doc E J todos (dm_id (ci_meta item')) (dm_version (ci_meta item'))))))) (\<lambda>_.
     seq (error_of (call_item (get_doc E J (ho_todos H) todos (id_todo_typed k)))) (\<lambda>err.
     seq (check (not_found err)
            (EMsg ''expected documentNotFound after typed delete, got %v'' [error_text H err])) (\<lambda>_.
     detail ''typed CreateDoc/GetDoc/CreatePatchFromChanges/PatchDoc/DeleteDoc on Todos/%s'' [id_todo_typed k])))"

section \<open>The program\<close>

definition run :: "'w env \<Rightarrow> 'j ojson \<Rightarrow> ('j, 'w, 's, 'p) host \<Rightarrow> (unit, 'j, 'w) action" where
  "run E J H =
     seq (connect E H) (\<lambda>c.
     seq (step ''WAIT_READY'') (\<lambda>_.
     seq (call_loop (wait_ready E J H c (60 * one_second))) (\<lambda>_.
     seq (bind_collections E J H c) (\<lambda>(users, todo_lists, todos).
     seq pick_ids (\<lambda>k.
     seq (create_stage E J H c users todo_lists k) (\<lambda>_.
     seq (link_stage E J H c k) (\<lambda>_.
     seq (patch_list_stage E J H c todo_lists k) (\<lambda>_.
     seq (resolve_stage E J H c todo_lists k) (\<lambda>_.
     seq (cached_ref_stage E J H c users k) (\<lambda>_.
     seq (create_todo_stage E J c k) (\<lambda>_.
     seq (patch_todo_stage E J H c k) (\<lambda>rr.
     seq (search_todo_stage E J H c k) (\<lambda>_.
     seq (delete_todo_stage E J H c k rr) (\<lambda>_.
     seq (typed_patch_stage E J H todos k) (\<lambda>item.
     typed_delete_stage E J H todos k item)))))))))))))))"

text \<open>The process: its exit code, the lines on the standard output and on the standard error (of a
  panic, whose exit code is 2, the first one, without the stack).\<close>

definition todo_integration :: "'w env \<Rightarrow> 'j ojson \<Rightarrow> ('j, 'w, 's, 'p) host \<Rightarrow> 'w
    \<Rightarrow> (int \<times> (string \<times> string list) list \<times> (string \<times> string list) list) option" where
  "todo_integration E J H w =
     (case run E J H \<lparr>dv_bind = (\<lparr>st_cache = None, st_trace = [], st_world = w\<rparr>, 0), dv_out = [], dv_panic = False\<rparr> of
        None \<Rightarrow> None
      | Some (Inl e, s) \<Rightarrow>
          if dv_panic s then Some (2, dv_out s, [(''panic: %v'', [''no id in range''])])
          else Some (1, dv_out s, [(''todo-integration FAILED: %v'', [ho_text H e])])
      | Some (Inr _, s) \<Rightarrow>
          Some (0, dv_out s @ [(''[%s]'', [''PASSED'']), (''todo-integration PASSED'', [])], []))"

end
