(* ===== verification/DriverProps.thy ===== *)
theory DriverProps
  imports Integration TestToken
begin

text \<open>
  What a passing run of the integration driver certifies, and the ids it works on.
\<close>

section \<open>Actions that succeed\<close>

lemma seq_done [simp]:
  "seq f g s = Some (Inr b, s'') \<longleftrightarrow> (\<exists>a s'. f s = Some (Inr a, s') \<and> g a s' = Some (Inr b, s''))"
  by (auto simp: seq_def split: option.splits sum.splits prod.splits)

lemma annotate_done [simp]: "annotate fmt f s = Some (Inr a, s') \<longleftrightarrow> f s = Some (Inr a, s')"
  by (auto simp: annotate_def split: option.splits sum.splits prod.splits)

lemma check_done [simp]: "check b e s = Some (Inr a, s') \<longleftrightarrow> b \<and> s' = s"
  by (auto simp: check_def finish_def fail_def)

lemma finish_done [simp]: "finish a s = Some (Inr b, s') \<longleftrightarrow> b = a \<and> s' = s"
  by (auto simp: finish_def)

lemma print_done [simp]:
  "step name s = Some (Inr a, s') \<longleftrightarrow> s' = s\<lparr>dv_out := dv_out s @ [(''[%s]'', [name])]\<rparr>"
  "detail fmt args s = Some (Inr a, s') \<longleftrightarrow> s' = s\<lparr>dv_out := dv_out s @ [(''  '' @ fmt, args)]\<rparr>"
  by (auto simp: step_def detail_def)

lemma call_done:
  "call f s = Some (Inr a, s') \<longleftrightarrow>
     (\<exists>st. f (fst (dv_bind s)) = (Inr a, st) \<and> s' = s\<lparr>dv_bind := (st, snd (dv_bind s))\<rparr>)"
  by (auto simp: call_def split: prod.splits)

lemma call_item_done:
  "call_item f s = Some (Inr a, s') \<longleftrightarrow>
     (\<exists>st. f (fst (dv_bind s)) = ((a, None), st) \<and> s' = s\<lparr>dv_bind := (st, snd (dv_bind s))\<rparr>)"
  by (auto simp: call_item_def split: prod.splits option.splits)

lemma call_loop_done:
  "call_loop f s = Some (Inr a, s') \<longleftrightarrow>
     (\<exists>st. f (fst (dv_bind s)) = Some (Inr a, st) \<and> s' = s\<lparr>dv_bind := (st, snd (dv_bind s))\<rparr>)"
  by (auto simp: call_loop_def)

lemma error_of_call:
  "error_of (call f) s = Some (Inr r, s') \<longleftrightarrow>
     (\<exists>x st. f (fst (dv_bind s)) = (x, st) \<and> s' = s\<lparr>dv_bind := (st, snd (dv_bind s))\<rparr>
        \<and> r = (case x of Inl e \<Rightarrow> Some e | Inr _ \<Rightarrow> None))"
  by (auto simp: error_of_def call_def split: prod.splits sum.splits)

lemma error_of_call_item:
  "error_of (call_item f) s = Some (Inr r, s') \<longleftrightarrow>
     (\<exists>a st. f (fst (dv_bind s)) = ((a, r), st) \<and> s' = s\<lparr>dv_bind := (st, snd (dv_bind s))\<rparr>)"
  by (auto simp: error_of_def call_item_def split: prod.splits sum.splits option.splits)

lemma left_of [simp]: "(case x of Inl e \<Rightarrow> Some e | Inr a \<Rightarrow> None) = Some e \<longleftrightarrow> x = Inl e"
  "Some e = (case x of Inl e \<Rightarrow> Some e | Inr a \<Rightarrow> None) \<longleftrightarrow> x = Inl e"
  by (cases x; auto)+

lemma not_found_Some: "not_found err \<longleftrightarrow> (\<exists>e. err = Some e \<and> is_app_code e code_document_not_found)"
  by (auto simp: not_found_def split: option.splits)

section \<open>What a wait saw\<close>

lemma poll_while_Seen:
  assumes "poll_while E H attempt deadline d l st = Some (Seen, st')"
  shows "\<exists>st0 l'. attempt st0 = ((True, l'), st')"
proof (rule poll_while.raw_induct [where P = "\<lambda>E H attempt deadline d l st r. case r of (x, st') \<Rightarrow>
      x = Seen \<longrightarrow> (\<exists>st0 l'. attempt st0 = ((True, l'), st'))", OF _ assms, simplified])
qed (auto split: prod.splits if_splits option.splits)

lemma poll_until_Seen:
  assumes "poll_until E H attempt deadline d st = Some (Seen, st')"
  shows "\<exists>st0 l'. attempt st0 = ((True, l'), st')"
proof (rule poll_until.raw_induct [where P = "\<lambda>E H attempt deadline d st r. case r of (x, st') \<Rightarrow>
      x = Seen \<longrightarrow> (\<exists>st0 l'. attempt st0 = ((True, l'), st'))", OF _ assms, simplified])
qed (auto split: prod.splits if_splits option.splits)

lemma end_Seen:
  assumes "map_option (\<lambda>(fin, st'). case fin of Seen \<Rightarrow> (Inr (), st') | Cancelled e \<Rightarrow> (Inl (f e), st')
      | TimedOut l \<Rightarrow> (Inl (g l), st')) p = Some (Inr u, st')"
  shows "p = Some (Seen, st')"
proof -
  from assms obtain fin st2 where "p = Some (fin, st2)" by auto
  with assms show ?thesis by (cases fin) auto
qed

lemma front_page_seen:
  assumes "wait_user_front_page_title E J H c user_id list_id want_title timeout interval st = Some (Inr u, st')"
  shows "\<exists>st0 rr sums. cached_read E J c ''Users'' user_id st0 = (Inr rr, st')
    \<and> summaries_for_array_field J rr ''todoLists'' = Inr sums \<and> list_ex (shows_title J list_id want_title) sums"
proof -
  obtain t st1 where t: "read_clock H st = (t, st1)" by (metis surj_pair)
  have "poll_until E H (front_page_attempt E J H c user_id list_id want_title) (t + timeout)
      (default_interval interval) st1 = Some (Seen, st')"
    using assms end_Seen unfolding wait_user_front_page_title_def t prod.case by fast
  then obtain st0 l where "front_page_attempt E J H c user_id list_id want_title st0 = ((True, l), st')"
    using poll_until_Seen by blast
  then show ?thesis by (auto simp: front_page_attempt_def split: prod.splits sum.splits)
qed

lemma summary_seen:
  assumes "wait_cache_summary E J H c collection rid ref_coll ref_id field want timeout interval st = Some (Inr u, st')"
  shows "\<exists>st0 rr. cached_read E J c collection rid st0 = (Inr rr, st')
    \<and> oj_str J (oj_get J (oj_get J (oj_get J (rr_cache_summaries rr) ref_coll) ref_id) field) = want"
proof -
  obtain t st1 where t: "read_clock H st = (t, st1)" by (metis surj_pair)
  have "poll_until E H (summary_attempt E J c collection rid ref_coll ref_id field want) (t + timeout)
      (default_interval interval) st1 = Some (Seen, st')"
    using assms end_Seen unfolding wait_cache_summary_def t prod.case by fast
  then obtain st0 l where "summary_attempt E J c collection rid ref_coll ref_id field want st0 = ((True, l), st')"
    using poll_until_Seen by blast
  then show ?thesis by (auto simp: summary_attempt_def Let_def split: prod.splits sum.splits if_splits)
qed

lemma search_seen:
  assumes "wait_search E J H c collection name vars segs want_id timeout st = Some (Inr u, st')"
  shows "\<exists>st0 sr. search E J c collection name vars segs st0 = (Inr sr, st') \<and> want_id \<in> set (sr_matches sr)"
proof -
  obtain t st1 where t: "read_clock H st = (t, st1)" by (metis surj_pair)
  have "poll_while E H (search_attempt E J c collection name vars segs want_id) (t + timeout)
      (one_second div 2) None st1 = Some (Seen, st')"
    using assms end_Seen unfolding wait_search_def t prod.case by fast
  from poll_while_Seen [OF this]
  obtain st0 l where "search_attempt E J c collection name vars segs want_id st0 = ((True, l), st')" by blast
  then show ?thesis by (auto simp: search_attempt_def split: prod.splits sum.splits)
qed

section \<open>What a stage that succeeds saw\<close>

lemma patch_list_seen:
  assumes "patch_list_stage E J H c todo_lists k s = Some (Inr u, s')"
  shows "\<exists>st st' rr sums. cached_read E J c ''Users'' (id_user_high k) st = (Inr rr, st')
    \<and> summaries_for_array_field J rr ''todoLists'' = Inr sums
    \<and> list_ex (shows_title J (id_list_low k) updated_list_title) sums"
  using assms by (auto simp: patch_list_stage_def call_loop_done dest!: front_page_seen)

lemma cached_ref_seen:
  assumes "cached_ref_stage E J H c users k s = Some (Inr u, s')"
  shows "\<exists>st st' rr. cached_read E J c ''TodoLists'' (id_list_low k) st = (Inr rr, st')
    \<and> oj_str J (oj_get J (oj_get J (oj_get J (rr_cache_summaries rr) ''Users'') (id_user_high k)) ''displayName'') = updated_name"
  using assms by (auto simp: cached_ref_stage_def call_loop_done dest!: summary_seen)

lemma patch_todo_seen:
  assumes "patch_todo_stage E J H c k s = Some (Inr rr, s')"
  shows "oj_str J (oj_get J (rr_sot rr) ''status'') = ''done''
    \<and> (\<exists>st. read_doc E J c ''Todos'' (id_todo_high k) (Some \<lparr>ro_extra_fields = False, ro_cache_summaries = True\<rparr>) st
         = (Inr rr, fst (dv_bind s')))"
  using assms by (auto simp: patch_todo_stage_def Let_def call_done)

lemma search_todo_seen:
  assumes "search_todo_stage E J H c k s = Some (Inr u, s')"
  shows "\<exists>st st' sr. search E J c ''Todos'' ''byStatus'' (Some [(''status'', GStr ''done'')])
      (Some (equals_string_segments [''done''])) st = (Inr sr, st') \<and> id_todo_high k \<in> set (sr_matches sr)"
  using assms by (auto simp: search_todo_stage_def call_loop_done dest!: search_seen)

lemma delete_todo_seen:
  assumes "delete_todo_stage E J H c k rr s = Some (Inr u, s')"
  shows "\<exists>st st' e. read_doc E J c ''Todos'' (id_todo_high k) None st = (Inl e, st')
    \<and> is_app_code e code_document_not_found"
  using assms by (clarsimp simp: delete_todo_stage_def error_of_call not_found_Some) blast

lemma typed_patch_seen:
  assumes "typed_patch_stage E J H todos k s = Some (Inr item, s')"
  shows "td_status (ci_doc item) = ''done''
    \<and> (\<exists>st. get_doc E J (ho_todos H) todos (id_todo_typed k) st = ((item, None), fst (dv_bind s')))"
  using assms
  by (clarsimp simp: typed_patch_stage_def call_item_done) blast

lemma typed_delete_seen:
  assumes "typed_delete_stage E J H todos k item s = Some (Inr u, s')"
  shows "\<exists>st x e. get_doc E J (ho_todos H) todos (id_todo_typed k) st = ((x, Some e), fst (dv_bind s'))
    \<and> is_app_code e code_document_not_found"
  using assms by (clarsimp simp: typed_delete_stage_def error_of_call_item not_found_Some) blast

section \<open>The ids\<close>

lemma find_id_loop_exact:
  "(case find_id_loop a b excl i n of
      Some rid \<Rightarrow> (\<exists>m. i \<le> m \<and> m < i + n \<and> rid = candidate m \<and> rid \<notin> set excl \<and> a \<le> slot rid \<and> slot rid \<le> b
        \<and> (\<forall>j. i \<le> j \<and> j < m \<longrightarrow> candidate j \<in> set excl \<or> \<not> (a \<le> slot (candidate j) \<and> slot (candidate j) \<le> b)))
    | None \<Rightarrow> (\<forall>j. i \<le> j \<and> j < i + n \<longrightarrow>
        candidate j \<in> set excl \<or> \<not> (a \<le> slot (candidate j) \<and> slot (candidate j) \<le> b)))"
proof (induction n arbitrary: i)
  case (Suc n)
  let ?bad = "\<lambda>j. candidate j \<in> set excl \<or> \<not> (a \<le> slot (candidate j) \<and> slot (candidate j) \<le> b)"
  show ?case
  proof (cases "?bad i")
    case False
    then show ?thesis by (auto simp: Let_def intro!: exI [of _ i])
  next
    case True
    have from_next: "(\<forall>j. i \<le> j \<and> P j \<longrightarrow> ?bad j) \<longleftrightarrow> (\<forall>j. Suc i \<le> j \<and> P j \<longrightarrow> ?bad j)" for P
      using True by (metis Suc_leD Suc_leI le_neq_implies_less)
    have "find_id_loop a b excl i (Suc n) = find_id_loop a b excl (Suc i) n" using True by (auto simp: Let_def)
    then show ?thesis using Suc.IH [of "Suc i"] unfolding from_next
      by (auto split: option.splits) (metis Suc_leD)
  qed
qed auto

lemma candidates:
  "candidate 0 = ''todo00000000''" "candidate 1 = ''todo00000001''" "candidate 2 = ''todo00000002''"
  "candidate 3 = ''todo00000003''" "candidate 4 = ''todo00000004''" "candidate 5 = ''todo00000005''"
  by code_simp+

lemma ranges: "[0..<2] = [0, 1]" "[0..<3] = [0, 1, 2]" "[0..<5] = [0, 1, 2, 3, 4 :: nat]"
  by code_simp+

lemma plain_slot:
  assumes "ascii s" "CHR ''.'' \<notin> set s"
  shows "slot s = raw_slot s"
proof -
  have "runes_of s = map of_char s" using assms(1) by (simp add: runes_of_ascii)
  moreover have "of_char c \<noteq> (0x2E :: nat)" if "c \<in> set s" for c
  proof
    assume "of_char c = (0x2E :: nat)"
    also have "\<dots> = of_char (CHR ''.'')" by simp
    finally show False using that assms(2) by (simp only: of_char_eq_iff)
  qed
  ultimately have "\<not> late_at (runes_of s) i" for i by (auto simp: late_at_def)
  then show ?thesis by (simp add: slot_raw sharding_prefix_whole)
qed

lemma picked_slots:
  "slot ''todo00000000'' = 0x0F" "slot ''todo00000001'' = 0x99" "slot ''todo00000002'' = 0x23"
  "slot ''todo00000003'' = 0xB5" "slot ''todo00000004'' = 0x16" "slot ''todo00000005'' = 0x80"
  by (simp_all add: plain_slot raw_slot_def crc_eval)

section \<open>Properties\<close>

text \<open>C37: The choice of ids is exact: the result is the first candidate that is not excluded and whose
  slot lies in the range, and there is none (the program panics) exactly when none of the 200000
  candidates is.\<close>

theorem find_id_exact:
  "(case find_id_excluding a b excl of
      Some rid \<Rightarrow> (\<exists>m < 200000. rid = candidate m \<and> rid \<notin> set excl \<and> a \<le> slot rid \<and> slot rid \<le> b
        \<and> (\<forall>j < m. candidate j \<in> set excl \<or> \<not> (a \<le> slot (candidate j) \<and> slot (candidate j) \<le> b)))
    | None \<Rightarrow> (\<forall>j < 200000. candidate j \<in> set excl \<or> \<not> (a \<le> slot (candidate j) \<and> slot (candidate j) \<le> b)))"
  using find_id_loop_exact [where a = a and b = b and excl = excl and i = 0 and n = 200000]
  unfolding find_id_excluding_def by (auto split: option.splits)

text \<open>The five ids of the driver exist: its choice does not panic.\<close>

lemma find_id_first:
  assumes "m < 200000" "candidate m \<notin> set excl" "a \<le> slot (candidate m)" "slot (candidate m) \<le> b"
    and "list_all (\<lambda>j. candidate j \<in> set excl \<or> \<not> (a \<le> slot (candidate j) \<and> slot (candidate j) \<le> b)) [0..<m]"
  shows "find_id_excluding a b excl = Some (candidate m)"
proof (cases "find_id_excluding a b excl")
  case None
  then show ?thesis
    using assms find_id_loop_exact [where a = a and b = b and excl = excl and i = 0 and n = 200000]
    by (auto simp: find_id_excluding_def)
next
  case (Some rid)
  then obtain m' where m': "rid = candidate m'" "rid \<notin> set excl" "a \<le> slot rid" "slot rid \<le> b"
    "\<forall>j < m'. candidate j \<in> set excl \<or> \<not> (a \<le> slot (candidate j) \<and> slot (candidate j) \<le> b)"
    using find_id_loop_exact [where a = a and b = b and excl = excl and i = 0 and n = 200000]
    by (auto simp: find_id_excluding_def)
  then have "m' = m" using assms unfolding list_all_iff set_upt by (metis atLeastLessThan_iff le0 linorder_neqE_nat)
  then show ?thesis using m' Some by simp
qed

lemma picks:
  "find_id 0x00 0x7F = Some ''todo00000000''" "find_id 0x80 0xFF = Some ''todo00000001''"
  "find_id_excluding 0x00 0x7F [''todo00000000''] = Some ''todo00000002''"
  "find_id_excluding 0x80 0xFF [''todo00000001''] = Some ''todo00000003''"
  "find_id_excluding 0x80 0xFF [''todo00000001'', ''todo00000003''] = Some ''todo00000005''"
  using find_id_first [where m = 0 and excl = "[]" and a = "0x00" and b = "0x7F"]
    find_id_first [where m = 1 and excl = "[]" and a = "0x80" and b = "0xFF"]
    find_id_first [where m = 2 and excl = "[''todo00000000'']" and a = "0x00" and b = "0x7F"]
    find_id_first [where m = 3 and excl = "[''todo00000001'']" and a = "0x80" and b = "0xFF"]
    find_id_first [where m = 5 and excl = "[''todo00000001'', ''todo00000003'']" and a = "0x80" and b = "0xFF"]
  by (simp_all only: find_id_def) (simp_all add: ranges candidates candidates(2) [simplified] picked_slots)

theorem find_id_exact_witness:
  "\<exists>m < 200000. ''todo00000002'' = candidate m \<and> candidate m \<notin> set [''todo00000000'']
    \<and> 0x00 \<le> slot (candidate m) \<and> slot (candidate m) \<le> 0x7F"
proof -
  have "case find_id_excluding 0x00 0x7F [''todo00000000''] of
      Some rid \<Rightarrow> \<exists>m < 200000. rid = candidate m \<and> rid \<notin> set [''todo00000000''] \<and> 0x00 \<le> slot rid \<and> slot rid \<le> 0x7F
    | None \<Rightarrow> \<forall>j < 200000. candidate j \<in> set [''todo00000000''] \<or> \<not> (0x00 \<le> slot (candidate j) \<and> slot (candidate j) \<le> 0x7F)"
    using find_id_exact [where a = "0x00" and b = "0x7F" and excl = "[''todo00000000'']"]
    by (simp only: picks option.case) blast
  then show ?thesis unfolding picks option.case by (metis)
qed

text \<open>The driver always finds its five ids: two on the lower half of the slots and three on the upper
  half, all different, so that the run covers both shards; the panic is never reached.\<close>

lemma pick_ids_total:
  "\<exists>k s'. pick_ids s = Some (Inr k, s') \<and> dv_bind s' = dv_bind s \<and> dv_panic s' = dv_panic s
     \<and> distinct [id_user_low k, id_user_high k, id_list_low k, id_todo_high k, id_todo_typed k]
     \<and> slot (id_user_low k) \<le> 0x7F \<and> slot (id_list_low k) \<le> 0x7F
     \<and> 0x80 \<le> slot (id_user_high k) \<and> 0x80 \<le> slot (id_todo_high k) \<and> 0x80 \<le> slot (id_todo_typed k)"
proof -
  let ?k = "\<lparr>id_user_low = ''todo00000000'', id_user_high = ''todo00000001'', id_list_low = ''todo00000002'',
     id_todo_high = ''todo00000003'', id_todo_typed = ''todo00000005''\<rparr>"
  have "\<exists>s'. pick_ids s = Some (Inr ?k, s') \<and> dv_bind s' = dv_bind s \<and> dv_panic s' = dv_panic s"
    by (simp add: pick_ids_def picks pick_def)
  then show ?thesis by (elim exE conjE, intro exI [of _ ?k] exI) (auto simp: picked_slots)
qed

text \<open>A run that passes has seen what it tests: the
  front page of the owner with the new title of the list, the owner's new name in the summaries
  of the list, the raw todo read back as done and found by the search, the typed todo read back
  as done, and both refused as not found at the end, the typed one by the last read of the run.\<close>

lemma run_seen:
  assumes "run E J H s = Some (Inr u, s')"
  shows "\<exists>c (k :: ids) todos. new_client E (driver_config H (ho_getenv H ''DATORIUM_TOKEN'')) = Inr c
    \<and> (\<exists>st st' rr sums. cached_read E J c ''Users'' (id_user_high k) st = (Inr rr, st')
         \<and> summaries_for_array_field J rr ''todoLists'' = Inr sums
         \<and> list_ex (shows_title J (id_list_low k) updated_list_title) sums)
    \<and> (\<exists>st st' rr. cached_read E J c ''TodoLists'' (id_list_low k) st = (Inr rr, st')
         \<and> oj_str J (oj_get J (oj_get J (oj_get J (rr_cache_summaries rr) ''Users'') (id_user_high k)) ''displayName'') = updated_name)
    \<and> (\<exists>st st' opts rr. read_doc E J c ''Todos'' (id_todo_high k) opts st = (Inr rr, st')
         \<and> oj_str J (oj_get J (rr_sot rr) ''status'') = ''done'')
    \<and> (\<exists>st st' sr. search E J c ''Todos'' ''byStatus'' (Some [(''status'', GStr ''done'')])
         (Some (equals_string_segments [''done''])) st = (Inr sr, st') \<and> id_todo_high k \<in> set (sr_matches sr))
    \<and> (\<exists>st st' e. read_doc E J c ''Todos'' (id_todo_high k) None st = (Inl e, st')
         \<and> is_app_code e code_document_not_found)
    \<and> (\<exists>st st' item. get_doc E J (ho_todos H) todos (id_todo_typed k) st = ((item, None), st')
         \<and> td_status (ci_doc item) = ''done'')
    \<and> (\<exists>st x e. get_doc E J (ho_todos H) todos (id_todo_typed k) st = ((x, Some e), fst (dv_bind s'))
         \<and> is_app_code e code_document_not_found)"
proof -
  from assms obtain c users todo_lists todos k rr item s1 s2 s3 s4 s5 s6 s7 s8 s9 s10 s11 s12 s13 u3 u4 u5 u6
    where c: "connect E H s = Some (Inr c, s1)" and
    stages: "patch_list_stage E J H c todo_lists k s2 = Some (Inr u3, s3)"
      "cached_ref_stage E J H c users k s4 = Some (Inr u4, s5)"
      "patch_todo_stage E J H c k s6 = Some (Inr rr, s7)" "search_todo_stage E J H c k s8 = Some (Inr u5, s9)"
      "delete_todo_stage E J H c k rr s10 = Some (Inr u6, s11)" "typed_patch_stage E J H todos k s12 = Some (Inr item, s13)"
      "typed_delete_stage E J H todos k item s13 = Some (Inr u, s')"
    unfolding run_def by (auto split: prod.splits)
  have client: "new_client E (driver_config H (ho_getenv H ''DATORIUM_TOKEN'')) = Inr c"
    using c by (auto simp: connect_def pure_call_def fail_def Let_def split: if_splits)
  have raw_done: "\<exists>st st' opts rr. read_doc E J c ''Todos'' (id_todo_high k) opts st = (Inr rr, st')
      \<and> oj_str J (oj_get J (rr_sot rr) ''status'') = ''done''"
    using patch_todo_seen [OF stages(3)] by blast
  have typed_done: "\<exists>st st' item. get_doc E J (ho_todos H) todos (id_todo_typed k) st = ((item, None), st')
      \<and> td_status (ci_doc item) = ''done''"
    using typed_patch_seen [OF stages(6)] by blast
  show ?thesis
    by (rule exI [of _ c], rule exI [of _ k], rule exI [of _ todos])
      (intro conjI client raw_done typed_done patch_list_seen [OF stages(1)] cached_ref_seen [OF stages(2)]
        search_todo_seen [OF stages(4)] delete_todo_seen [OF stages(5)] typed_delete_seen [OF stages(7)])
qed

end
