(* ===== verification/Clock.thy ===== *)
theory Clock
  imports Driver
begin

text \<open>
  The clock of the driver never goes back: no operation of the client turns it back, so that
  the polling loops reach their deadlines. \<open>rho\<close> is the time at a world. The rules follow the code as
  those of the client contract do.
\<close>

named_theorems time_intro \<open>rules that build the contract of the clock\<close>

definition steady_clock :: "('w \<Rightarrow> int) \<Rightarrow> 'w env \<Rightarrow> ('j, 'w, 's, 'p) host \<Rightarrow> bool" where
  "steady_clock rho E H \<longleftrightarrow>
     (\<forall>w t w'. ho_now H w = (t, w') \<longrightarrow> rho w \<le> t \<and> t \<le> rho w')
     \<and> (\<forall>d w w'. en_wait E d w = (None, w') \<longrightarrow> rho w + max 0 d \<le> rho w')
     \<and> (\<forall>d w e w'. en_wait E d w = (Some e, w') \<longrightarrow> rho w \<le> rho w')
     \<and> (\<forall>w. rho w \<le> rho (snd (en_ulid E w)))
     \<and> (\<forall>rq w. rho w \<le> rho (snd (snd (en_default_http E rq w))))"

definition forward :: "('w \<Rightarrow> int) \<Rightarrow> (('j, 'w) state \<Rightarrow> 'a \<times> ('j, 'w) state) \<Rightarrow> bool" where
  "forward rho f \<longleftrightarrow> (\<forall>st a st'. f st = (a, st') \<longrightarrow> rho (st_world st) \<le> rho (st_world st'))"

lemma forward_step: "forward rho f \<Longrightarrow> f st = (a, st') \<Longrightarrow> rho (st_world st) \<le> rho (st_world st')"
  by (auto simp: forward_def)

lemma time_return [time_intro]: "forward rho (\<lambda>st. (a, st))"
  by (simp add: forward_def)

lemma time_bind [time_intro]:
  "forward rho f \<Longrightarrow> (\<And>a. forward rho (g a)) \<Longrightarrow> forward rho (\<lambda>st. case f st of (a, st') \<Rightarrow> g a st')"
  unfolding forward_def by (auto split: prod.splits) (meson order_trans)

lemma time_pair [time_intro]:
  "(\<And>x y. forward rho (f x y)) \<Longrightarrow> forward rho (\<lambda>st. case p of (x, y) \<Rightarrow> f x y st)"
  by (cases p) simp

lemma time_if [time_intro]:
  "forward rho f \<Longrightarrow> forward rho g \<Longrightarrow> forward rho (\<lambda>st. if b then f st else g st)"
  by (cases b) simp_all

lemma time_sum [time_intro]:
  "(\<And>e. forward rho (f e)) \<Longrightarrow> (\<And>x. forward rho (g x)) \<Longrightarrow>
     forward rho (\<lambda>st. case r of Inl e \<Rightarrow> f e st | Inr x \<Rightarrow> g x st)"
  by (cases r) simp_all

lemma time_option [time_intro]:
  "forward rho f \<Longrightarrow> (\<And>x. forward rho (g x)) \<Longrightarrow>
     forward rho (\<lambda>st. case r of None \<Rightarrow> f st | Some x \<Rightarrow> g x st)"
  by (cases r) simp_all

lemma time_list [time_intro]:
  "forward rho f \<Longrightarrow> (\<And>x xs. forward rho (g x xs)) \<Longrightarrow>
     forward rho (\<lambda>st. case r of [] \<Rightarrow> f st | x # xs \<Rightarrow> g x xs st)"
  by (cases r) simp_all

section \<open>The client\<close>

text \<open>The clients the driver makes: the default transport and a fixed token.\<close>

definition plain_client :: "'w env \<Rightarrow> ('j, 'w) client \<Rightarrow> bool" where
  "plain_client E c \<longleftrightarrow> cl_http c = en_default_http E \<and> (\<exists>t. cl_tokens c = StaticToken t)"

lemma plain_bearer: "plain_client E c \<Longrightarrow> bearer c st = (r, st') \<Longrightarrow> st' = st"
  by (auto simp: plain_client_def bearer_def Let_def split: if_splits)

lemma wait_forward: "steady_clock rho E H \<Longrightarrow> forward rho (wait_timer E d)"
  unfolding forward_def wait_timer_def log_event_def steady_clock_def
  by (auto split: prod.splits) (metis add_increasing2 max.cobounded1 not_None_eq order_refl order_trans)

lemma once_forward:
  assumes "steady_clock rho E H" "plain_client E c"
  shows "forward rho (\<lambda>st. case do_json_once E J c meth base path body ct auth st of (x, b, st') \<Rightarrow> ((x, b), st'))"
  using assms plain_bearer [OF assms(2)]
  unfolding forward_def do_json_once_def auth_header_def http_do_def log_event_def Let_def
  by (auto simp: plain_client_def steady_clock_def split: prod.splits option.splits sum.splits if_splits)
    (metis snd_conv)+

lemma json_loop_forward:
  assumes "steady_clock rho E H" "plain_client E c"
  shows "do_json_loop E J c meth base path body ct auth attempts i le st = (out, st') \<Longrightarrow>
    rho (st_world st) \<le> rho (st_world st')"
  using assms
proof (induction E J c meth base path body ct auth attempts i le st arbitrary: out st' rule: do_json_loop.induct)
  case (1 E J c meth base path body ct auth attempts i le st)
  show ?case
  proof (cases "i < attempts")
    case True
    obtain res err body' st1 where o: "do_json_once E J c meth base path body ct auth st = ((res, err), body', st1)"
      by (metis surj_pair)
    have once: "rho (st_world st) \<le> rho (st_world st1)"
      using forward_step [OF once_forward [OF "1.prems"(2,3), of J meth base path body ct auth], of st] o by simp
    note loop = "1.prems"(1) [unfolded do_json_loop.simps [of E J c meth base path body ct auth attempts i le st]]
    show ?thesis
    proof (cases "\<exists>e. err = Some e \<and> as_transport e")
      case False
      then have "st' = st1" using loop True o by (auto split: option.splits if_splits)
      then show ?thesis using once by simp
    next
      case failed: True
      then obtain e where e: "err = Some e" "as_transport e" by blast
      show ?thesis
      proof (cases "i + 1 < attempts")
        case more: True
        obtain w st2 where w: "wait_timer E (backoff i) st1 = (w, st2)" by (metis surj_pair)
        have wait: "rho (st_world st1) \<le> rho (st_world st2)"
          using forward_step [OF wait_forward [OF "1.prems"(2)] w] .
        show ?thesis
        proof (cases w)
          case None
          then have rec: "do_json_loop E J c meth base path body' ct auth attempts (i + 1) (Some e) st2 = (out, st')"
            using loop True o e more w by simp
          have "rho (st_world st2) \<le> rho (st_world st')"
            using "1.IH"(1) [OF True o [symmetric] refl e(1) refl _ more w [symmetric] None rec "1.prems"(2,3)] e(2) by simp
          then show ?thesis using once wait by simp
        qed (use loop True o e more w once wait in auto)
      next
        case False
        then have "st' = st1" using loop True o e
          by (auto simp: do_json_loop.simps [of E J c meth base path body' ct auth attempts "i + 1"])
        then show ?thesis using once by simp
      qed
    qed
  qed (use "1.prems" in \<open>simp add: do_json_loop.simps [of E]\<close>)
qed

lemma json_forward [time_intro]:
  "steady_clock rho E H \<Longrightarrow> plain_client E c \<Longrightarrow> forward rho (do_json E J c meth base path body ct auth)"
  unfolding forward_def do_json_def using json_loop_forward by blast

lemma post_forward [time_intro]:
  "steady_clock rho E H \<Longrightarrow> plain_client E c \<Longrightarrow> forward rho (post_command E J c base body)"
  unfolding post_command_def Let_def by (intro time_intro; assumption)

lemma establish_forward [time_intro]:
  assumes "steady_clock rho E H" "plain_client E c"
  shows "forward rho (establish E J c cols)"
proof -
  have "rho (st_world st) \<le> rho (st_world st')" if x: "establish E J c cols st = (r, st')" for st r st'
  proof -
    obtain res err st1 where d: "do_json E J c ''GET'' (cf_establishment_url (cl_cfg c))
        (api_prefix @ ''/establish'') None [] True st = ((res, err), st1)" by (metis surj_pair)
    then have "st_world st' = st_world st1"
      using x by (auto simp: establish_def split: option.splits sum.splits)
    then show ?thesis using forward_step [OF json_forward [OF assms] d] by simp
  qed
  then show ?thesis by (auto simp: forward_def)
qed

lemma ensure_forward [time_intro]:
  assumes "steady_clock rho E H" "plain_client E c"
  shows "forward rho (ensure_established E J c)"
proof -
  have "rho (st_world st) \<le> rho (st_world st')" if "ensure_established E J c st = (r, st')" for st r st'
  proof -
    obtain x st1 where x: "establish E J c [] st = (x, st1)" by (metis surj_pair)
    then have "st' = st \<or> st' = st1"
      using that by (auto simp: ensure_established_def split: option.splits)
    then show ?thesis using forward_step [OF establish_forward [OF assms] x] by auto
  qed
  then show ?thesis by (auto simp: forward_def)
qed

lemma bounce_forward:
  assumes "steady_clock rho E H" "plain_client E c" "bounce_steps E J c body resolve x y"
  shows "rho (st_world (snd x)) \<le> rho (st_world (snd y))"
  using assms(3)
proof (induction rule: rtranclp_induct)
  case (step y z)
  have "rho (st_world (snd y)) \<le> rho (st_world (snd z))"
    using step.hyps(2) forward_step [OF post_forward [OF assms(1,2)]] forward_step [OF establish_forward [OF assms(1,2)]]
    by (auto elim!: bounce_step.cases)
  then show ?case using step.IH by simp
qed simp

lemma routed_forward [time_intro]:
  assumes "steady_clock rho E H" "plain_client E c"
  shows "forward rho (execute_routed E J c initial body resolve)"
proof -
  have "rho (st_world st) \<le> rho (st_world st')"
    if x: "execute_routed E J c initial body resolve st = ((r, e), st')" for st r e st'
  proof (cases "0 \<le> cl_wm_retries c")
    case True
    show ?thesis using bounce_forward [OF assms execute_routed_steps [OF x True]] by simp
  next
    case False
    then show ?thesis using x by (simp add: execute_routed_def execute_loop.simps)
  qed
  then show ?thesis by (auto simp: forward_def)
qed

lemma read_forward [time_intro]:
  "steady_clock rho E H \<Longrightarrow> plain_client E c \<Longrightarrow> forward rho (read_doc E J c collection rid opts)"
  unfolding read_doc_def run_document_command_def by (intro time_intro; assumption)

lemma search_forward [time_intro]:
  "steady_clock rho E H \<Longrightarrow> plain_client E c \<Longrightarrow> forward rho (search E J c collection name vars segs)"
  unfolding search_def by (intro time_intro; assumption)

section \<open>The polling loops\<close>

lemma ready_attempt_forward:
  "steady_clock rho E H \<Longrightarrow> plain_client E c \<Longrightarrow> forward rho (ready_attempt E J c)"
  unfolding ready_attempt_def ready_def by (intro time_intro; assumption)

lemma front_page_forward:
  "steady_clock rho E H \<Longrightarrow> plain_client E c \<Longrightarrow> forward rho (front_page_attempt E J H c u l t)"
  unfolding front_page_attempt_def cached_read_def by (intro time_intro; assumption)

lemma summary_forward:
  "steady_clock rho E H \<Longrightarrow> plain_client E c \<Longrightarrow> forward rho (summary_attempt E J c col rid rc ri f w)"
  unfolding summary_attempt_def cached_read_def Let_def by (intro time_intro; assumption)

lemma search_attempt_forward:
  "steady_clock rho E H \<Longrightarrow> plain_client E c \<Longrightarrow> forward rho (search_attempt E J c col name vars segs want)"
  unfolding search_attempt_def by (intro time_intro; assumption)

lemma wait_later:
  assumes "steady_clock rho E H" "wait_timer E d st = (None, st')"
  shows "rho (st_world st) + max 0 d \<le> rho (st_world st')"
proof -
  have law: "\<forall>d w w'. en_wait E d w = (None, w') \<longrightarrow> rho w + max 0 d \<le> rho w'"
    using assms(1) by (simp add: steady_clock_def)
  show ?thesis using assms(2) law by (auto simp: wait_timer_def log_event_def split: prod.splits)
qed

lemma poll_while_returns:
  assumes "steady_clock rho E H" "forward rho attempt" "0 < d"
  shows "\<exists>r. poll_while E H attempt deadline d l st = Some r"
proof (induction "nat (deadline - rho (st_world st))" arbitrary: st l rule: less_induct)
  case less
  obtain t st1 where t: "read_clock H st = (t, st1)" by (metis surj_pair)
  then have clock: "rho (st_world st) \<le> t" "t \<le> rho (st_world st1)"
    using assms(1) by (auto simp: read_clock_def steady_clock_def split: prod.splits)
  obtain seen l' st2 where a: "attempt st1 = ((seen, l'), st2)" by (metis surj_pair)
  obtain w st3 where w: "wait_timer E d st2 = (w, st3)" by (metis surj_pair)
  have later: "rho (st_world st2) + d \<le> rho (st_world st3)" if "w = None"
    using wait_later [OF assms(1)] w that assms(3) by force
  show ?case
  proof (cases "t < deadline \<and> \<not> seen \<and> w = None")
    case True
    then have "nat (deadline - rho (st_world st3)) < nat (deadline - rho (st_world st))"
      using clock later forward_step [OF assms(2) a] assms(3) by linarith
    from less.hyps [OF this] show ?thesis using t a w True by (simp add: poll_while.simps [of E H attempt deadline d l st])
  next
    case False
    then show ?thesis using t a w by (auto simp: poll_while.simps [of E H attempt deadline d l st] split: option.splits)
  qed
qed

lemma poll_until_returns:
  assumes "steady_clock rho E H" "forward rho attempt" "0 < d"
  shows "\<exists>r. poll_until E H attempt deadline d st = Some r"
proof (induction "nat (deadline - rho (st_world st))" arbitrary: st rule: less_induct)
  case less
  obtain seen l' st1 where a: "attempt st = ((seen, l'), st1)" by (metis surj_pair)
  obtain t st2 where t: "read_clock H st1 = (t, st2)" by (metis surj_pair)
  then have clock: "rho (st_world st1) \<le> t" "t \<le> rho (st_world st2)"
    using assms(1) by (auto simp: read_clock_def steady_clock_def split: prod.splits)
  obtain w st3 where w: "wait_timer E d st2 = (w, st3)" by (metis surj_pair)
  have later: "rho (st_world st2) + d \<le> rho (st_world st3)" if "w = None"
    using wait_later [OF assms(1)] w that assms(3) by force
  show ?case
  proof (cases "t < deadline \<and> \<not> seen \<and> w = None")
    case True
    then have "nat (deadline - rho (st_world st3)) < nat (deadline - rho (st_world st))"
      using clock later forward_step [OF assms(2) a] assms(3) by linarith
    from less.hyps [OF this] show ?thesis using t a w True by (simp add: poll_until.simps [of E H attempt deadline d st])
  next
    case False
    then show ?thesis using t a w by (auto simp: poll_until.simps [of E H attempt deadline d st] split: option.splits)
  qed
qed

end
