(* ===== verification/RunEnds.thy ===== *)
theory RunEnds
  imports Clock DriverProps JsonSample
begin

text \<open>
  The integration driver ends: under a clock that never goes back and a timer that waits as long
  as it is told, each polling loop returns, and the whole program exits with 0 or 1 (its panic,
  with exit code 2, is never reached).
\<close>

section \<open>Actions that end\<close>

named_theorems ending \<open>rules that show that an action ends\<close>

definition ends :: "('a, 'j, 'w) action \<Rightarrow> bool" where
  "ends f \<longleftrightarrow> (\<forall>s. \<exists>r s'. f s = Some (r, s') \<and> dv_panic s' = dv_panic s)"

lemma endsI: "(\<And>s. \<exists>r s'. f s = Some (r, s') \<and> dv_panic s' = dv_panic s) \<Longrightarrow> ends f"
  by (simp add: ends_def)

lemma endsE:
  assumes "ends f"
  obtains r s' where "f s = Some (r, s')" "dv_panic s' = dv_panic s"
  using assms unfolding ends_def by blast

lemma endsD: "ends f \<Longrightarrow> \<not> dv_panic s \<Longrightarrow> \<exists>r s'. f s = Some (r, s') \<and> \<not> dv_panic s'"
  unfolding ends_def by metis

lemma ends_seq_of:
  assumes "ends f" "\<And>a s s'. f s = Some (Inr a, s') \<Longrightarrow> ends (g a)"
  shows "ends (seq f g)"
proof (rule endsI)
  fix s
  obtain r s' where f: "f s = Some (r, s')" "dv_panic s' = dv_panic s" using assms(1) by (rule endsE)
  show "\<exists>r s'. seq f g s = Some (r, s') \<and> dv_panic s' = dv_panic s"
  proof (cases r)
    case (Inr a)
    with f assms(2) have "ends (g a)" by blast
    with f Inr show ?thesis by (auto simp: seq_def elim!: endsE [of _ s'])
  qed (use f in \<open>simp add: seq_def\<close>)
qed

lemma ends_seq [ending]: "ends f \<Longrightarrow> (\<And>a. ends (g a)) \<Longrightarrow> ends (seq f g)"
  by (rule ends_seq_of)

lemma ends_or_else [ending]:
  assumes "ends f" "\<And>e. ends (g e)"
  shows "ends (or_else f g)"
proof (rule endsI)
  fix s
  obtain r s' where f: "f s = Some (r, s')" "dv_panic s' = dv_panic s" using assms(1) by (rule endsE)
  show "\<exists>r s'. or_else f g s = Some (r, s') \<and> dv_panic s' = dv_panic s"
  proof (cases r)
    case (Inl e)
    with f assms(2) [of e] show ?thesis by (auto simp: or_else_def elim!: endsE [of _ s'])
  qed (use f in \<open>simp add: or_else_def\<close>)
qed

lemma ends_around [ending]:
  assumes "ends f"
  shows "ends (annotate fmt f)" "ends (error_of f)"
proof -
  have "(\<exists>r s'. annotate fmt f s = Some (r, s') \<and> dv_panic s' = dv_panic s)
      \<and> (\<exists>r s'. error_of f s = Some (r, s') \<and> dv_panic s' = dv_panic s)" for s
  proof -
    obtain r s' where "f s = Some (r, s')" "dv_panic s' = dv_panic s" using assms by (rule endsE)
    then show ?thesis by (cases r) (simp_all add: annotate_def error_of_def)
  qed
  then show "ends (annotate fmt f)" "ends (error_of f)" by (auto simp: ends_def)
qed

lemma ends_plain [ending]:
  "ends (finish a)" "ends (fail e)" "ends (check b e)" "ends (step name)" "ends (detail fmt args)"
  "ends (call f)" "ends (call_item i)" "ends (call_bind h)" "ends (pure_call r)"
  by (auto simp: ends_def finish_def fail_def check_def step_def detail_def call_def call_item_def
      call_bind_def pure_call_def split: prod.splits option.splits)

lemma ends_loop: "(\<And>st. \<exists>r. f st = Some r) \<Longrightarrow> ends (call_loop f)"
  by (rule endsI) (force simp: call_loop_def)

lemma ends_if [ending]: "ends f \<Longrightarrow> ends g \<Longrightarrow> ends (if b then f else g)"
  by simp

lemma ends_triple [ending]: "(\<And>x y z. ends (f x y z)) \<Longrightarrow> ends (case p of (x, y, z) \<Rightarrow> f x y z)"
  by (cases p) simp

section \<open>The waits\<close>

lemma clocked_returns:
  "(\<And>t st. \<exists>r. p t st = Some r) \<Longrightarrow> \<exists>r. (case x of (t, st) \<Rightarrow> map_option g (p t st)) = Some r"
  by (cases x) (metis case_prod_conv option.simps(9))

lemma interval_positive: "0 < one_second div 2" "0 < default_interval d"
  by (simp_all add: default_interval_def one_second_def)

lemma wait_ready_returns:
  assumes "steady_clock rho E H" "plain_client E c"
  shows "\<exists>r. wait_ready E J H c timeout st = Some r"
  unfolding wait_ready_def
  by (rule clocked_returns, rule poll_while_returns [OF assms(1) ready_attempt_forward [OF assms] interval_positive(1)])

lemma wait_search_returns:
  assumes "steady_clock rho E H" "plain_client E c"
  shows "\<exists>r. wait_search E J H c collection name vars segs want timeout st = Some r"
  unfolding wait_search_def
  by (rule clocked_returns, rule poll_while_returns [OF assms(1) search_attempt_forward [OF assms] interval_positive(1)])

lemma wait_front_page_returns:
  assumes "steady_clock rho E H" "plain_client E c"
  shows "\<exists>r. wait_user_front_page_title E J H c u l title timeout interval st = Some r"
  unfolding wait_user_front_page_title_def
  by (rule clocked_returns, rule poll_until_returns [OF assms(1) front_page_forward [OF assms] interval_positive(2)])

lemma wait_summary_returns:
  assumes "steady_clock rho E H" "plain_client E c"
  shows "\<exists>r. wait_cache_summary E J H c col rid rc ri f want timeout interval st = Some r"
  unfolding wait_cache_summary_def
  by (rule clocked_returns, rule poll_until_returns [OF assms(1) summary_forward [OF assms] interval_positive(2)])

lemmas waits_return = wait_ready_returns wait_search_returns wait_front_page_returns wait_summary_returns

section \<open>The stages\<close>

lemma ends_bind_all [ending]: "ends (bind_collections E J H c)"
  unfolding bind_collections_def by (intro ending)

lemma ends_pick_ids [ending]: "ends pick_ids"
  using pick_ids_total by (intro endsI) blast

lemma ends_create [ending]: "ends (create_stage E J H c users todo_lists k)"
  unfolding create_stage_def by (intro ending)

lemma ends_link [ending]:
  "steady_clock rho E H \<Longrightarrow> plain_client E c \<Longrightarrow> ends (link_stage E J H c k)"
  unfolding link_stage_def by (intro ending ends_loop waits_return; assumption)

lemma ends_patch_list [ending]:
  "steady_clock rho E H \<Longrightarrow> plain_client E c \<Longrightarrow> ends (patch_list_stage E J H c todo_lists k)"
  unfolding patch_list_stage_def by (intro ending ends_loop waits_return; assumption)

lemma ends_resolve [ending]: "ends (resolve_stage E J H c todo_lists k)"
  unfolding resolve_stage_def Let_def by (intro ending)

lemma ends_cached_ref [ending]:
  "steady_clock rho E H \<Longrightarrow> plain_client E c \<Longrightarrow> ends (cached_ref_stage E J H c users k)"
  unfolding cached_ref_stage_def Let_def by (intro ending ends_loop waits_return; assumption)

lemma ends_create_todo [ending]: "ends (create_todo_stage E J c k)"
  unfolding create_todo_stage_def by (intro ending)

lemma ends_patch_todo [ending]: "ends (patch_todo_stage E J H c k)"
  unfolding patch_todo_stage_def Let_def by (intro ending)

lemma ends_search_todo [ending]:
  "steady_clock rho E H \<Longrightarrow> plain_client E c \<Longrightarrow> ends (search_todo_stage E J H c k)"
  unfolding search_todo_stage_def by (intro ending ends_loop waits_return; assumption)

lemma ends_delete_todo [ending]: "ends (delete_todo_stage E J H c k rr)"
  unfolding delete_todo_stage_def by (intro ending)

lemma ends_typed [ending]:
  "ends (typed_patch_stage E J H todos k)" "ends (typed_delete_stage E J H todos k item)"
  unfolding typed_patch_stage_def typed_delete_stage_def by (intro ending)+

text \<open>The client the driver makes uses the default transport and the token of the environment.\<close>

lemma connect_plain: "connect E H s = Some (Inr c, s') \<Longrightarrow> plain_client E c"
  by (auto simp: connect_def pure_call_def fail_def driver_config_def new_client_def plain_client_def Let_def
      split: if_splits option.splits)

lemma ends_connect [ending]: "ends (connect E H)"
  unfolding connect_def Let_def by (intro ending)

lemma ends_run:
  assumes "steady_clock rho E H"
  shows "ends (run E J H)"
  unfolding run_def
proof (rule ends_seq_of [OF ends_connect], goal_cases)
  case (1 c s s')
  note plain = connect_plain [OF this]
  show ?case by (intro ending ends_loop waits_return plain) (rule assms)+
qed

section \<open>The driver\<close>

text \<open>C22: Under a clock that never goes back and timers that wait as long as they are told the integration
  driver ends, whatever the servers answer: it exits with 0 after printing that it passed and
  nothing on the standard error, or with 1 after one line there.\<close>

theorem driver_exits:
  assumes "steady_clock rho E H"
  shows "\<exists>code out errs. todo_integration E J H w = Some (code, out, errs)
    \<and> (code = 0 \<and> errs = [] \<and> last out = (''todo-integration PASSED'', []) \<or> code = 1 \<and> length errs = 1)"
proof -
  have "\<exists>r s. run E J H \<lparr>dv_bind = (\<lparr>st_cache = None, st_trace = [], st_world = w\<rparr>, 0), dv_out = [], dv_panic = False\<rparr>
      = Some (r, s) \<and> \<not> dv_panic s"
    by (rule endsD [OF ends_run [OF assms]]) simp
  then obtain r s where "run E J H \<lparr>dv_bind = (\<lparr>st_cache = None, st_trace = [], st_world = w\<rparr>, 0), dv_out = [], dv_panic = False\<rparr>
      = Some (r, s)" "\<not> dv_panic s" by blast
  then show ?thesis by (cases r) (auto simp: todo_integration_def)
qed

text \<open>A world that is its clock: nobody answers, a timer takes its time.\<close>

definition clock_env :: "int env" where
  "clock_env = \<lparr>en_default_http = (\<lambda>rq w. (Inl ''refused'', 0, w)), en_new_request = (\<lambda>meth url. None),
     en_wait = (\<lambda>d w. (None, w + max 0 d)), en_ulid = (\<lambda>w. (''id'', w)), en_boundary = (\<lambda>w. (''b'', w)),
     en_reads_content = (\<lambda>rq w. True)\<rparr>"

definition sample_codec :: "'d \<Rightarrow> (js, unit, js, 'd) typed_json" where
  "sample_codec z = \<lparr>tj_compile = (\<lambda>fs t. Inr ()), tj_from_struct = (\<lambda>d. Inr (JObj [])), tj_to_struct = (\<lambda>v. Inr z),
     tj_diff = (\<lambda>a b s. Inr (JArr [b])), tj_validate = (\<lambda>a p s. None),
     tj_patch_len = (\<lambda>p. length (js_items p)), tj_patch_json = (\<lambda>p. p), tj_zero_doc = z\<rparr>"

definition clock_host :: "(js, int, unit, js) host" where
  "clock_host = \<lparr>ho_getenv = (\<lambda>k. if k = ''DATORIUM_TOKEN'' then ''t'' else []), ho_now = (\<lambda>w. (w, w)),
     ho_text = (\<lambda>e. ''error''), ho_duration = (\<lambda>d. ''1m0s''), ho_values = (\<lambda>vs. []), ho_syntax = (\<lambda>v. []),
     ho_users = sample_codec \<lparr>us_display_name = [], us_email = [], us_todo_lists = []\<rparr>,
     ho_todo_lists = sample_codec \<lparr>tl_title = [], tl_owner = [], tl_owner_summary = []\<rparr>,
     ho_todos = sample_codec \<lparr>td_title = [], td_status = [], td_list = [], td_list_summary = []\<rparr>,
     ho_replace = (\<lambda>p v. Inr (JArr [v]))\<rparr>"

lemma driver_exits_witness:
  "\<exists>code out errs. todo_integration clock_env (sample_json Inl) clock_host 0 = Some (code, out, errs)
    \<and> (code = 0 \<and> errs = [] \<and> last out = (''todo-integration PASSED'', []) \<or> code = 1 \<and> length errs = 1)"
proof -
  have "steady_clock (\<lambda>w. w) clock_env clock_host"
    by (simp add: steady_clock_def clock_env_def clock_host_def)
  from driver_exits [OF this] show ?thesis .
qed

end
