(* ===== verification/Spec2Isabelle.thy ===== *)
theory Spec2Isabelle
  imports Search Resolve SearchPath Refs Recovery FileProps TypedProps TestToken SharedProps DriverProps RunEnds
begin

text \<open>
  The Go client of DatoriumDB (package datorium, its packages shard, refs, searchpath and
  internal/testtoken, and the two commands under cmd/), as a shallow embedding.

  The program. A client fetches an establishment document (servers, shard map, schemas), caches
  it, and routes each command by the shard slot of a document id or of a search bucket. A server
  that does not hold the shard answers \<open>wrongMachine\<close>; the client then fetches the document
  again, resolves the route again and repeats the command, a bounded number of times. Around
  this core stand retries of transport failures, documents (create, read, patch, delete),
  searches and admin commands, references between documents, binary attachments, and typed
  collections over the same commands.

  The model. A Go string is the list of its bytes. An error is a value of \<open>gerr\<close> (GoErrors),
  a fallible function returns a sum or, where the code returns a value along with the error, a
  pair with an optional error. The operations of a client are functions of a state: the
  establishment cache, a log of events (requests handed to the transport, timers, minted ids,
  responses announced to the caller, bytes the caller's writer took), and a world, of any type,
  that stands for the network, the clock, the token source and the caller's callbacks; what
  these answer is a function of the world, so every theorem holds for all their behaviours. No
  operation reads the log. The package ojson is the record \<open>ojson\<close> of its operations (Json),
  with \<open>typed_json\<close> (Typed) for schemas, struct codecs and patches; both are arguments of the
  definitions, and no law is assumed of them. \<open>sample_json\<close> is one instance, for witnesses.

  Theories and sources.
   \<^item> Prelude: Go's string functions, hexadecimal, 64-bit wrap-around, and the locales \<open>codec\<close>
     and \<open>prefix_codec\<close> (a printer with a parser that inverts it). Decimal: ParseInt and printed
     numbers, an interpretation of \<open>codec\<close>. Utf8: decoding, encoding, TrimSpace. Crc32: the
     table-driven and the bit-by-bit checksum.
   \<^item> Shard (shard/shard.go): slots, sharding prefixes, ranges, full coverage. Refs (refs/refs.go,
     the validators of schema_formats.go): references. SearchPath (searchpath/searchpath.go).
   \<^item> GoErrors and Envelope (errors.go, envelope.go): error values, decoding and reading envelopes.
     Json: \<open>encoding/json.Marshal\<close> on Go values. JsonSample: the sample instance of ojson.
   \<^item> Establish (establish.go, collection.go): parsing the document, the shard map as a directory
     (locale \<open>slot_directory\<close>, interpreted on the parsed map), the catalog check.
   \<^item> Client (client.go): New, tokens, one JSON request, the retry loop, the establishment calls.
     The locales \<open>client_op\<close> (an operation only extends the log with allowed events and keeps the
     cache well-formed) and \<open>request_op\<close> (it also leaves the cache alone) are the contract every
     operation of the client is shown to keep; the rules in \<open>op_intro\<close> follow the code.
   \<^item> Routing (routing.go), Command (command.go, ordered_command.go): routes, command texts, the
     bounce loop. Bounce: the loop as a step relation with its invariant, the refinement of one
     by the other, and the locale \<open>budget_op\<close> that bounds the requests of an operation. Recovery:
     the machine ends, and a command follows a shard that moves.
   \<^item> Crud (crud.go, create_verify.go), Search (search.go, admin.go), Resolve (frontpage.go,
     resolve.go): documents, searches and admin commands, references between documents.
   \<^item> FileMeta, Multipart, Files, FileLoops, FileProps (files.go): ranges and metadata; the
     multipart text with a reader of it; the operations and one attempt of each; the two loops;
     the properties.
   \<^item> Typed, TypedProps (collection_client.go, the descriptor of collection.go, the registry of
     schema_formats.go): bound clients, items and patches.
   \<^item> Cache (establish.go, \<open>establishmentCache\<close>): \<open>get\<close> and \<open>set\<close> of any number of goroutines as a
     step relation: the call, the acquisition of the read-write lock, the access to the field and
     the release are steps of their own, and a store takes two. Both operations are shown atomic
     and free of deadlock.
   \<^item> Shared, SharedProps (the operations of client.go, command.go, crud.go and collection_client.go
     that use the cache): each as a program whose steps are an atomic \<open>get\<close> or \<open>set\<close> or a request
     with its retries, and any number of programs under any schedule. Run alone a program is the
     sequential definition (the lemmas \<open>exec_ensure\<close>, \<open>exec_bind\<close>, \<open>exec_loop\<close> and so on). The contract \<open>keeps\<close> says what a program does between the steps of others.
   \<^item> TestToken (internal/testtoken/mint.go, cmd/mint-token/main.go): key choice, lifetime and claims
     of test tokens; the flags and the ways the command ends.
   \<^item> Driver, Integration (cmd/todo-integration/main.go): the polling loops, the choice of ids, and
     the stages of \<open>run\<close> as actions over the client's state and the printed lines. DriverProps:
     what a passing run has seen. Clock, RunEnds: no operation of the client turns the clock back
     (the rules \<open>time_intro\<close>), so that the loops and the whole driver end.

  What the lemmas show. Pure parts: printers and parsers invert each other, slots and coverage
  equal their specifications, checks accept exactly what they should. One request: what may be
  sent, how often and when, and what a nil error means. Routed operations: where they are sent,
  within which budget, what their results rest on, and that they end. Caches: only a decoded,
  checked document is ever stored. Files: one upload body per hop, one file response shown. Typed
  values: what a constructor returns passes the later checks. Goroutines: the routed commands
  stay sound and return after a bounded number of their own steps under every schedule, while
  Bind and the refresh of the cache can be overtaken. Commands: how they end and what their
  success rests on.

  Termination. Every loop of the library is a total function. The loops over attempts have the
  number of attempts left as their measure, the recursion over references the remaining depth
  and then the remaining keys; no fuel is used. The bounds are those of the code: the configured
  bounces, the configured retries computed in 64 bits (a negative or wrapped number runs no
  attempt), and 8388608 bytes of a response. Properties of routed commands assume a bounce bound
  of at least zero, which New establishes. The polling loops of the driver look at the clock and
  may not end when it stands still: they are \<open>partial_function (option)\<close>, and are shown to return
  for every clock that never goes back and every timer that waits as long as it is told.

  Not modelled. The scheduler may run goroutines on one client in any order, but their other
  shared objects (values the caller hands to several of them, the random source) are not part of
  the model, nor is the ordering of waiters inside the lock; a request with its retries is one
  step, as it does not touch the cache. Cancellation is seen only through the error of a timer
  or of the transport; the goroutine that writes an upload is run to its end at the point where
  the transport reads the content. The chunks in which io.Copy moves bytes are one write. Closing
  response bodies and idle connections, the stacks that panics print (the panic of the driver's id
  search is modelled with its exit code, and shown never to be reached), and values of Go types that
  have no JSON form except by the outcome of marshalling them. The usage text of package flag,
  the texts that package fmt makes of errors and values in the driver's lines, and the tests are
  left out; so are the accessors that only return a field and the error codes no code tests.
\<close>

end
